(* ===== verification/Prelude.thy ===== *)
theory Prelude
  imports Main "HOL-Library.Sublist" "HOL-Library.Multiset"
begin

text \<open>
  Shared ground of the development: the Go error values and results the components pass to each
  other, the loop that every line-oriented parser and every collector of the exporter is built
  from ("handle one item, stop at the first error, append what it produced"), and the facts about
  lists and maps that the component theories share.

  A Go function returning \<open>([]T, error)\<close> is a function into \<open>T list result\<close>: \<open>Inl e\<close> is
  \<open>nil, e\<close>, \<open>Inr xs\<close> is \<open>xs, nil\<close>.  A nil slice and an empty slice are both \<open>[]\<close>: no code of
  the exporter tells them apart.  A Go string or \<open>[]byte\<close> is a \<^typ>\<open>string\<close>, whose characters are
  the bytes.
\<close>

section \<open>Errors\<close>

text \<open>
  \<open>NumSyntax s\<close> and \<open>NumRange s\<close> are the \<open>*strconv.NumError\<close> of \<open>ParseFloat\<close> for the input
  \<open>s\<close>; \<open>NotExist\<close> is any error for which \<open>errors.Is(err, fs.ErrNotExist)\<close> holds
  (\<open>os.ErrNotExist\<close> is the same variable); \<open>Canceled\<close> and \<open>DeadlineExceeded\<close> are the two
  errors of a done context; \<open>SourceError\<close> is any other failure of the operating system, of a
  command or of a third-party package.  \<open>Errorf f xs es\<close> is \<open>fmt.Errorf\<close> with the format \<open>f\<close>,
  the arguments \<open>xs\<close> and the errors \<open>es\<close> wrapped by \<open>%w\<close>.  The text is kept unrendered: the
  exporter only logs it.
\<close>

datatype errarg = ArgS string | ArgN nat

datatype go_error =
    NumSyntax string
  | NumRange string
  | NotExist
  | Canceled
  | DeadlineExceeded
  | SourceError string
  | Errorf string "errarg list" "go_error list"

type_synonym 'a result = "go_error + 'a"

text \<open>\<open>errors.Is(err, fs.ErrNotExist)\<close>: the error itself or one that it wraps.\<close>

fun is_not_exist :: "go_error \<Rightarrow> bool" where
  "is_not_exist NotExist = True"
| "is_not_exist (Errorf _ _ es) = list_ex is_not_exist es"
| "is_not_exist _ = False"

text \<open>\<open>if err != nil { return nil, wrap(err) }\<close>.\<close>

definition map_err :: "(go_error \<Rightarrow> go_error) \<Rightarrow> 'a result \<Rightarrow> 'a result" where
  "map_err w r = (case r of Inl e \<Rightarrow> Inl (w e) | Inr x \<Rightarrow> Inr x)"

definition bind_res :: "'a result \<Rightarrow> ('a \<Rightarrow> 'b result) \<Rightarrow> 'b result" where
  "bind_res r k = (case r of Inl e \<Rightarrow> Inl e | Inr x \<Rightarrow> k x)"

definition is_ok :: "'a result \<Rightarrow> bool" where
  "is_ok r \<longleftrightarrow> (case r of Inl _ \<Rightarrow> False | Inr _ \<Rightarrow> True)"

text \<open>The value of a result whose error the caller drops: \<open>[]\<close> when there is one.\<close>

definition or_empty :: "'a list result \<Rightarrow> 'a list" where
  "or_empty r = (case r of Inl _ \<Rightarrow> [] | Inr xs \<Rightarrow> xs)"

named_theorems res_simps \<open>facts that evaluate a result\<close>
named_theorems res_iff \<open>when a result is a success\<close>

lemma map_err_simps [simp, res_simps]:
  "map_err w (Inl e) = Inl (w e)" "map_err w (Inr x) = Inr x"
  by (simp_all add: map_err_def)

lemma bind_res_simps [simp, res_simps]:
  "bind_res (Inl e) k = Inl e" "bind_res (Inr x) k = k x"
  by (simp_all add: bind_res_def)

lemma is_ok_simps [simp, res_simps]:
  "is_ok (Inl e) = False" "is_ok (Inr x) = True"
  by (simp_all add: is_ok_def)

lemma or_empty_simps [simp, res_simps]:
  "or_empty (Inl e) = []" "or_empty (Inr xs) = xs"
  by (simp_all add: or_empty_def)

lemma is_ok_iff: "is_ok r \<longleftrightarrow> (\<exists>x. r = Inr x)"
  by (cases r) auto

lemma map_err_Inr_iff [res_iff]: "map_err w r = Inr x \<longleftrightarrow> r = Inr x"
  by (cases r) auto

lemma bind_res_Inr_iff [res_iff]: "bind_res r k = Inr y \<longleftrightarrow> (\<exists>x. r = Inr x \<and> k x = Inr y)"
  by (cases r) auto

lemma is_ok_map_err [simp]: "is_ok (map_err w r) = is_ok r"
  by (cases r) auto

section \<open>The accumulating loop\<close>

text \<open>
  The shape of every parser and of every collector loop of the exporter:
  \<^verbatim>\<open>
  for _, x := range xs {
      obs, err := f(x)
      if err != nil { return nil, err }
      all = append(all, obs...)
  }
  return all, nil
  \<close>
  An item that the loop skips with \<open>continue\<close> is an item for which \<open>f\<close> is \<open>Inr []\<close>.
\<close>

fun collect_all :: "('a \<Rightarrow> 'b list result) \<Rightarrow> 'a list \<Rightarrow> 'b list result" where
  "collect_all f [] = Inr []"
| "collect_all f (x # xs) =
     (case f x of
        Inl e \<Rightarrow> Inl e
      | Inr ys \<Rightarrow> (case collect_all f xs of Inl e \<Rightarrow> Inl e | Inr zs \<Rightarrow> Inr (ys @ zs)))"

lemma collect_all_append:
  "collect_all f (xs @ ys) =
     (case collect_all f xs of
        Inl e \<Rightarrow> Inl e
      | Inr us \<Rightarrow> (case collect_all f ys of Inl e \<Rightarrow> Inl e | Inr vs \<Rightarrow> Inr (us @ vs)))"
  by (induction xs) (auto split: sum.splits)

lemma collect_all_cong [fundef_cong]:
  "xs = ys \<Longrightarrow> (\<And>x. x \<in> set ys \<Longrightarrow> f x = g x) \<Longrightarrow> collect_all f xs = collect_all g ys"
proof (induction ys arbitrary: xs)
  case (Cons y ys)
  from Cons.prems(2) have hd: "f y = g y" by simp
  from Cons.IH [OF refl] Cons.prems(2) have "collect_all f ys = collect_all g ys" by simp
  with hd Cons.prems(1) show ?case by (simp split: sum.split)
qed simp

lemma is_ok_collect_all: "is_ok (collect_all f xs) \<longleftrightarrow> (\<forall>x \<in> set xs. is_ok (f x))"
  by (induction xs) (auto split: sum.splits)

lemma collect_all_ok:
  "(\<And>x. x \<in> set xs \<Longrightarrow> f x = Inr (g x)) \<Longrightarrow> collect_all f xs = Inr (concat (map g xs))"
  by (induction xs) auto

lemma collect_all_or_empty:
  "\<forall>x \<in> set xs. is_ok (f x) \<Longrightarrow>
     collect_all f xs = Inr (concat (map (\<lambda>x. or_empty (f x)) xs))"
  by (rule collect_all_ok) (auto simp: is_ok_iff)

lemma collect_all_Inr_iff [res_iff]:
  "collect_all f xs = Inr zs \<longleftrightarrow>
     (\<forall>x \<in> set xs. is_ok (f x)) \<and> zs = concat (map (\<lambda>x. or_empty (f x)) xs)"
proof
  assume ok: "collect_all f xs = Inr zs"
  then have "is_ok (collect_all f xs)" by simp
  then have all: "\<forall>x \<in> set xs. is_ok (f x)" by (simp add: is_ok_collect_all)
  with ok show "(\<forall>x \<in> set xs. is_ok (f x)) \<and> zs = concat (map (\<lambda>x. or_empty (f x)) xs)"
    by (simp add: collect_all_or_empty)
qed (simp add: collect_all_or_empty)

text \<open>The error of the loop is the error of the first item that fails.\<close>

lemma collect_all_first_error:
  "collect_all f xs = Inl e \<longleftrightarrow>
     (\<exists>us x vs. xs = us @ x # vs \<and> (\<forall>u \<in> set us. is_ok (f u)) \<and> f x = Inl e)"
proof
  assume "collect_all f xs = Inl e"
  then show "\<exists>us x vs. xs = us @ x # vs \<and> (\<forall>u \<in> set us. is_ok (f u)) \<and> f x = Inl e"
  proof (induction xs)
    case (Cons y ys)
    show ?case
    proof (cases "f y")
      case (Inl d)
      with Cons.prems show ?thesis by (auto intro!: exI [of _ "[]"])
    next
      case (Inr zs)
      with Cons.prems have "collect_all f ys = Inl e" by (auto split: sum.splits)
      with Cons.IH obtain us x vs
        where "ys = us @ x # vs" "\<forall>u \<in> set us. is_ok (f u)" "f x = Inl e" by blast
      with Inr show ?thesis by (intro exI [of _ "y # us"] exI [of _ x] exI [of _ vs]) auto
    qed
  qed simp
next
  assume "\<exists>us x vs. xs = us @ x # vs \<and> (\<forall>u \<in> set us. is_ok (f u)) \<and> f x = Inl e"
  then obtain us x vs
    where "xs = us @ x # vs" "\<forall>u \<in> set us. is_ok (f u)" "f x = Inl e" by blast
  then show "collect_all f xs = Inl e"
    by (simp add: collect_all_append collect_all_or_empty)
qed

text \<open>Invariants of the items carry over to the whole output.\<close>

lemma collect_all_invariant:
  assumes "collect_all f xs = Inr zs"
    and "\<And>x ys y. x \<in> set xs \<Longrightarrow> f x = Inr ys \<Longrightarrow> y \<in> set ys \<Longrightarrow> P y"
    and "z \<in> set zs"
  shows "P z"
  using assms by (fastforce simp: res_iff is_ok_iff)

lemma collect_all_filter:
  "(\<And>x. x \<in> set xs \<Longrightarrow> \<not> keep x \<Longrightarrow> f x = Inr []) \<Longrightarrow>
     collect_all f (filter keep xs) = collect_all f xs"
  by (induction xs) (auto split: sum.splits)

lemma collect_all_map: "collect_all f (map g xs) = collect_all (\<lambda>x. f (g x)) xs"
  by (induction xs) (simp_all split: sum.split)

text \<open>A loop over the entries of a map only depends on their order in the order of its output.\<close>

lemma mset_concat_map:
  "mset (concat (map f xs)) = sum_mset (image_mset (\<lambda>x. mset (f x)) (mset xs))"
  by (induction xs) simp_all

lemma mset_concat_map_cong: "mset xs = mset ys \<Longrightarrow> mset (concat (map f xs)) = mset (concat (map f ys))"
  by (simp only: mset_concat_map)

end
