(* ===== verification/Go_Strings.thy ===== *)
theory Go_Strings
  imports Prelude
begin

text \<open>
  The functions of Go's package \<^verbatim>\<open>strings\<close> that the exporter uses, on byte strings.

  White space is what \<^verbatim>\<open>unicode.IsSpace\<close> says of a decoded rune: six ASCII bytes and nineteen
  code points beyond ASCII.  Go decodes UTF-8 from left to right and gives an invalid byte a rune
  of its own; since the first byte of each of the nineteen encodings is never a continuation byte,
  the decoder stops at every such byte, so a white space rune is seen wherever its encoding
  stands and the byte-level search below finds the same runes.  From the right,
  \<^verbatim>\<open>DecodeLastRune\<close> steps back over continuation bytes to the nearest first byte, which is again
  where the encoding begins.
\<close>

section \<open>White space\<close>

definition ascii_space :: "char \<Rightarrow> bool" where
  "ascii_space c \<longleftrightarrow>
     c = CHR 0x20 \<or> c = CHR 0x0A \<or> c = CHR 0x09 \<or> c = CHR 0x0D \<or> c = CHR 0x0B \<or> c = CHR 0x0C"

definition wide_spaces :: "string list" where
  "wide_spaces =
     [[CHR 0xC2, CHR 0x85], [CHR 0xC2, CHR 0xA0], [CHR 0xE1, CHR 0x9A, CHR 0x80],
      [CHR 0xE2, CHR 0x80, CHR 0x80], [CHR 0xE2, CHR 0x80, CHR 0x81], [CHR 0xE2, CHR 0x80, CHR 0x82],
      [CHR 0xE2, CHR 0x80, CHR 0x83], [CHR 0xE2, CHR 0x80, CHR 0x84], [CHR 0xE2, CHR 0x80, CHR 0x85],
      [CHR 0xE2, CHR 0x80, CHR 0x86], [CHR 0xE2, CHR 0x80, CHR 0x87], [CHR 0xE2, CHR 0x80, CHR 0x88],
      [CHR 0xE2, CHR 0x80, CHR 0x89], [CHR 0xE2, CHR 0x80, CHR 0x8A], [CHR 0xE2, CHR 0x80, CHR 0xA8],
      [CHR 0xE2, CHR 0x80, CHR 0xA9], [CHR 0xE2, CHR 0x80, CHR 0xAF], [CHR 0xE2, CHR 0x81, CHR 0x9F],
      [CHR 0xE3, CHR 0x80, CHR 0x80]]"

text \<open>A byte below \<open>0x80\<close>: the top bit is clear.\<close>

definition is_ascii :: "char \<Rightarrow> bool" where
  "is_ascii c \<longleftrightarrow> \<not> digit7 c"

text \<open>The number of bytes of the white space rune that begins (ends) the string, 0 if none does.\<close>

fun space_len :: "string \<Rightarrow> nat" where
  "space_len [] = 0"
| "space_len (c # s) =
     (if ascii_space c then 1
      else if is_ascii c then 0
      else (case find (\<lambda>r. prefix r (c # s)) wide_spaces of None \<Rightarrow> 0 | Some r \<Rightarrow> length r))"

fun space_len_rev :: "string \<Rightarrow> nat" where
  "space_len_rev [] = 0"
| "space_len_rev (c # s) =
     (if ascii_space c then 1
      else if is_ascii c then 0
      else (case find (\<lambda>r. prefix (rev r) (c # s)) wide_spaces of None \<Rightarrow> 0 | Some r \<Rightarrow> length r))"

section \<open>Trimming and splitting\<close>

fun trim_left :: "string \<Rightarrow> string" where
  "trim_left [] = []"
| "trim_left (c # s) =
     (let k = space_len (c # s) in if k = 0 then c # s else trim_left (drop (k - 1) s))"

fun trim_left_rev :: "string \<Rightarrow> string" where
  "trim_left_rev [] = []"
| "trim_left_rev (c # s) =
     (let k = space_len_rev (c # s) in if k = 0 then c # s else trim_left_rev (drop (k - 1) s))"

definition trim_right :: "string \<Rightarrow> string" where
  "trim_right s = rev (trim_left_rev (rev s))"

text \<open>\<open>strings.TrimSpace\<close>.\<close>

definition TrimSpace :: "string \<Rightarrow> string" where
  "TrimSpace s = trim_right (trim_left s)"

text \<open>\<open>strings.Fields\<close>: the maximal runs of runes that are not white space.\<close>

fun fields_from :: "string \<Rightarrow> string \<Rightarrow> string list" where
  "fields_from cur [] = (if cur = [] then [] else [rev cur])"
| "fields_from cur (c # s) =
     (let k = space_len (c # s) in
      if k = 0 then fields_from (c # cur) s
      else (if cur = [] then [] else [rev cur]) @ fields_from [] (drop (k - 1) s))"

definition Fields :: "string \<Rightarrow> string list" where
  "Fields s = fields_from [] s"

text \<open>\<open>strings.Split\<close> at a one-byte separator: never empty, one more piece than separators.\<close>

fun Split :: "char \<Rightarrow> string \<Rightarrow> string list" where
  "Split c [] = [[]]"
| "Split c (x # s) =
     (if x = c then [] # Split c s
      else (case Split c s of [] \<Rightarrow> [[x]] | p # ps \<Rightarrow> (x # p) # ps))"

abbreviation newline :: char where "newline \<equiv> CHR 0x0A"

abbreviation lines :: "string \<Rightarrow> string list" where "lines s \<equiv> Split newline s"

text \<open>\<open>strings.Trim\<close> with a cutset of ASCII bytes.\<close>

definition Trim_cutset :: "string \<Rightarrow> string \<Rightarrow> string" where
  "Trim_cutset cs s =
     rev (dropWhile (\<lambda>c. c \<in> set cs) (rev (dropWhile (\<lambda>c. c \<in> set cs) s)))"

section \<open>Searching\<close>

definition HasPrefix :: "string \<Rightarrow> string \<Rightarrow> bool" where
  "HasPrefix s p \<longleftrightarrow> length p \<le> length s \<and> take (length p) s = p"

definition HasSuffix :: "string \<Rightarrow> string \<Rightarrow> bool" where
  "HasSuffix s p \<longleftrightarrow> length p \<le> length s \<and> drop (length s - length p) s = p"

definition TrimSuffix :: "string \<Rightarrow> string \<Rightarrow> string" where
  "TrimSuffix s p = (if HasSuffix s p then take (length s - length p) s else s)"

text \<open>\<open>strings.CutPrefix\<close>: \<open>Some\<close> of the rest when the prefix is there.\<close>

definition CutPrefix :: "string \<Rightarrow> string \<Rightarrow> string option" where
  "CutPrefix s p = (if HasPrefix s p then Some (drop (length p) s) else None)"

fun Contains :: "string \<Rightarrow> string \<Rightarrow> bool" where
  "Contains [] p \<longleftrightarrow> p = []"
| "Contains (c # s) p \<longleftrightarrow> HasPrefix (c # s) p \<or> Contains s p"

text \<open>
  \<open>strings.Index\<close> and \<open>strings.LastIndex\<close> of a one-byte string, together with the two slices the
  code takes at the index: \<open>Some (s[:i], s[i+1:])\<close>, \<open>None\<close> for the index -1.
\<close>

fun cut_first :: "char \<Rightarrow> string \<Rightarrow> (string \<times> string) option" where
  "cut_first c [] = None"
| "cut_first c (x # s) =
     (if x = c then Some ([], s)
      else (case cut_first c s of None \<Rightarrow> None | Some (a, b) \<Rightarrow> Some (x # a, b)))"

definition cut_last :: "char \<Rightarrow> string \<Rightarrow> (string \<times> string) option" where
  "cut_last c s =
     (case cut_first c (rev s) of None \<Rightarrow> None | Some (b, a) \<Rightarrow> Some (rev a, rev b))"

section \<open>Lower case\<close>

text \<open>
  \<open>strings.ToLower\<close>, up to comparison with an ASCII string, which is all the code does with the
  result: an ASCII capital loses its case, the two runes beyond ASCII whose lower case is ASCII
  (U+0130, a capital I with a dot, and U+212A, the Kelvin sign) become that letter, and every
  other byte of a rune beyond ASCII stays beyond ASCII.
\<close>

definition lower_char :: "char \<Rightarrow> char" where
  "lower_char c =
     (if (65::nat) \<le> of_char c \<and> of_char c \<le> (90::nat)
      then Char (digit0 c) (digit1 c) (digit2 c) (digit3 c) (digit4 c) True (digit6 c) (digit7 c)
      else c)"

fun ToLower :: "string \<Rightarrow> string" where
  "ToLower [] = []"
| "ToLower (c # s) =
     (if c = CHR 0xC4 \<and> take 1 s = [CHR 0xB0] then CHR ''i'' # ToLower (drop 1 s)
      else if c = CHR 0xE2 \<and> take 2 s = [CHR 0x84, CHR 0xAA] then CHR ''k'' # ToLower (drop 2 s)
      else lower_char c # ToLower s)"

section \<open>Facts the parsers share\<close>

text \<open>
  A graphic byte is an ASCII byte that is not white space; a token is a non-empty string of
  graphic bytes, such as every name and number that Lustre prints.
\<close>

definition graphic :: "char \<Rightarrow> bool" where
  "graphic c \<longleftrightarrow> is_ascii c \<and> \<not> ascii_space c"

definition token :: "string \<Rightarrow> bool" where
  "token s \<longleftrightarrow> s \<noteq> [] \<and> list_all graphic s"

named_theorems str_eval \<open>definitions that evaluate the string functions on literals\<close>

lemmas [str_eval] =
  Fields_def TrimSpace_def trim_right_def ascii_space_def is_ascii_def wide_spaces_def
  HasPrefix_def HasSuffix_def TrimSuffix_def CutPrefix_def Trim_cutset_def cut_last_def
  lower_char_def graphic_def token_def

lemma space_len_graphic [simp]: "graphic c \<Longrightarrow> space_len (c # s) = 0"
  by (simp add: graphic_def)

lemma space_len_rev_graphic [simp]: "graphic c \<Longrightarrow> space_len_rev (c # s) = 0"
  by (simp add: graphic_def)

declare space_len.simps(2) [simp del] space_len_rev.simps(2) [simp del]
declare trim_left.simps(2) [simp del] trim_left_rev.simps(2) [simp del]
declare fields_from.simps(2) [simp del]

lemmas [str_eval] =
  space_len.simps(2) space_len_rev.simps(2) trim_left.simps(2) trim_left_rev.simps(2)
  fields_from.simps(2)

lemma space_len_space [simp]: "space_len (CHR '' '' # s) = 1"
  by (simp add: space_len.simps ascii_space_def)

lemma fields_from_space [simp]:
  "fields_from cur (CHR '' '' # s) = (if cur = [] then [] else [rev cur]) @ fields_from [] s"
  by (simp add: fields_from.simps)

lemma fields_from_graphic:
  "list_all graphic w \<Longrightarrow> fields_from cur (w @ s) = fields_from (rev w @ cur) s"
  by (induction w arbitrary: cur) (simp_all add: fields_from.simps)

lemma Fields_token_space: "token w \<Longrightarrow> Fields (w @ CHR '' '' # s) = w # Fields s"
  by (simp add: Fields_def fields_from_graphic token_def)

lemma Fields_token [simp]: "token w \<Longrightarrow> Fields w = [w]"
  using fields_from_graphic [of w "[]" "[]"] by (simp add: Fields_def token_def)

lemma Fields_Nil [simp]: "Fields [] = []"
  by (simp add: Fields_def)

text \<open>Words printed with one space between them.\<close>

fun unwords :: "string list \<Rightarrow> string" where
  "unwords [] = []"
| "unwords [w] = w"
| "unwords (w # v # ws) = w @ CHR '' '' # unwords (v # ws)"

lemma Fields_unwords: "list_all token ws \<Longrightarrow> Fields (unwords ws) = ws"
  by (induction ws rule: unwords.induct) (simp_all add: Fields_token_space)

lemma fields_from_nonempty: "w \<in> set (fields_from cur s) \<Longrightarrow> w \<noteq> []"
  by (induction cur s rule: fields_from.induct)
     (auto simp: fields_from.simps Let_def split: if_splits)

lemma Fields_nonempty: "w \<in> set (Fields s) \<Longrightarrow> w \<noteq> []"
  by (auto simp: Fields_def dest: fields_from_nonempty)

lemma trim_left_graphic: "graphic c \<Longrightarrow> trim_left (c # s) = c # s"
  by (simp add: trim_left.simps)

lemma trim_left_rev_graphic: "graphic c \<Longrightarrow> trim_left_rev (c # s) = c # s"
  by (simp add: trim_left_rev.simps)

text \<open>A string that begins and ends with a graphic byte is not trimmed.\<close>

lemma TrimSpace_graphic_ends:
  assumes "s \<noteq> []" and "graphic (hd s)" and "graphic (last s)"
  shows "TrimSpace s = s"
proof -
  from assms obtain c t where s: "s = c # t" "graphic c" by (cases s) auto
  from assms have "rev s \<noteq> []" "graphic (hd (rev s))" by (simp_all add: hd_rev)
  then obtain d u where "rev s = d # u" "graphic d" by (cases "rev s") auto
  then have "trim_left_rev (rev s) = rev s" by (simp add: trim_left_rev_graphic)
  with s show ?thesis by (simp add: TrimSpace_def trim_right_def trim_left_graphic)
qed

lemma TrimSpace_Nil [simp]: "TrimSpace [] = []"
  by (simp add: TrimSpace_def trim_right_def)

lemma token_ends: "token w \<Longrightarrow> w \<noteq> [] \<and> graphic (hd w) \<and> graphic (last w)"
  by (auto simp: token_def list_all_iff)

lemma TrimSpace_token [simp]: "token w \<Longrightarrow> TrimSpace w = w"
  by (simp add: TrimSpace_graphic_ends token_ends)

lemma unwords_ends:
  "ws \<noteq> [] \<Longrightarrow> list_all token ws \<Longrightarrow>
     unwords ws \<noteq> [] \<and> hd (unwords ws) = hd (hd ws) \<and> last (unwords ws) = last (last ws)"
  by (induction ws rule: unwords.induct) (auto simp: token_def)

lemma TrimSpace_unwords:
  assumes "ws \<noteq> []" and "list_all token ws"
  shows "TrimSpace (unwords ws) = unwords ws"
proof -
  from assms have "token (hd ws)" "token (last ws)" by (auto simp: list_all_iff)
  with unwords_ends [OF assms] show ?thesis by (simp add: TrimSpace_graphic_ends token_ends)
qed

text \<open>Splitting at a byte undoes joining with it.\<close>

lemma Split_ne [simp]: "Split c s \<noteq> []"
  by (induction s) (auto split: list.split)

lemma Split_append: "Split c (a @ c # b) = Split c a @ Split c b"
proof (induction a)
  case (Cons x a)
  obtain p ps where "Split c a = p # ps" by (cases "Split c a") auto
  with Cons show ?case by simp
qed simp

lemma Split_no_sep: "c \<notin> set s \<Longrightarrow> Split c s = [s]"
  by (induction s) auto

text \<open>Text printed line by line, each line ended by a newline.\<close>

definition unlines :: "string list \<Rightarrow> string" where
  "unlines ls = concat (map (\<lambda>l. l @ [newline]) ls)"

lemma lines_unlines: "(\<And>l. l \<in> set ls \<Longrightarrow> newline \<notin> set l) \<Longrightarrow> lines (unlines ls) = ls @ [[]]"
proof (induction ls)
  case Nil
  show ?case by (simp add: unlines_def)
next
  case (Cons l ls)
  have "lines (unlines (l # ls)) = lines (l @ newline # unlines ls)" by (simp add: unlines_def)
  also have "\<dots> = [l] @ (ls @ [[]])"
    using Cons by (simp add: Split_append Split_no_sep)
  finally show ?case by simp
qed

lemma not_graphic_newline: "graphic c \<Longrightarrow> c \<noteq> newline"
  by (auto simp: graphic_def ascii_space_def)

lemma token_no_newline: "token w \<Longrightarrow> newline \<notin> set w"
  by (auto simp: token_def list_all_iff dest: not_graphic_newline)

lemma unwords_no_newline: "list_all token ws \<Longrightarrow> newline \<notin> set (unwords ws)"
  by (induction ws rule: unwords.induct) (auto dest: token_no_newline)

lemma HasPrefix_iff: "HasPrefix s p \<longleftrightarrow> prefix p s"
  by (auto simp: HasPrefix_def prefix_def) (metis append_take_drop_id)

lemma HasSuffix_iff: "HasSuffix s p \<longleftrightarrow> suffix p s"
  by (auto simp: HasSuffix_def suffix_def) (metis append_take_drop_id)

lemma cut_first_Some: "cut_first c s = Some (a, b) \<longleftrightarrow> s = a @ c # b \<and> c \<notin> set a"
proof (induction s arbitrary: a)
  case (Cons x s)
  show ?case
  proof (cases a)
    case Nil
    then show ?thesis by (auto split: option.split)
  next
    case (Cons y a')
    have "cut_first c (x # s) = Some (y # a', b) \<longleftrightarrow> x \<noteq> c \<and> x = y \<and> cut_first c s = Some (a', b)"
      by (auto split: option.split)
    then show ?thesis using Cons.IH Cons by auto
  qed
qed simp

lemma cut_first_None: "cut_first c s = None \<longleftrightarrow> c \<notin> set s"
  by (induction s) (auto split: option.splits)

lemma cut_last_Some: "cut_last c s = Some (a, b) \<longleftrightarrow> s = a @ c # b \<and> c \<notin> set b"
proof
  assume "cut_last c s = Some (a, b)"
  then have "cut_first c (rev s) = Some (rev b, rev a)"
    by (auto simp: cut_last_def split: option.splits)
  then have h: "rev s = rev b @ c # rev a" "c \<notin> set b" by (simp_all add: cut_first_Some)
  from h(1) have "rev (rev s) = rev (rev b @ c # rev a)" by (rule arg_cong)
  with h(2) show "s = a @ c # b \<and> c \<notin> set b" by simp
next
  assume h: "s = a @ c # b \<and> c \<notin> set b"
  then have "cut_first c (rev s) = Some (rev b, rev a)" by (simp add: cut_first_Some)
  then show "cut_last c s = Some (a, b)" by (simp add: cut_last_def)
qed

end
