(* ===== verification/Float64.thy ===== *)
theory Float64
  imports Prelude Complex_Main "HOL-Library.Log_Nat"
begin

text \<open>
  Go's \<^verbatim>\<open>float64\<close>: IEEE 754 double precision, round to nearest, ties to even.  \<open>F_Fin s m e\<close> is
  the finite number \<open>\<plusminus> m * 2^e\<close>, negative when \<open>s\<close>; it is well formed when it is the number's one
  representation (53-bit \<open>m\<close> with its top bit set, or any smaller \<open>m\<close> at the least exponent, which
  holds the subnormals and the two zeros).  The arithmetic computes the exact rational result on
  integers and rounds it once, which is the definition of the IEEE operations.
\<close>

datatype float64 = F_NaN | F_Inf bool | F_Fin bool int int

definition min_exp :: int where "min_exp = -1074"
definition max_exp :: int where "max_exp = 971"

fun f_wf :: "float64 \<Rightarrow> bool" where
  "f_wf F_NaN = True"
| "f_wf (F_Inf s) = True"
| "f_wf (F_Fin s m e) =
     (0 \<le> m \<and> m < 2 ^ 53 \<and> min_exp \<le> e \<and> e \<le> max_exp \<and> (2 ^ 52 \<le> m \<or> e = min_exp))"

section \<open>Rounding\<close>

text \<open>The integer nearest to \<open>n / d\<close>, ties to even.\<close>

definition rne :: "int \<Rightarrow> int \<Rightarrow> int" where
  "rne n d =
     (let q = n div d; r = n mod d
      in if 2 * r < d \<or> (2 * r = d \<and> even q) then q else q + 1)"

text \<open>\<open>n / d\<close> measured in units of \<open>2^e\<close>: its numerator and denominator.\<close>

definition scale_num :: "int \<Rightarrow> int \<Rightarrow> int" where
  "scale_num n e = (if e < 0 then n * 2 ^ nat (- e) else n)"

definition scale_den :: "int \<Rightarrow> int \<Rightarrow> int" where
  "scale_den d e = (if e < 0 then d else d * 2 ^ nat e)"

text \<open>The binary logarithm of \<open>n / d\<close>, rounded down.\<close>

definition ilog2 :: "int \<Rightarrow> int \<Rightarrow> int" where
  "ilog2 n d =
     (let l = bitlen n - bitlen d
      in if scale_den d l \<le> scale_num n l then l else l - 1)"

text \<open>The float nearest to \<open>n / d\<close>, for \<open>0 \<le> n\<close> and \<open>0 < d\<close>, with sign \<open>s\<close>.\<close>

definition round_ratio :: "bool \<Rightarrow> int \<Rightarrow> int \<Rightarrow> float64" where
  "round_ratio s n d =
     (if n = 0 then F_Fin s 0 min_exp
      else
        let e = max min_exp (ilog2 n d - 52);
            m = rne (scale_num n e) (scale_den d e);
            m' = (if m = 2 ^ 53 then 2 ^ 52 else m);
            e' = (if m = 2 ^ 53 then e + 1 else e)
        in if e' > max_exp then F_Inf s else F_Fin s m' e')"

section \<open>Arithmetic\<close>

definition f_zero :: float64 where "f_zero = F_Fin False 0 min_exp"

definition f_of_int :: "int \<Rightarrow> float64" where
  "f_of_int n = round_ratio (n < 0) \<bar>n\<bar> 1"

fun f_mul :: "float64 \<Rightarrow> float64 \<Rightarrow> float64" where
  "f_mul F_NaN y = F_NaN"
| "f_mul x F_NaN = F_NaN"
| "f_mul (F_Inf s) (F_Inf t) = F_Inf (s \<noteq> t)"
| "f_mul (F_Inf s) (F_Fin t n f) = (if n = 0 then F_NaN else F_Inf (s \<noteq> t))"
| "f_mul (F_Fin s m e) (F_Inf t) = (if m = 0 then F_NaN else F_Inf (s \<noteq> t))"
| "f_mul (F_Fin s m e) (F_Fin t n f) =
     round_ratio (s \<noteq> t) (scale_num (m * n) (- (e + f))) (scale_den 1 (- (e + f)))"

fun f_div :: "float64 \<Rightarrow> float64 \<Rightarrow> float64" where
  "f_div F_NaN y = F_NaN"
| "f_div x F_NaN = F_NaN"
| "f_div (F_Inf s) (F_Inf t) = F_NaN"
| "f_div (F_Inf s) (F_Fin t n f) = F_Inf (s \<noteq> t)"
| "f_div (F_Fin s m e) (F_Inf t) = F_Fin (s \<noteq> t) 0 min_exp"
| "f_div (F_Fin s m e) (F_Fin t n f) =
     (if n = 0 then (if m = 0 then F_NaN else F_Inf (s \<noteq> t))
      else round_ratio (s \<noteq> t) (scale_num m (f - e)) (scale_den n (f - e)))"

definition signed :: "bool \<Rightarrow> int \<Rightarrow> int" where
  "signed s m = (if s then - m else m)"

fun f_add :: "float64 \<Rightarrow> float64 \<Rightarrow> float64" where
  "f_add F_NaN y = F_NaN"
| "f_add x F_NaN = F_NaN"
| "f_add (F_Inf s) (F_Inf t) = (if s = t then F_Inf s else F_NaN)"
| "f_add (F_Inf s) (F_Fin t n f) = F_Inf s"
| "f_add (F_Fin s m e) (F_Inf t) = F_Inf t"
| "f_add (F_Fin s m e) (F_Fin t n f) =
     (let k = min e f;
          z = signed s m * 2 ^ nat (e - k) + signed t n * 2 ^ nat (f - k)
      in if z = 0 then F_Fin (s \<and> t) 0 min_exp
         else round_ratio (z < 0) (scale_num \<bar>z\<bar> (- k)) (scale_den 1 (- k)))"

section \<open>The value of a float, and what rounding guarantees\<close>

fun f_finite :: "float64 \<Rightarrow> bool" where
  "f_finite (F_Fin s m e) = True"
| "f_finite _ = False"

fun f_val :: "float64 \<Rightarrow> real" where
  "f_val (F_Fin s m e) = (if s then - 1 else 1) * of_int m * 2 powi e"
| "f_val _ = 0"

lemma scale_pos: "0 < d \<Longrightarrow> 0 < scale_den d e" "0 \<le> n \<Longrightarrow> 0 \<le> scale_num n e"
  by (simp_all add: scale_den_def scale_num_def)

lemma scale_ratio:
  "0 < d \<Longrightarrow> real_of_int (scale_num n e) / real_of_int (scale_den d e) = real_of_int n / real_of_int d * 2 powi (- e)"
  by (simp add: scale_num_def scale_den_def power_int_def field_simps)

lemma le_ratio_iff:
  "0 < (d::int) \<Longrightarrow> d \<le> n \<longleftrightarrow> 1 \<le> real_of_int n / real_of_int d"
  by (simp add: le_divide_eq)

lemma rne_exact [simp]: "0 < d \<Longrightarrow> rne (q * d) d = q"
  by (simp add: rne_def)

lemma rne_bounds:
  assumes "0 < d"
  shows "\<bar>2 * (rne n d * d - n)\<bar> \<le> d"
proof -
  have n: "n = (n div d) * d + n mod d" by simp
  have r: "0 \<le> n mod d" "n mod d < d" using assms by simp_all
  define q where "q = n div d"
  define u where "u = n mod d"
  have "n = q * d + u" "0 \<le> u" "u < d" using n r by (simp_all add: q_def u_def)
  then show ?thesis
    unfolding rne_def Let_def q_def [symmetric] u_def [symmetric]
    by (auto simp: algebra_simps)
qed

lemma mult_cross_less: "0 < d \<Longrightarrow> 0 < d' \<Longrightarrow> r * d' = r' * d \<Longrightarrow> 2 * r < d \<longleftrightarrow> 2 * r' < (d'::int)"
proof -
  assume h: "0 < d" "0 < d'" "r * d' = r' * d"
  have "2 * r < d \<longleftrightarrow> (2 * r) * d' < d * d'" using h by simp
  also have "(2 * r) * d' = (2 * r') * d" using h by simp
  also have "(2 * r') * d < d * d' \<longleftrightarrow> 2 * r' < d'" using h by (simp add: mult.commute)
  finally show ?thesis .
qed

lemma mult_cross_eq: "0 < d \<Longrightarrow> 0 < d' \<Longrightarrow> r * d' = r' * d \<Longrightarrow> 2 * r = d \<longleftrightarrow> 2 * r' = (d'::int)"
proof -
  assume h: "0 < d" "0 < d'" "r * d' = r' * d"
  have "2 * r = d \<longleftrightarrow> (2 * r) * d' = d * d'" using h by simp
  also have "(2 * r) * d' = (2 * r') * d" using h by simp
  also have "(2 * r') * d = d * d' \<longleftrightarrow> 2 * r' = d'" using h by (simp add: mult.commute)
  finally show ?thesis .
qed

lemma rne_cong:
  assumes "0 < d" "0 < d'" and "n * d' = n' * d"
  shows "rne n d = rne n' d'"
proof -
  have "n div d = (n * d') div (d * d')" using assms(2) by simp
  also have "\<dots> = (n' * d) div (d' * d)" by (simp only: assms(3) mult.commute [of d d'])
  also have "\<dots> = n' div d'" using assms(1) by simp
  finally have q: "n div d = n' div d'" .
  have "(n mod d) * d' = (n * d') mod (d * d')" by (simp add: mod_mult_mult2)
  also have "\<dots> = (n' * d) mod (d' * d)" by (simp only: assms(3) mult.commute [of d d'])
  also have "\<dots> = (n' mod d') * d" by (simp add: mod_mult_mult2)
  finally have r: "(n mod d) * d' = (n' mod d') * d" .
  show ?thesis
    unfolding rne_def Let_def q
      mult_cross_less [OF assms(1,2) r] mult_cross_eq [OF assms(1,2) r] ..
qed

lemma bitlen_real:
  assumes "0 < n"
  shows "2 powi (bitlen n - 1) \<le> real_of_int n \<and> real_of_int n < 2 powi bitlen n"
proof -
  have b: "1 \<le> bitlen n" using assms by (simp add: bitlen_alt_def)
  have "2 ^ nat (bitlen n - 1) \<le> n \<and> n < 2 ^ nat (bitlen n)" using assms by (rule bitlen_bounds)
  then have "real_of_int (2 ^ nat (bitlen n - 1)) \<le> real_of_int n \<and> real_of_int n < real_of_int (2 ^ nat (bitlen n))"
    by (simp only: of_int_le_iff of_int_less_iff)
  with b show ?thesis by (simp add: power_int_def)
qed

lemma scale_le_iff:
  assumes "0 < d"
  shows "scale_den d e \<le> scale_num n e \<longleftrightarrow> 2 powi e \<le> real_of_int n / real_of_int d"
proof -
  have "scale_den d e \<le> scale_num n e
      \<longleftrightarrow> 1 \<le> real_of_int n / real_of_int d * 2 powi (- e)"
    using assms by (simp add: le_ratio_iff scale_pos scale_ratio)
  also have "\<dots> \<longleftrightarrow> 2 powi e \<le> real_of_int n / real_of_int d"
    using assms by (simp add: power_int_minus divide_inverse [symmetric] le_divide_eq mult.commute)
  finally show ?thesis .
qed

lemma ilog2_bounds:
  assumes "0 < n" "0 < d"
  shows "2 powi (ilog2 n d) \<le> real_of_int n / real_of_int d \<and>
         real_of_int n / real_of_int d < 2 powi (ilog2 n d + 1)"
proof -
  define l where "l = bitlen n - bitlen d"
  note bn = bitlen_real [OF assms(1)] and bd = bitlen_real [OF assms(2)]
  have "2 powi (bitlen n - 1) / 2 powi bitlen d < real_of_int n / real_of_int d"
    using bn bd assms by (intro frac_less2) auto
  moreover have "(2::real) powi (l - 1) = 2 powi (bitlen n - 1) / 2 powi bitlen d"
    by (simp add: l_def power_int_diff)
  ultimately have lo: "2 powi (l - 1) < real_of_int n / real_of_int d" by simp
  have "real_of_int n / real_of_int d < 2 powi bitlen n / 2 powi (bitlen d - 1)"
    using bn bd assms by (intro frac_less) auto
  moreover have "(2::real) powi (l + 1) = 2 powi bitlen n / 2 powi (bitlen d - 1)"
    by (simp add: l_def power_int_diff power_int_add)
  ultimately have hi: "real_of_int n / real_of_int d < 2 powi (l + 1)" by simp
  show ?thesis
    using lo hi scale_le_iff [OF assms(2), of l n]
    by (auto simp: ilog2_def Let_def l_def [symmetric])
qed

lemma powi2_le_iff [simp]: "(2::real) powi a \<le> 2 powi b \<longleftrightarrow> a \<le> b"
proof
  show "(2::real) powi a \<le> 2 powi b \<Longrightarrow> a \<le> b"
    using power_int_strict_increasing [of b a "2::real"] by (cases "a \<le> b") auto
qed (auto intro: power_int_increasing)

lemma powi2_less_iff [simp]: "(2::real) powi a < 2 powi b \<longleftrightarrow> a < b"
  by (simp add: linorder_not_le [symmetric] del: not_le)

text \<open>The binary logarithm is determined by its bounds.\<close>

lemma ilog2_unique:
  assumes "0 < n" "0 < d"
    and "2 powi l \<le> real_of_int n / real_of_int d" "real_of_int n / real_of_int d < 2 powi (l + 1)"
  shows "ilog2 n d = l"
proof -
  note b = ilog2_bounds [OF assms(1,2)]
  from b assms(4) have "(2::real) powi (ilog2 n d) < 2 powi (l + 1)" by linarith
  moreover from b assms(3) have "(2::real) powi l < 2 powi (ilog2 n d + 1)" by linarith
  ultimately show ?thesis by simp
qed

text \<open>Rounding depends on the ratio only.\<close>

lemma round_ratio_cong:
  assumes "0 \<le> n" "0 \<le> n'" "0 < d" "0 < d'"
    and "real_of_int n / real_of_int d = real_of_int n' / real_of_int d'"
  shows "round_ratio s n d = round_ratio s n' d'"
proof (cases "n = 0")
  case True
  with assms show ?thesis by (simp add: round_ratio_def)
next
  case False
  with assms have pos: "0 < n" "0 < n'" by (auto simp: less_le)
  have log: "ilog2 n d = ilog2 n' d'"
    using ilog2_bounds [OF pos(2) assms(4)] assms(5)
    by (intro ilog2_unique) (use pos assms in auto)
  have "scale_num n e * scale_den d' e = scale_num n' e * scale_den d e" for e
  proof -
    have "real_of_int (scale_num n e) / real_of_int (scale_den d e)
        = real_of_int (scale_num n' e) / real_of_int (scale_den d' e)"
      using assms by (simp add: scale_ratio)
    moreover have "real_of_int (scale_den d e) \<noteq> 0" "real_of_int (scale_den d' e) \<noteq> 0"
      using scale_pos(1) [of d e] scale_pos(1) [of d' e] assms by auto
    ultimately have "real_of_int (scale_num n e) * real_of_int (scale_den d' e)
        = real_of_int (scale_num n' e) * real_of_int (scale_den d e)"
      by (simp add: field_simps)
    then show ?thesis by (simp only: of_int_mult [symmetric] of_int_eq_iff)
  qed
  then have "rne (scale_num n e) (scale_den d e) = rne (scale_num n' e) (scale_den d' e)" for e
    using assms by (intro rne_cong) (auto simp: scale_pos)
  with log pos show ?thesis by (simp add: round_ratio_def)
qed

text \<open>A ratio that is a well-formed float rounds to that float.\<close>

lemma round_ratio_exact:
  assumes wf: "f_wf (F_Fin s m e)" and d: "0 < d" and n: "0 \<le> n"
    and val: "real_of_int n / real_of_int d = real_of_int m * 2 powi e"
  shows "round_ratio s n d = F_Fin s m e"
proof (cases "m = 0")
  case True
  with wf val d show ?thesis by (simp add: round_ratio_def)
next
  case False
  with wf have m: "0 < m" "m < 2 ^ 53" by auto
  have "0 < real_of_int n / real_of_int d" unfolding val using m by simp
  with d n have npos: "0 < n" by (simp add: zero_less_divide_iff)
  have log: "max min_exp (ilog2 n d - 52) = e"
  proof (cases "2 ^ 52 \<le> m")
    case True
    then have "real_of_int (2 ^ 52) \<le> real_of_int m" "real_of_int m < real_of_int (2 ^ 53)"
      using m by (simp_all only: of_int_le_iff of_int_less_iff)
    then have "2 powi (52 + e) \<le> real_of_int n / real_of_int d"
      "real_of_int n / real_of_int d < 2 powi (52 + e + 1)"
      unfolding val by (simp_all add: power_int_add)
    then have "ilog2 n d = 52 + e" by (intro ilog2_unique npos d)
    with wf show ?thesis by (simp add: min_exp_def)
  next
    case False
    with wf have e: "e = min_exp" by simp
    from False have "real_of_int m < real_of_int (2 ^ 52)" by (simp only: of_int_less_iff not_le)
    then have "real_of_int n / real_of_int d < 2 powi (52 + e)"
      unfolding val by (simp add: power_int_add)
    with ilog2_bounds [OF npos d] have "(2::real) powi (ilog2 n d) < 2 powi (52 + e)" by linarith
    with e show ?thesis by simp
  qed
  have "real_of_int (scale_num n e) / real_of_int (scale_den d e) = real_of_int m"
    using d by (simp add: scale_ratio val power_int_minus)
  then have "real_of_int (scale_num n e) = real_of_int (m * scale_den d e)"
    using scale_pos(1) [OF d, of e] by (simp add: field_simps)
  then have "scale_num n e = m * scale_den d e" by (simp only: of_int_eq_iff)
  then have "rne (scale_num n e) (scale_den d e) = m" using scale_pos(1) [OF d] by simp
  with log npos m wf show ?thesis by (simp add: round_ratio_def Let_def)
qed

text \<open>Every integer below \<open>2^53\<close> is a well-formed float.\<close>

lemma small_int_float:
  assumes "0 \<le> n" "n < 2 ^ 53"
  obtains m e where "f_wf (F_Fin s m e)" "real_of_int m * 2 powi e = real_of_int n"
proof (cases "n = 0")
  case True
  with that [of 0 min_exp] show ?thesis by (simp add: min_exp_def max_exp_def)
next
  case False
  with assms have pos: "0 < n" by simp
  define k where "k = nat (53 - bitlen n)"
  have b: "bitlen n \<le> 53" "1 \<le> bitlen n"
    using assms pos by (simp_all add: bitlen_le_iff_power bitlen_ge_iff_power)
  then have k: "int k = 53 - bitlen n" "int k \<le> 52" by (simp_all add: k_def)
  have "bitlen (n * 2 ^ k) = 53" using pos k by simp
  then have "2 ^ 52 \<le> n * 2 ^ k \<and> n * 2 ^ k < 2 ^ 53"
    using bitlen_bounds [of "n * 2 ^ k"] pos by simp
  with k have "f_wf (F_Fin s (n * 2 ^ k) (- int k))" by (simp add: min_exp_def max_exp_def)
  moreover have "real_of_int (n * 2 ^ k) * 2 powi (- int k) = real_of_int n"
    by (simp add: power_int_minus)
  ultimately show ?thesis by (rule that)
qed

lemma f_of_int_exact:
  assumes "\<bar>n\<bar> < 2 ^ 53"
  shows "f_finite (f_of_int n) \<and> f_wf (f_of_int n) \<and> f_val (f_of_int n) = real_of_int n"
proof -
  obtain m e where h: "f_wf (F_Fin (n < 0) m e)" "real_of_int m * 2 powi e = real_of_int \<bar>n\<bar>"
    by (rule small_int_float [OF _ assms]) simp
  then have "f_of_int n = F_Fin (n < 0) m e"
    unfolding f_of_int_def by (intro round_ratio_exact) simp_all
  with h show ?thesis by simp
qed

text \<open>The product of two small integers is the product of the integers, rounded.\<close>

lemma f_mul_of_int:
  assumes "0 \<le> a" "a < 2 ^ 53" "0 \<le> b" "b < 2 ^ 53"
  shows "f_mul (f_of_int a) (f_of_int b) = f_of_int (a * b)"
proof -
  obtain m e where x: "f_wf (F_Fin False m e)" "real_of_int m * 2 powi e = real_of_int a"
    by (rule small_int_float [OF assms(1,2)])
  obtain n f where y: "f_wf (F_Fin False n f)" "real_of_int n * 2 powi f = real_of_int b"
    by (rule small_int_float [OF assms(3,4)])
  have "f_of_int a = F_Fin False m e" "f_of_int b = F_Fin False n f"
    using x y assms unfolding f_of_int_def by (auto intro!: round_ratio_exact)
  moreover have "round_ratio False (scale_num (m * n) (- (e + f))) (scale_den 1 (- (e + f)))
      = round_ratio False (a * b) 1"
  proof (rule round_ratio_cong)
    have "real_of_int (scale_num (m * n) (- (e + f))) / real_of_int (scale_den 1 (- (e + f)))
        = (real_of_int m * 2 powi e) * (real_of_int n * 2 powi f)"
      by (subst scale_ratio) (simp_all add: power_int_add)
    with x y show "real_of_int (scale_num (m * n) (- (e + f))) / real_of_int (scale_den 1 (- (e + f)))
        = real_of_int (a * b) / real_of_int 1" by simp
  qed (use x y assms in \<open>simp_all add: scale_pos\<close>)
  moreover have "\<not> a * b < 0" using assms by (simp add: not_less)
  ultimately show ?thesis using assms by (simp add: f_of_int_def)
qed

lemma f_mul_one:
  assumes "f_wf x"
  shows "f_mul x (f_of_int 1) = x"
proof -
  obtain n f where y: "f_wf (F_Fin False n f)" "real_of_int n * 2 powi f = real_of_int 1"
    by (rule small_int_float [of 1]) simp_all
  have one: "f_of_int 1 = F_Fin False n f"
    using y unfolding f_of_int_def by (auto intro!: round_ratio_exact)
  have n: "n \<noteq> 0" "0 \<le> n" using y by auto
  show ?thesis
  proof (cases x)
    case (F_Fin s m e)
    have "round_ratio s (scale_num (m * n) (- (e + f))) (scale_den 1 (- (e + f))) = F_Fin s m e"
    proof (rule round_ratio_exact)
      have "real_of_int (scale_num (m * n) (- (e + f))) / real_of_int (scale_den 1 (- (e + f)))
          = (real_of_int m * 2 powi e) * (real_of_int n * 2 powi f)"
        by (subst scale_ratio) (simp_all add: power_int_add)
      with y show "real_of_int (scale_num (m * n) (- (e + f))) / real_of_int (scale_den 1 (- (e + f)))
          = real_of_int m * 2 powi e" by simp
    qed (use assms n F_Fin in \<open>simp_all add: scale_pos\<close>)
    with F_Fin one show ?thesis by simp
  qed (use one n in simp_all)
qed

lemma half_unit:
  assumes "0 < (D::real)" and "\<bar>2 * (q * D - N)\<bar> \<le> D"
  shows "\<bar>q - N / D\<bar> \<le> 1 / 2"
proof -
  have "q - N / D = (q * D - N) / D" using assms(1) by (simp add: field_simps)
  then have "\<bar>q - N / D\<bar> = \<bar>q * D - N\<bar> / D" using assms(1) by simp
  also have "\<dots> \<le> (D / 2) / D"
  proof (rule divide_right_mono)
    from assms(2) show "\<bar>q * D - N\<bar> \<le> D / 2" unfolding abs_le_iff by (simp add: algebra_simps)
  qed (use assms(1) in simp)
  also have "\<dots> = 1 / 2" using assms(1) by simp
  finally show ?thesis .
qed

text \<open>The rounding error is at most half a unit in the last place.\<close>

lemma round_ratio_error:
  assumes n: "0 \<le> n" and d: "0 < d" and res: "round_ratio s n d = F_Fin t m e"
  shows "\<bar>real_of_int m * 2 powi e - real_of_int n / real_of_int d\<bar> \<le> 2 powi e / 2"
proof (cases "n = 0")
  case True
  with res show ?thesis by (auto simp: round_ratio_def)
next
  case False
  define k where "k = max min_exp (ilog2 n d - 52)"
  define q where "q = rne (scale_num n k) (scale_den d k)"
  have dk: "0 < real_of_int (scale_den d k)" using scale_pos(1) [OF d] by simp
  have "\<bar>2 * (q * scale_den d k - scale_num n k)\<bar> \<le> scale_den d k"
    unfolding q_def by (rule rne_bounds) (rule scale_pos(1) [OF d])
  then have "real_of_int \<bar>2 * (q * scale_den d k - scale_num n k)\<bar> \<le> real_of_int (scale_den d k)"
    by (simp only: of_int_le_iff)
  then have "\<bar>2 * (real_of_int q * real_of_int (scale_den d k) - real_of_int (scale_num n k))\<bar>
      \<le> real_of_int (scale_den d k)" by simp
  then have "\<bar>real_of_int q - real_of_int (scale_num n k) / real_of_int (scale_den d k)\<bar> \<le> 1 / 2"
    by (rule half_unit [OF dk])
  then have half: "\<bar>real_of_int q - real_of_int n / real_of_int d * 2 powi (- k)\<bar> \<le> 1 / 2"
    by (simp only: scale_ratio [OF d])
  have "\<bar>real_of_int q * 2 powi k - real_of_int n / real_of_int d\<bar>
      = \<bar>real_of_int q - real_of_int n / real_of_int d * 2 powi (- k)\<bar> * \<bar>2 powi k\<bar>"
    by (simp only: abs_mult [symmetric]) (simp add: algebra_simps power_int_minus)
  also have "\<dots> \<le> 1 / 2 * \<bar>2 powi k\<bar>" by (rule mult_right_mono [OF half]) simp
  finally have err: "\<bar>real_of_int q * 2 powi k - real_of_int n / real_of_int d\<bar> \<le> 2 powi k / 2"
    by simp
  from False res have me: "m = (if q = 2 ^ 53 then 2 ^ 52 else q)" "e = (if q = 2 ^ 53 then k + 1 else k)"
    by (auto simp: round_ratio_def k_def [symmetric] q_def [symmetric] Let_def split: if_splits)
  have "real_of_int m * 2 powi e = real_of_int q * 2 powi k"
    by (auto simp: me power_int_add)
  moreover have "(2::real) powi k / 2 \<le> 2 powi e / 2" by (simp add: me)
  ultimately show ?thesis using err by linarith
qed

lemma rne_upper:
  assumes "0 < d" "n \<le> b * d"
  shows "rne n d \<le> b"
proof -
  have "2 * (rne n d * d - n) \<le> d" using rne_bounds [OF assms(1), of n] by simp
  with assms have "rne n d * d < (b + 1) * d" by (simp add: algebra_simps)
  with assms(1) have "rne n d < b + 1" by (simp add: mult_less_cancel_right)
  then show ?thesis by simp
qed

lemma rne_lower:
  assumes "0 < d" "b * d \<le> n"
  shows "b \<le> rne n d"
proof -
  have "2 * (n - rne n d * d) \<le> d" using rne_bounds [OF assms(1), of n] by simp
  with assms have "(b - 1) * d < rne n d * d" by (simp add: algebra_simps)
  with assms(1) have "b - 1 < rne n d" by (simp add: mult_less_cancel_right)
  then show ?thesis by simp
qed

lemma scale_le_real:
  assumes "0 < d" "real_of_int n / real_of_int d \<le> real_of_int b * 2 powi k"
  shows "scale_num n k \<le> b * scale_den d k"
proof -
  have "real_of_int (scale_num n k) / real_of_int (scale_den d k) \<le> real_of_int b * 2 powi k * 2 powi (- k)"
    unfolding scale_ratio [OF assms(1)] using assms(2) by (intro mult_right_mono) simp_all
  then have "real_of_int (scale_num n k) \<le> real_of_int (b * scale_den d k)"
    using scale_pos(1) [OF assms(1), of k] by (simp add: divide_le_eq power_int_minus field_simps)
  then show ?thesis by (simp only: of_int_le_iff)
qed

lemma scale_ge_real:
  assumes "0 < d" "real_of_int b * 2 powi k \<le> real_of_int n / real_of_int d"
  shows "b * scale_den d k \<le> scale_num n k"
proof -
  have "real_of_int b * 2 powi k * 2 powi (- k) \<le> real_of_int (scale_num n k) / real_of_int (scale_den d k)"
    unfolding scale_ratio [OF assms(1)] using assms(2) by (intro mult_right_mono) simp_all
  then have "real_of_int (b * scale_den d k) \<le> real_of_int (scale_num n k)"
    using scale_pos(1) [OF assms(1), of k] by (simp add: le_divide_eq power_int_minus field_simps)
  then show ?thesis by (simp only: of_int_le_iff)
qed

text \<open>Rounding yields a well-formed float.\<close>

lemma round_ratio_wf:
  assumes n: "0 \<le> n" and d: "0 < d"
  shows "f_wf (round_ratio s n d)"
proof (cases "n = 0")
  case True
  then show ?thesis by (simp add: round_ratio_def min_exp_def max_exp_def)
next
  case False
  with n have pos: "0 < n" by simp
  define k where "k = max min_exp (ilog2 n d - 52)"
  define q where "q = rne (scale_num n k) (scale_den d k)"
  note b = ilog2_bounds [OF pos d]
  have "ilog2 n d + 1 \<le> 53 + k" by (simp add: k_def)
  then have "(2::real) powi (ilog2 n d + 1) \<le> 2 powi (53 + k)" by simp
  with b have "real_of_int n / real_of_int d \<le> real_of_int (2 ^ 53) * 2 powi k"
    by (simp add: power_int_add)
  then have upper: "q \<le> 2 ^ 53"
    unfolding q_def by (intro rne_upper scale_le_real) (simp_all add: scale_pos d)
  have lower: "0 \<le> q"
    unfolding q_def by (intro rne_lower) (simp_all add: scale_pos d n)
  have top: "2 ^ 52 \<le> q \<or> k = min_exp"
  proof (cases "k = min_exp")
    case False
    then have "ilog2 n d = 52 + k" by (auto simp: k_def max_def split: if_splits)
    with b have "real_of_int (2 ^ 52) * 2 powi k \<le> real_of_int n / real_of_int d"
      by (simp add: power_int_add)
    then have "2 ^ 52 \<le> q"
      unfolding q_def by (intro rne_lower scale_ge_real) (simp_all add: scale_pos d)
    then show ?thesis ..
  qed simp
  have "min_exp \<le> k" by (simp add: k_def)
  with upper lower top False show ?thesis
    by (auto simp: round_ratio_def Let_def k_def [symmetric] q_def [symmetric])
qed

end
