(* ===== verification/Parse_Float.thy ===== *)
theory Parse_Float
  imports Go_Strings Float64
begin

text \<open>
  Go's \<^verbatim>\<open>strconv.ParseFloat(s, 64)\<close>: the syntax it accepts (decimal and hexadecimal numbers with
  underscores between digits, infinities and NaN in any case), and the nearest float of the exact
  number, an error of kind \<open>NumRange\<close> when that is an infinity.  The scanner follows
  \<^verbatim>\<open>strconv.readFloat\<close>; the 19-digit mantissa of Go's fast path is left out, since its slow path
  makes the result the correctly rounded one, which is what \<^const>\<open>round_ratio\<close> computes.
\<close>

section \<open>Bytes\<close>

definition is_digit :: "char \<Rightarrow> bool" where
  "is_digit c \<longleftrightarrow> 48 \<le> (of_char c :: nat) \<and> (of_char c :: nat) \<le> 57"

definition digit_of :: "char \<Rightarrow> int" where
  "digit_of c = int (of_char c) - 48"

text \<open>\<^verbatim>\<open>lower(c) = c | 0x20\<close>, which \<^verbatim>\<open>strconv\<close> uses to compare letters.\<close>

definition lower_byte :: "char \<Rightarrow> char" where
  "lower_byte c =
     Char (digit0 c) (digit1 c) (digit2 c) (digit3 c) (digit4 c) True (digit6 c) (digit7 c)"

definition is_hex_letter :: "char \<Rightarrow> bool" where
  "is_hex_letter c \<longleftrightarrow> 97 \<le> (of_char (lower_byte c) :: nat) \<and> (of_char (lower_byte c) :: nat) \<le> 102"

definition hex_letter_of :: "char \<Rightarrow> int" where
  "hex_letter_of c = int (of_char (lower_byte c)) - 87"

section \<open>Infinities and NaN\<close>

fun common_prefix_len :: "string \<Rightarrow> string \<Rightarrow> nat" where
  "common_prefix_len (c # s) (p # ps) =
     (if lower_char c = p then Suc (common_prefix_len s ps) else 0)"
| "common_prefix_len _ _ = 0"

text \<open>The part of \<^verbatim>\<open>special\<close> after an optional sign: how many bytes spell an infinity.\<close>

definition infinity_len :: "string \<Rightarrow> nat" where
  "infinity_len s =
     (let n = common_prefix_len s ''infinity''; n' = (if 3 < n \<and> n < 8 then 3 else n)
      in if n' = 3 \<or> n' = 8 then n' else 0)"

definition special :: "string \<Rightarrow> (float64 \<times> nat) option" where
  "special s =
     (case s of
        [] \<Rightarrow> None
      | c # t \<Rightarrow>
          if c = CHR ''+'' \<or> c = CHR ''-'' then
            (if infinity_len t = 0 then None
             else Some (F_Inf (c = CHR ''-''), 1 + infinity_len t))
          else if c = CHR ''i'' \<or> c = CHR ''I'' then
            (if infinity_len s = 0 then None else Some (F_Inf False, infinity_len s))
          else if c = CHR ''n'' \<or> c = CHR ''N'' then
            (if common_prefix_len s ''nan'' = 3 then Some (F_NaN, 3) else None)
          else None)"

section \<open>Underscores\<close>

text \<open>\<open>saw\<close> is the class of the last byte: \<open>^\<close> at the start, \<open>0\<close> a digit, \<open>_\<close>, or \<open>!\<close>.\<close>

fun underscore_loop :: "bool \<Rightarrow> char \<Rightarrow> string \<Rightarrow> bool" where
  "underscore_loop hex saw [] \<longleftrightarrow> saw \<noteq> CHR ''_''"
| "underscore_loop hex saw (c # s) \<longleftrightarrow>
     (if is_digit c \<or> (hex \<and> is_hex_letter c) then underscore_loop hex CHR ''0'' s
      else if c = CHR ''_'' then saw = CHR ''0'' \<and> underscore_loop hex CHR ''_'' s
      else saw \<noteq> CHR ''_'' \<and> underscore_loop hex CHR ''!'' s)"

definition drop_sign :: "string \<Rightarrow> string" where
  "drop_sign s = (case s of [] \<Rightarrow> [] | c # t \<Rightarrow> if c = CHR ''+'' \<or> c = CHR ''-'' then t else s)"

definition underscore_ok :: "string \<Rightarrow> bool" where
  "underscore_ok s =
     (let t = drop_sign s in
      case t of
        z # x # r \<Rightarrow>
          (if z = CHR ''0'' \<and> lower_byte x \<in> {CHR ''b'', CHR ''o'', CHR ''x''}
           then underscore_loop (lower_byte x = CHR ''x'') CHR ''0'' r
           else underscore_loop False CHR ''^'' t)
      | _ \<Rightarrow> underscore_loop False CHR ''^'' t)"

section \<open>The scanner\<close>

record scan =
  underscores :: bool
  sawdot :: bool
  sawdigits :: bool
  nd :: int
  dp :: int
  mantissa :: int

definition scan_init :: scan where
  "scan_init = \<lparr>underscores = False, sawdot = False, sawdigits = False, nd = 0, dp = 0, mantissa = 0\<rparr>"

definition scan_digit :: "int \<Rightarrow> int \<Rightarrow> scan \<Rightarrow> scan" where
  "scan_digit base v st =
     st\<lparr>sawdigits := True, nd := nd st + 1, mantissa := mantissa st * base + v\<rparr>"

fun scan_mantissa :: "bool \<Rightarrow> scan \<Rightarrow> string \<Rightarrow> scan \<times> string" where
  "scan_mantissa hex st [] = (st, [])"
| "scan_mantissa hex st (c # s) =
     (if c = CHR ''_'' then scan_mantissa hex (st\<lparr>underscores := True\<rparr>) s
      else if c = CHR ''.'' then
        (if sawdot st then (st, c # s)
         else scan_mantissa hex (st\<lparr>sawdot := True, dp := nd st\<rparr>) s)
      else if is_digit c then
        (if c = CHR ''0'' \<and> nd st = 0
         then scan_mantissa hex (st\<lparr>sawdigits := True, dp := dp st - 1\<rparr>) s
         else scan_mantissa hex (scan_digit (if hex then 16 else 10) (digit_of c) st) s)
      else if hex \<and> is_hex_letter c then
        scan_mantissa hex (scan_digit 16 (hex_letter_of c) st) s
      else (st, c # s))"

fun scan_exponent :: "bool \<Rightarrow> int \<Rightarrow> string \<Rightarrow> bool \<times> int \<times> string" where
  "scan_exponent us e [] = (us, e, [])"
| "scan_exponent us e (c # s) =
     (if is_digit c then scan_exponent us (if e < 10000 then e * 10 + digit_of c else e) s
      else if c = CHR ''_'' then scan_exponent True e s
      else (us, e, c # s))"

text \<open>
  After the mantissa: an optional exponent, which a hexadecimal number must have.  The result is
  the exponent's value, whether underscores were seen, and the bytes left over.
\<close>

definition read_exponent :: "bool \<Rightarrow> bool \<Rightarrow> string \<Rightarrow> (bool \<times> int \<times> string) option" where
  "read_exponent hex us r =
     (case r of
        [] \<Rightarrow> (if hex then None else Some (us, 0, []))
      | c # t \<Rightarrow>
          if lower_byte c = (if hex then CHR ''p'' else CHR ''e'') then
            (let t' = drop_sign t; neg = (t \<noteq> [] \<and> hd t = CHR ''-'') in
             if t' = [] \<or> \<not> is_digit (hd t') then None
             else (case scan_exponent us 0 t' of
                     (us', e, rest) \<Rightarrow> Some (us', (if neg then - e else e), rest)))
          else if hex then None
          else Some (us, 0, r))"

text \<open>A base prefix counts only when something follows it.\<close>

definition hex_prefixed :: "string \<Rightarrow> bool" where
  "hex_prefixed t \<longleftrightarrow> 2 < length t \<and> t ! 0 = CHR ''0'' \<and> lower_byte (t ! 1) = CHR ''x''"

text \<open>Sign, base, mantissa, exponent of the base (2 for hexadecimal) and the bytes left over.\<close>

definition read_float :: "string \<Rightarrow> (bool \<times> bool \<times> int \<times> int \<times> string) option" where
  "read_float s =
     (let neg = (s \<noteq> [] \<and> hd s = CHR ''-'');
          t = drop_sign s;
          hex = hex_prefixed t;
          (st, r) = scan_mantissa hex scan_init (if hex then drop 2 t else t);
          point = (if sawdot st then dp st else nd st);
          scale = (if hex then 4 else 1)
      in if \<not> sawdigits st then None
         else (case read_exponent hex (underscores st) r of
                 None \<Rightarrow> None
               | Some (us, e, rest) \<Rightarrow>
                   if us \<and> \<not> underscore_ok (take (length s - length rest) s) then None
                   else Some (neg, hex, mantissa st, scale * point + e - scale * nd st, rest)))"

section \<open>ParseFloat\<close>

definition to_float :: "bool \<Rightarrow> bool \<Rightarrow> int \<Rightarrow> int \<Rightarrow> float64" where
  "to_float neg hex m e =
     (let b = (if hex then 2 else 10)
      in if 0 \<le> e then round_ratio neg (m * b ^ nat e) 1 else round_ratio neg m (b ^ nat (- e)))"

fun is_inf :: "float64 \<Rightarrow> bool" where
  "is_inf (F_Inf s) = True"
| "is_inf _ = False"

definition ParseFloat :: "string \<Rightarrow> float64 result" where
  "ParseFloat s =
     (case special s of
        Some (f, n) \<Rightarrow> if n = length s then Inr f else Inl (NumSyntax s)
      | None \<Rightarrow>
          (case read_float s of
             None \<Rightarrow> Inl (NumSyntax s)
           | Some (neg, hex, m, e, rest) \<Rightarrow>
               if rest \<noteq> [] then Inl (NumSyntax s)
               else let f = to_float neg hex m e
                    in if is_inf f then Inl (NumRange s) else Inr f))"

section \<open>Decimal integers\<close>

definition digit_char :: "nat \<Rightarrow> char" where
  "digit_char d = char_of (48 + d)"

fun decimal :: "nat \<Rightarrow> string" where
  "decimal n = (if n < 10 then [digit_char n] else decimal (n div 10) @ [digit_char (n mod 10)])"

declare decimal.simps [simp del]

text \<open>The number that a string of decimal digits denotes.\<close>

definition digits_value :: "string \<Rightarrow> int" where
  "digits_value w = foldl (\<lambda>m c. m * 10 + digit_of c) 0 w"

lemma is_digit_cases:
  assumes "is_digit c"
  shows "c \<in> set ''0123456789''"
proof -
  define n where "n = (of_char c :: nat)"
  have c: "c = char_of n" by (simp add: n_def)
  from assms have "48 \<le> n" "n \<le> 57" by (simp_all add: is_digit_def n_def)
  then have "n = 48 \<or> n = 49 \<or> n = 50 \<or> n = 51 \<or> n = 52 \<or> n = 53 \<or> n = 54 \<or> n = 55 \<or>
      n = 56 \<or> n = 57" by presburger
  then show ?thesis unfolding c by (elim disjE) (simp_all add: char_of_def bit_0)
qed

lemma digit_not_special:
  assumes "is_digit c"
  shows "c \<noteq> CHR ''_''" "c \<noteq> CHR ''.''" "c \<noteq> CHR ''+''" "c \<noteq> CHR ''-''"
    "c \<noteq> CHR ''i''" "c \<noteq> CHR ''I''" "c \<noteq> CHR ''n''" "c \<noteq> CHR ''N''"
    "lower_byte c \<noteq> CHR ''x''" "graphic c"
  using is_digit_cases [OF assms]
  by (auto simp: lower_byte_def graphic_def is_ascii_def ascii_space_def)

lemma digit_of_0 [simp]: "digit_of CHR ''0'' = 0"
  by (simp add: digit_of_def)

lemma digit_of_bounds: "is_digit c \<Longrightarrow> 0 \<le> digit_of c \<and> digit_of c \<le> 9"
  by (simp add: is_digit_def digit_of_def)

text \<open>Scanning digits: the mantissa is their value, leading zeros included.\<close>

lemma scan_digits:
  assumes "list_all is_digit w" and "0 \<le> nd st" and "nd st = 0 \<longrightarrow> mantissa st = 0"
  shows "\<exists>k d. scan_mantissa False st w =
           (st\<lparr>sawdigits := sawdigits st \<or> w \<noteq> [], nd := k, dp := d,
               mantissa := foldl (\<lambda>m c. m * 10 + digit_of c) (mantissa st) w\<rparr>, [])"
  using assms
proof (induction w arbitrary: st)
  case Nil
  show ?case by (rule exI [of _ "nd st"], rule exI [of _ "dp st"]) simp
next
  case (Cons c w)
  from Cons.prems have d: "is_digit c" "list_all is_digit w" by simp_all
  define zero where "zero = (c = CHR ''0'' \<and> nd st = 0)"
  define st' where
    "st' = (if zero then st\<lparr>sawdigits := True, dp := dp st - 1\<rparr> else scan_digit 10 (digit_of c) st)"
  have step: "scan_mantissa False st (c # w) = scan_mantissa False st' w"
    using digit_not_special [OF d(1)] d(1) by (simp add: st'_def zero_def)
  have "0 \<le> nd st'" "nd st' = 0 \<longrightarrow> mantissa st' = 0"
    using Cons.prems by (auto simp: st'_def scan_digit_def)
  from Cons.IH [OF d(2) this] obtain k e where
    ih: "scan_mantissa False st' w = (st'\<lparr>sawdigits := sawdigits st' \<or> w \<noteq> [], nd := k, dp := e,
       mantissa := foldl (\<lambda>m c. m * 10 + digit_of c) (mantissa st') w\<rparr>, [])" by blast
  have "mantissa st' = mantissa st * 10 + digit_of c"
    using Cons.prems by (auto simp: st'_def zero_def scan_digit_def)
  then show ?case
    unfolding step ih
    by (intro exI [of _ k] exI [of _ e]) (simp add: st'_def scan_digit_def)
qed

lemma foldl_digits_nonneg:
  "0 \<le> m \<Longrightarrow> list_all is_digit w \<Longrightarrow> 0 \<le> foldl (\<lambda>m c. m * 10 + digit_of c) m w"
proof (induction w arbitrary: m)
  case (Cons c w)
  then have "0 \<le> m * 10 + digit_of c" using digit_of_bounds [of c] by simp
  with Cons show ?case by simp
qed simp

lemma digits_value_nonneg: "list_all is_digit w \<Longrightarrow> 0 \<le> digits_value w"
  by (simp add: digits_value_def foldl_digits_nonneg)

lemma special_digits:
  assumes "list_all is_digit w"
  shows "special w = None"
proof (cases w)
  case (Cons c t)
  with assms have "is_digit c" by simp
  from digit_not_special [OF this] Cons show ?thesis by (simp add: special_def)
qed (simp add: special_def)

lemma drop_sign_digits:
  assumes "list_all is_digit w"
  shows "drop_sign w = w"
proof (cases w)
  case (Cons c t)
  with assms have "is_digit c" by simp
  from digit_not_special [OF this] Cons show ?thesis by (simp add: drop_sign_def)
qed (simp add: drop_sign_def)

lemma read_float_digits:
  assumes "list_all is_digit w" and "w \<noteq> []"
  shows "read_float w = Some (False, False, digits_value w, 0, [])"
proof -
  have neg: "hd w \<noteq> CHR ''-''"
    using assms digit_not_special(4) [of "hd w"] by (cases w) auto
  have hex: "\<not> hex_prefixed w"
    using assms digit_not_special(9) [of "w ! 1"] by (auto simp: hex_prefixed_def list_all_length)
  obtain k e where scan: "scan_mantissa False scan_init w =
      (scan_init\<lparr>sawdigits := True, nd := k, dp := e, mantissa := digits_value w\<rparr>, [])"
    using scan_digits [OF assms(1), of scan_init] assms(2)
    by (auto simp: scan_init_def digits_value_def)
  show ?thesis
    using neg hex
    by (simp add: read_float_def drop_sign_digits [OF assms(1)] scan Let_def read_exponent_def)
       (simp add: scan_init_def)
qed

text \<open>A string of digits parses to its value, rounded, unless that is out of range.\<close>

theorem ParseFloat_digits:
  assumes "list_all is_digit w" and "w \<noteq> []"
  shows "ParseFloat w =
           (if is_inf (f_of_int (digits_value w)) then Inl (NumRange w)
            else Inr (f_of_int (digits_value w)))"
  using digits_value_nonneg [OF assms(1)]
  by (simp add: ParseFloat_def special_digits [OF assms(1)] read_float_digits [OF assms]
      to_float_def f_of_int_def Let_def)

lemma is_digit_digit_char: "d < 10 \<Longrightarrow> is_digit (digit_char d) \<and> digit_of (digit_char d) = int d"
  by (simp add: is_digit_def digit_of_def digit_char_def of_char_of)

lemma decimal_digits: "list_all is_digit (decimal n) \<and> decimal n \<noteq> []"
proof (induction n rule: decimal.induct)
  case (1 n)
  then show ?case by (subst (1 2) decimal.simps) (auto simp: is_digit_digit_char)
qed

lemma digits_value_decimal: "digits_value (decimal n) = int n"
proof (induction n rule: decimal.induct)
  case (1 n)
  show ?case
  proof (cases "n < 10")
    case True
    then show ?thesis by (subst decimal.simps) (simp add: digits_value_def is_digit_digit_char)
  next
    case False
    then have "digits_value (decimal n) = digits_value (decimal (n div 10)) * 10 + int (n mod 10)"
      by (subst decimal.simps) (simp add: digits_value_def is_digit_digit_char)
    also have "\<dots> = int (n div 10 * 10 + n mod 10)"
      unfolding "1" [OF False] of_nat_add of_nat_mult by simp
    finally show ?thesis by simp
  qed
qed

text \<open>Round trip: parsing the decimal digits of a number yields the number, rounded.\<close>

theorem ParseFloat_decimal:
  assumes "\<not> is_inf (f_of_int (int n))"
  shows "ParseFloat (decimal n) = Inr (f_of_int (int n))"
  using ParseFloat_digits [of "decimal n"] decimal_digits [of n] assms
  by (simp add: digits_value_decimal)

lemma small_not_inf: "\<bar>n\<bar> < 2 ^ 53 \<Longrightarrow> \<not> is_inf (f_of_int n)"
  using f_of_int_exact [of n] by (cases "f_of_int n") auto

lemma ParseFloat_small: "n < 2 ^ 53 \<Longrightarrow> ParseFloat (decimal n) = Inr (f_of_int (int n))"
  by (rule ParseFloat_decimal, rule small_not_inf) simp

lemma token_decimal: "token (decimal n)"
  using decimal_digits [of n] by (auto simp: token_def list_all_iff dest: digit_not_special)

text \<open>What parses is well formed.\<close>

lemma scan_mantissa_nonneg: "0 \<le> mantissa st \<Longrightarrow> scan_mantissa hex st s = (st', r) \<Longrightarrow> 0 \<le> mantissa st'"
proof (induction hex st s rule: scan_mantissa.induct)
  case (2 hex st c s)
  have "0 \<le> mantissa (scan_digit b v st)" if "0 \<le> v" "0 \<le> b" for v b
    using "2.prems"(1) that by (simp add: scan_digit_def)
  then show ?case
    using 2 by (auto simp: digit_of_bounds is_hex_letter_def hex_letter_of_def split: if_splits)
qed simp

lemma read_float_nonneg: "read_float s = Some (neg, hex, m, e, rest) \<Longrightarrow> 0 \<le> m"
  using scan_mantissa_nonneg [of scan_init]
  by (auto simp: read_float_def Let_def scan_init_def split: prod.splits if_splits option.splits)

lemma to_float_wf: "0 \<le> m \<Longrightarrow> f_wf (to_float neg hex m e)"
  by (auto simp: to_float_def Let_def intro!: round_ratio_wf)

theorem ParseFloat_wf:
  assumes "ParseFloat s = Inr f"
  shows "f_wf f"
proof (cases "special s")
  case None
  with assms obtain neg hex m e where "read_float s = Some (neg, hex, m, e, [])" "f = to_float neg hex m e"
    by (auto simp: ParseFloat_def Let_def split: option.splits if_splits)
  then show ?thesis by (auto intro!: to_float_wf dest: read_float_nonneg)
next
  case (Some fn)
  with assms show ?thesis
    by (cases fn) (auto simp: ParseFloat_def special_def split: if_splits list.splits)
qed

end
