(* ===== verification/Observation.thy ===== *)
theory Observation
  imports Parse_Float
begin

text \<open>
  \<^verbatim>\<open>internal/parser/observation.go\<close>: what a parser produces.  A Go map of labels is a partial
  function; a nil map is the empty one.  Observations of one line share their label map in the code;
  no code writes to a map after the observation that holds it is built, so sharing is not visible.
\<close>

datatype metric_type = Gauge | Counter | Untyped

record observation =
  Collector :: string
  Source :: string
  MetricID :: string
  MetricType :: metric_type
  Labels :: "string \<rightharpoonup> string"
  Value :: float64

text \<open>The \<open>Observation\<close> literal of the code.\<close>

definition obs :: "string \<Rightarrow> string \<Rightarrow> string \<Rightarrow> metric_type \<Rightarrow> (string \<rightharpoonup> string) \<Rightarrow> float64 \<Rightarrow> observation" where
  "obs col src mid mt ls v =
     \<lparr>Collector = col, Source = src, MetricID = mid, MetricType = mt, Labels = ls, Value = v\<rparr>"

lemma obs_sel [simp]:
  "Collector (obs col src mid mt ls v) = col" "Source (obs col src mid mt ls v) = src"
  "MetricID (obs col src mid mt ls v) = mid" "MetricType (obs col src mid mt ls v) = mt"
  "Labels (obs col src mid mt ls v) = ls" "Value (obs col src mid mt ls v) = v"
  by (simp_all add: obs_def)

end
