(* ===== verification/Contract.thy ===== *)
theory Contract
  imports Observation
begin

text \<open>
  \<^verbatim>\<open>internal/mapper/contract.go\<close>: the public metric contract.  Each entry of the code's map literal
  is a definition \<open>m_<metric ID>\<close>, each section of the literal a list of entries in its order, and
  \<open>Registry\<close> the map of all of them.  An entry without \<open>LabelKeys\<close> has the nil slice.
  \<open>conforms\<close> says what the mapper needs of an observation: a registered metric ID and exactly the
  labels of its definition.
\<close>

record metric_def =
  Name :: string
  Help :: string
  Type :: metric_type
  LabelKeys :: "string list"

definition mk_def :: "string \<Rightarrow> string \<Rightarrow> metric_type \<Rightarrow> string list \<Rightarrow> metric_def" where
  "mk_def n h t ks = \<lparr>Name = n, Help = h, Type = t, LabelKeys = ks\<rparr>"

lemma mk_def_sel [simp]:
  "Name (mk_def n h t ks) = n" "Help (mk_def n h t ks) = h"
  "Type (mk_def n h t ks) = t" "LabelKeys (mk_def n h t ks) = ks"
  by (simp_all add: mk_def_def)

section \<open>The entries\<close>

subsection \<open>Health\<close>

definition m_health_check :: metric_def where
  "m_health_check =
     mk_def ''lustre_health_check''
       ''Lustre filesystem health status (1 = healthy, 0 = unhealthy).''
       Gauge [''component'', ''target'']"

definition registry_health :: "(string \<times> metric_def) list" where
  "registry_health =
     [(''health_check'', m_health_check)]"

subsection \<open>SPTLRPC encrypt_page_pools\<close>

definition m_physical_pages :: metric_def where
  "m_physical_pages =
     mk_def ''lustre_physical_pages''
       ''Total physical pages available for encryption page pools.''
       Gauge []"

definition m_pages_per_pool :: metric_def where
  "m_pages_per_pool =
     mk_def ''lustre_pages_per_pool''
       ''Number of pages allocated per encryption pool.''
       Gauge []"

definition m_maximum_pages :: metric_def where
  "m_maximum_pages =
     mk_def ''lustre_maximum_pages''
       ''Maximum number of pages allowed in encryption pools.''
       Gauge []"

definition m_maximum_pools :: metric_def where
  "m_maximum_pools =
     mk_def ''lustre_maximum_pools''
       ''Maximum number of encryption page pools.''
       Gauge []"

definition m_pages_in_pools :: metric_def where
  "m_pages_in_pools =
     mk_def ''lustre_pages_in_pools''
       ''Current number of pages in encryption pools.''
       Gauge []"

definition m_free_pages :: metric_def where
  "m_free_pages =
     mk_def ''lustre_free_pages''
       ''Number of free pages in encryption pools.''
       Gauge []"

definition m_maximum_pages_reached_total :: metric_def where
  "m_maximum_pages_reached_total =
     mk_def ''lustre_maximum_pages_reached_total''
       ''Number of times the encryption pool page limit was reached.''
       Counter []"

definition m_grows_total :: metric_def where
  "m_grows_total =
     mk_def ''lustre_grows_total''
       ''Number of times encryption page pools have grown.''
       Counter []"

definition m_grows_failure_total :: metric_def where
  "m_grows_failure_total =
     mk_def ''lustre_grows_failure_total''
       ''Number of times encryption page pool growth has failed.''
       Counter []"

definition m_shrinks_total :: metric_def where
  "m_shrinks_total =
     mk_def ''lustre_shrinks_total''
       ''Number of times encryption page pools have shrunk.''
       Counter []"

definition m_cache_access_total :: metric_def where
  "m_cache_access_total =
     mk_def ''lustre_cache_access_total''
       ''Total number of encryption page pool cache accesses.''
       Counter []"

definition m_cache_miss_total :: metric_def where
  "m_cache_miss_total =
     mk_def ''lustre_cache_miss_total''
       ''Total number of encryption page pool cache misses.''
       Counter []"

definition m_free_page_low :: metric_def where
  "m_free_page_low =
     mk_def ''lustre_free_page_low''
       ''Low watermark for free pages in encryption pools.''
       Gauge []"

definition m_maximum_waitqueue_depth :: metric_def where
  "m_maximum_waitqueue_depth =
     mk_def ''lustre_maximum_waitqueue_depth''
       ''Maximum depth of the encryption pool wait queue.''
       Gauge []"

definition m_out_of_memory_request_total :: metric_def where
  "m_out_of_memory_request_total =
     mk_def ''lustre_out_of_memory_request_total''
       ''Number of out-of-memory conditions in encryption page pools.''
       Counter []"

definition registry_sptlrpc :: "(string \<times> metric_def) list" where
  "registry_sptlrpc =
     [(''physical_pages'', m_physical_pages),
      (''pages_per_pool'', m_pages_per_pool),
      (''maximum_pages'', m_maximum_pages),
      (''maximum_pools'', m_maximum_pools),
      (''pages_in_pools'', m_pages_in_pools),
      (''free_pages'', m_free_pages),
      (''maximum_pages_reached_total'', m_maximum_pages_reached_total),
      (''grows_total'', m_grows_total),
      (''grows_failure_total'', m_grows_failure_total),
      (''shrinks_total'', m_shrinks_total),
      (''cache_access_total'', m_cache_access_total),
      (''cache_miss_total'', m_cache_miss_total),
      (''free_page_low'', m_free_page_low),
      (''maximum_waitqueue_depth'', m_maximum_waitqueue_depth),
      (''out_of_memory_request_total'', m_out_of_memory_request_total)]"

subsection \<open>LNet stats\<close>

definition m_allocated :: metric_def where
  "m_allocated =
     mk_def ''lustre_allocated''
       ''Current number of LNet messages allocated.''
       Gauge [''component'', ''target'']"

definition m_maximum :: metric_def where
  "m_maximum =
     mk_def ''lustre_maximum''
       ''Maximum number of LNet messages ever allocated.''
       Gauge [''component'', ''target'']"

definition m_errors_total :: metric_def where
  "m_errors_total =
     mk_def ''lustre_errors_total''
       ''Total number of LNet errors.''
       Counter [''component'', ''target'']"

definition m_send_count_total :: metric_def where
  "m_send_count_total =
     mk_def ''lustre_send_count_total''
       ''Total number of LNet messages sent.''
       Counter [''component'', ''target'']"

definition m_receive_count_total :: metric_def where
  "m_receive_count_total =
     mk_def ''lustre_receive_count_total''
       ''Total number of LNet messages received.''
       Counter [''component'', ''target'']"

definition m_route_count_total :: metric_def where
  "m_route_count_total =
     mk_def ''lustre_route_count_total''
       ''Total number of LNet messages routed.''
       Counter [''component'', ''target'']"

definition m_drop_count_total :: metric_def where
  "m_drop_count_total =
     mk_def ''lustre_drop_count_total''
       ''Total number of LNet messages dropped.''
       Counter [''component'', ''target'']"

definition m_send_count_by_nid_total :: metric_def where
  "m_send_count_by_nid_total =
     mk_def ''lustre_send_count_total''
       ''Total number of LNet messages sent.''
       Counter [''component'', ''target'', ''nid'']"

definition m_receive_count_by_nid_total :: metric_def where
  "m_receive_count_by_nid_total =
     mk_def ''lustre_receive_count_total''
       ''Total number of LNet messages received.''
       Counter [''component'', ''target'', ''nid'']"

definition m_drop_count_by_nid_total :: metric_def where
  "m_drop_count_by_nid_total =
     mk_def ''lustre_drop_count_total''
       ''Total number of LNet messages dropped.''
       Counter [''component'', ''target'', ''nid'']"

definition m_send_bytes_total :: metric_def where
  "m_send_bytes_total =
     mk_def ''lustre_send_bytes_total''
       ''Total bytes sent via LNet.''
       Counter [''component'', ''target'']"

definition m_receive_bytes_total :: metric_def where
  "m_receive_bytes_total =
     mk_def ''lustre_receive_bytes_total''
       ''Total bytes received via LNet.''
       Counter [''component'', ''target'']"

definition m_route_bytes_total :: metric_def where
  "m_route_bytes_total =
     mk_def ''lustre_route_bytes_total''
       ''Total bytes routed via LNet.''
       Counter [''component'', ''target'']"

definition m_drop_bytes_total :: metric_def where
  "m_drop_bytes_total =
     mk_def ''lustre_drop_bytes_total''
       ''Total bytes dropped by LNet.''
       Counter [''component'', ''target'']"

definition registry_lnet_stats :: "(string \<times> metric_def) list" where
  "registry_lnet_stats =
     [(''allocated'', m_allocated),
      (''maximum'', m_maximum),
      (''errors_total'', m_errors_total),
      (''send_count_total'', m_send_count_total),
      (''receive_count_total'', m_receive_count_total),
      (''route_count_total'', m_route_count_total),
      (''drop_count_total'', m_drop_count_total),
      (''send_count_by_nid_total'', m_send_count_by_nid_total),
      (''receive_count_by_nid_total'', m_receive_count_by_nid_total),
      (''drop_count_by_nid_total'', m_drop_count_by_nid_total),
      (''send_bytes_total'', m_send_bytes_total),
      (''receive_bytes_total'', m_receive_bytes_total),
      (''route_bytes_total'', m_route_bytes_total),
      (''drop_bytes_total'', m_drop_bytes_total)]"

subsection \<open>LNet params\<close>

definition m_console_backoff_enabled :: metric_def where
  "m_console_backoff_enabled =
     mk_def ''lustre_console_backoff_enabled''
       ''Whether LNet console message backoff is enabled.''
       Gauge [''component'', ''target'']"

definition m_console_max_delay_centiseconds :: metric_def where
  "m_console_max_delay_centiseconds =
     mk_def ''lustre_console_max_delay_centiseconds''
       ''Maximum delay between repeated LNet console messages in centiseconds.''
       Gauge [''component'', ''target'']"

definition m_console_min_delay_centiseconds :: metric_def where
  "m_console_min_delay_centiseconds =
     mk_def ''lustre_console_min_delay_centiseconds''
       ''Minimum delay between repeated LNet console messages in centiseconds.''
       Gauge [''component'', ''target'']"

definition m_console_ratelimit_enabled :: metric_def where
  "m_console_ratelimit_enabled =
     mk_def ''lustre_console_ratelimit_enabled''
       ''Whether LNet console message rate limiting is enabled.''
       Gauge [''component'', ''target'']"

definition m_debug_megabytes :: metric_def where
  "m_debug_megabytes =
     mk_def ''lustre_debug_megabytes''
       ''Size of the LNet debug buffer in megabytes.''
       Gauge [''component'', ''target'']"

definition m_panic_on_lbug_enabled :: metric_def where
  "m_panic_on_lbug_enabled =
     mk_def ''lustre_panic_on_lbug_enabled''
       ''Whether kernel panic on LBUG is enabled.''
       Gauge [''component'', ''target'']"

definition m_watchdog_ratelimit_enabled :: metric_def where
  "m_watchdog_ratelimit_enabled =
     mk_def ''lustre_watchdog_ratelimit_enabled''
       ''Whether LNet watchdog rate limiting is enabled.''
       Gauge [''component'', ''target'']"

definition m_catastrophe_enabled :: metric_def where
  "m_catastrophe_enabled =
     mk_def ''lustre_catastrophe_enabled''
       ''Whether a catastrophic LNet error has occurred.''
       Gauge [''component'', ''target'']"

definition m_lnet_memory_used_bytes :: metric_def where
  "m_lnet_memory_used_bytes =
     mk_def ''lustre_lnet_memory_used_bytes''
       ''Current LNet memory usage in bytes.''
       Gauge [''component'', ''target'']"

definition m_fail_error_total :: metric_def where
  "m_fail_error_total =
     mk_def ''lustre_fail_error_total''
       ''Total number of LNet fail errors.''
       Counter [''component'', ''target'']"

definition m_fail_maximum :: metric_def where
  "m_fail_maximum =
     mk_def ''lustre_fail_maximum''
       ''Maximum LNet fail value.''
       Gauge [''component'', ''target'']"

definition registry_lnet_params :: "(string \<times> metric_def) list" where
  "registry_lnet_params =
     [(''console_backoff_enabled'', m_console_backoff_enabled),
      (''console_max_delay_centiseconds'', m_console_max_delay_centiseconds),
      (''console_min_delay_centiseconds'', m_console_min_delay_centiseconds),
      (''console_ratelimit_enabled'', m_console_ratelimit_enabled),
      (''debug_megabytes'', m_debug_megabytes),
      (''panic_on_lbug_enabled'', m_panic_on_lbug_enabled),
      (''watchdog_ratelimit_enabled'', m_watchdog_ratelimit_enabled),
      (''catastrophe_enabled'', m_catastrophe_enabled),
      (''lnet_memory_used_bytes'', m_lnet_memory_used_bytes),
      (''fail_error_total'', m_fail_error_total),
      (''fail_maximum'', m_fail_maximum)]"

subsection \<open>LNet local NI health (lnetctl net show -v 3)\<close>

definition m_lnet_ni_up :: metric_def where
  "m_lnet_ni_up =
     mk_def ''lustre_lnet_ni_up''
       ''Whether an LNet local network interface is up (1 = up, 0 = down).''
       Gauge [''component'', ''target'', ''nid'']"

definition m_lnet_ni_health :: metric_def where
  "m_lnet_ni_health =
     mk_def ''lustre_lnet_ni_health''
       ''LNet local network interface health value (maximum 1000).''
       Gauge [''component'', ''target'', ''nid'']"

definition m_lnet_ni_health_interrupts_total :: metric_def where
  "m_lnet_ni_health_interrupts_total =
     mk_def ''lustre_lnet_ni_health_interrupts_total''
       ''Total number of LNet local NI health interrupts.''
       Counter [''component'', ''target'', ''nid'']"

definition m_lnet_ni_health_dropped_total :: metric_def where
  "m_lnet_ni_health_dropped_total =
     mk_def ''lustre_lnet_ni_health_dropped_total''
       ''Total number of LNet local NI health drops.''
       Counter [''component'', ''target'', ''nid'']"

definition m_lnet_ni_health_aborted_total :: metric_def where
  "m_lnet_ni_health_aborted_total =
     mk_def ''lustre_lnet_ni_health_aborted_total''
       ''Total number of LNet local NI health aborted operations.''
       Counter [''component'', ''target'', ''nid'']"

definition m_lnet_ni_health_no_route_total :: metric_def where
  "m_lnet_ni_health_no_route_total =
     mk_def ''lustre_lnet_ni_health_no_route_total''
       ''Total number of LNet local NI health no-route events.''
       Counter [''component'', ''target'', ''nid'']"

definition m_lnet_ni_health_timeouts_total :: metric_def where
  "m_lnet_ni_health_timeouts_total =
     mk_def ''lustre_lnet_ni_health_timeouts_total''
       ''Total number of LNet local NI health timeouts.''
       Counter [''component'', ''target'', ''nid'']"

definition m_lnet_ni_health_errors_total :: metric_def where
  "m_lnet_ni_health_errors_total =
     mk_def ''lustre_lnet_ni_health_errors_total''
       ''Total number of LNet local NI health errors.''
       Counter [''component'', ''target'', ''nid'']"

definition registry_lnet_ni :: "(string \<times> metric_def) list" where
  "registry_lnet_ni =
     [(''lnet_ni_up'', m_lnet_ni_up),
      (''lnet_ni_health'', m_lnet_ni_health),
      (''lnet_ni_health_interrupts_total'', m_lnet_ni_health_interrupts_total),
      (''lnet_ni_health_dropped_total'', m_lnet_ni_health_dropped_total),
      (''lnet_ni_health_aborted_total'', m_lnet_ni_health_aborted_total),
      (''lnet_ni_health_no_route_total'', m_lnet_ni_health_no_route_total),
      (''lnet_ni_health_timeouts_total'', m_lnet_ni_health_timeouts_total),
      (''lnet_ni_health_errors_total'', m_lnet_ni_health_errors_total)]"

subsection \<open>Client core metrics (llite)\<close>

definition m_blocksize_bytes :: metric_def where
  "m_blocksize_bytes =
     mk_def ''lustre_blocksize_bytes''
       ''Lustre filesystem block size in bytes.''
       Gauge [''component'', ''target'']"

definition m_inodes_free :: metric_def where
  "m_inodes_free =
     mk_def ''lustre_inodes_free''
       ''Number of free inodes on the Lustre filesystem.''
       Gauge [''component'', ''target'']"

definition m_inodes_maximum :: metric_def where
  "m_inodes_maximum =
     mk_def ''lustre_inodes_maximum''
       ''Maximum number of inodes on the Lustre filesystem.''
       Gauge [''component'', ''target'']"

definition m_available_kibibytes :: metric_def where
  "m_available_kibibytes =
     mk_def ''lustre_available_kibibytes''
       ''Available capacity of the Lustre filesystem in kibibytes.''
       Gauge [''component'', ''target'']"

definition m_free_kibibytes :: metric_def where
  "m_free_kibibytes =
     mk_def ''lustre_free_kibibytes''
       ''Free capacity of the Lustre filesystem in kibibytes.''
       Gauge [''component'', ''target'']"

definition m_capacity_kibibytes :: metric_def where
  "m_capacity_kibibytes =
     mk_def ''lustre_capacity_kibibytes''
       ''Total capacity of the Lustre filesystem in kibibytes.''
       Gauge [''component'', ''target'']"

definition m_read_samples_total :: metric_def where
  "m_read_samples_total =
     mk_def ''lustre_read_samples_total''
       ''Total number of read operations completed.''
       Counter [''component'', ''target'']"

definition m_read_minimum_size_bytes :: metric_def where
  "m_read_minimum_size_bytes =
     mk_def ''lustre_read_minimum_size_bytes''
       ''Minimum read size in bytes.''
       Gauge [''component'', ''target'']"

definition m_read_maximum_size_bytes :: metric_def where
  "m_read_maximum_size_bytes =
     mk_def ''lustre_read_maximum_size_bytes''
       ''Maximum read size in bytes.''
       Gauge [''component'', ''target'']"

definition m_read_bytes_total :: metric_def where
  "m_read_bytes_total =
     mk_def ''lustre_read_bytes_total''
       ''Total bytes read from the Lustre filesystem.''
       Counter [''component'', ''target'']"

definition m_write_samples_total :: metric_def where
  "m_write_samples_total =
     mk_def ''lustre_write_samples_total''
       ''Total number of write operations completed.''
       Counter [''component'', ''target'']"

definition m_write_minimum_size_bytes :: metric_def where
  "m_write_minimum_size_bytes =
     mk_def ''lustre_write_minimum_size_bytes''
       ''Minimum write size in bytes.''
       Gauge [''component'', ''target'']"

definition m_write_maximum_size_bytes :: metric_def where
  "m_write_maximum_size_bytes =
     mk_def ''lustre_write_maximum_size_bytes''
       ''Maximum write size in bytes.''
       Gauge [''component'', ''target'']"

definition m_write_bytes_total :: metric_def where
  "m_write_bytes_total =
     mk_def ''lustre_write_bytes_total''
       ''Total bytes written to the Lustre filesystem.''
       Counter [''component'', ''target'']"

definition m_stats_total :: metric_def where
  "m_stats_total =
     mk_def ''lustre_stats_total''
       ''Total count of Lustre operations by type.''
       Counter [''component'', ''target'', ''operation'']"

definition m_stats_seconds_sum :: metric_def where
  "m_stats_seconds_sum =
     mk_def ''lustre_stats_seconds_sum''
       ''Sum of Lustre client stats values whose source unit is a time unit, converted to seconds.''
       Counter [''component'', ''target'', ''type'', ''operation'']"

definition m_ldlm_cbd_stats :: metric_def where
  "m_ldlm_cbd_stats =
     mk_def ''lustre_ldlm_cbd_stats''
       ''Gives information about LDLM Callback service.''
       Counter [''operation'']"

definition registry_client_core :: "(string \<times> metric_def) list" where
  "registry_client_core =
     [(''blocksize_bytes'', m_blocksize_bytes),
      (''inodes_free'', m_inodes_free),
      (''inodes_maximum'', m_inodes_maximum),
      (''available_kibibytes'', m_available_kibibytes),
      (''free_kibibytes'', m_free_kibibytes),
      (''capacity_kibibytes'', m_capacity_kibibytes),
      (''read_samples_total'', m_read_samples_total),
      (''read_minimum_size_bytes'', m_read_minimum_size_bytes),
      (''read_maximum_size_bytes'', m_read_maximum_size_bytes),
      (''read_bytes_total'', m_read_bytes_total),
      (''write_samples_total'', m_write_samples_total),
      (''write_minimum_size_bytes'', m_write_minimum_size_bytes),
      (''write_maximum_size_bytes'', m_write_maximum_size_bytes),
      (''write_bytes_total'', m_write_bytes_total),
      (''stats_total'', m_stats_total),
      (''stats_seconds_sum'', m_stats_seconds_sum),
      (''ldlm_cbd_stats'', m_ldlm_cbd_stats)]"

subsection \<open>Client tunable metrics\<close>

definition m_checksum_pages_enabled :: metric_def where
  "m_checksum_pages_enabled =
     mk_def ''lustre_checksum_pages_enabled''
       ''Whether checksum verification of data pages is enabled.''
       Gauge [''component'', ''target'']"

definition m_default_ea_size_bytes :: metric_def where
  "m_default_ea_size_bytes =
     mk_def ''lustre_default_ea_size_bytes''
       ''Default extended attribute size in bytes.''
       Gauge [''component'', ''target'']"

definition m_lazystatfs_enabled :: metric_def where
  "m_lazystatfs_enabled =
     mk_def ''lustre_lazystatfs_enabled''
       ''Whether lazy statfs is enabled.''
       Gauge [''component'', ''target'']"

definition m_maximum_ea_size_bytes :: metric_def where
  "m_maximum_ea_size_bytes =
     mk_def ''lustre_maximum_ea_size_bytes''
       ''Maximum extended attribute size in bytes.''
       Gauge [''component'', ''target'']"

definition m_maximum_read_ahead_megabytes :: metric_def where
  "m_maximum_read_ahead_megabytes =
     mk_def ''lustre_maximum_read_ahead_megabytes''
       ''Maximum read-ahead size in megabytes.''
       Gauge [''component'', ''target'']"

definition m_maximum_read_ahead_per_file_megabytes :: metric_def where
  "m_maximum_read_ahead_per_file_megabytes =
     mk_def ''lustre_maximum_read_ahead_per_file_megabytes''
       ''Maximum read-ahead size per file in megabytes.''
       Gauge [''component'', ''target'']"

definition m_maximum_read_ahead_whole_megabytes :: metric_def where
  "m_maximum_read_ahead_whole_megabytes =
     mk_def ''lustre_maximum_read_ahead_whole_megabytes''
       ''Maximum whole-file read-ahead size in megabytes.''
       Gauge [''component'', ''target'']"

definition m_statahead_agl_enabled :: metric_def where
  "m_statahead_agl_enabled =
     mk_def ''lustre_statahead_agl_enabled''
       ''Whether asynchronous glimpse lock statahead is enabled.''
       Gauge [''component'', ''target'']"

definition m_statahead_maximum :: metric_def where
  "m_statahead_maximum =
     mk_def ''lustre_statahead_maximum''
       ''Maximum number of statahead requests.''
       Gauge [''component'', ''target'']"

definition m_xattr_cache_enabled :: metric_def where
  "m_xattr_cache_enabled =
     mk_def ''lustre_xattr_cache_enabled''
       ''Whether extended attribute caching is enabled.''
       Gauge [''component'', ''target'']"

definition registry_client_tunables :: "(string \<times> metric_def) list" where
  "registry_client_tunables =
     [(''checksum_pages_enabled'', m_checksum_pages_enabled),
      (''default_ea_size_bytes'', m_default_ea_size_bytes),
      (''lazystatfs_enabled'', m_lazystatfs_enabled),
      (''maximum_ea_size_bytes'', m_maximum_ea_size_bytes),
      (''maximum_read_ahead_megabytes'', m_maximum_read_ahead_megabytes),
      (''maximum_read_ahead_per_file_megabytes'', m_maximum_read_ahead_per_file_megabytes),
      (''maximum_read_ahead_whole_megabytes'', m_maximum_read_ahead_whole_megabytes),
      (''statahead_agl_enabled'', m_statahead_agl_enabled),
      (''statahead_maximum'', m_statahead_maximum),
      (''xattr_cache_enabled'', m_xattr_cache_enabled)]"

subsection \<open>RPC stats (mdc/osc)\<close>

definition m_pages_per_rpc_total :: metric_def where
  "m_pages_per_rpc_total =
     mk_def ''lustre_pages_per_rpc_total''
       ''Total pages per RPC by size bucket.''
       Counter [''component'', ''target'', ''operation'', ''size'']"

definition m_rpcs_in_flight :: metric_def where
  "m_rpcs_in_flight =
     mk_def ''lustre_rpcs_in_flight''
       ''RPCs in flight by bucket.''
       Counter [''component'', ''target'', ''operation'', ''size'', ''type'']"

definition m_rpcs_offset :: metric_def where
  "m_rpcs_offset =
     mk_def ''lustre_rpcs_offset''
       ''RPC offset distribution by bucket.''
       Counter [''component'', ''target'', ''operation'', ''size'']"

definition m_rpcs_current :: metric_def where
  "m_rpcs_current =
     mk_def ''lustre_rpcs_current''
       ''Number of RPCs currently in flight on a Lustre client import.''
       Gauge [''component'', ''target'', ''type'', ''operation'']"

definition m_pending_pages :: metric_def where
  "m_pending_pages =
     mk_def ''lustre_pending_pages''
       ''Number of pages waiting to be sent on a Lustre client import.''
       Gauge [''component'', ''target'', ''type'', ''operation'']"

definition registry_rpc :: "(string \<times> metric_def) list" where
  "registry_rpc =
     [(''pages_per_rpc_total'', m_pages_per_rpc_total),
      (''rpcs_in_flight'', m_rpcs_in_flight),
      (''rpcs_offset'', m_rpcs_offset),
      (''rpcs_current'', m_rpcs_current),
      (''pending_pages'', m_pending_pages)]"

subsection \<open>OSC / MDC single-value files\<close>

definition m_osc_dirty_bytes :: metric_def where
  "m_osc_dirty_bytes =
     mk_def ''lustre_osc_dirty_bytes''
       ''Current dirty bytes cached on a Lustre OSC.''
       Gauge [''component'', ''target'']"

definition m_osc_max_dirty_bytes :: metric_def where
  "m_osc_max_dirty_bytes =
     mk_def ''lustre_osc_max_dirty_bytes''
       ''Maximum dirty bytes allowed on a Lustre OSC.''
       Gauge [''component'', ''target'']"

definition m_max_pages_per_rpc :: metric_def where
  "m_max_pages_per_rpc =
     mk_def ''lustre_max_pages_per_rpc''
       ''Maximum pages allowed per RPC on a Lustre client import.''
       Gauge [''component'', ''target'', ''type'']"

definition m_max_rpcs_in_flight :: metric_def where
  "m_max_rpcs_in_flight =
     mk_def ''lustre_max_rpcs_in_flight''
       ''Maximum RPCs allowed in flight on a Lustre client import.''
       Gauge [''component'', ''target'', ''type'']"

definition m_max_mod_rpcs_in_flight :: metric_def where
  "m_max_mod_rpcs_in_flight =
     mk_def ''lustre_max_mod_rpcs_in_flight''
       ''Maximum modify RPCs allowed in flight on a Lustre MDC import.''
       Gauge [''component'', ''target'', ''type'']"

definition m_target_active :: metric_def where
  "m_target_active =
     mk_def ''lustre_target_active''
       ''Whether a Lustre client import is active (1 = active, 0 = inactive).''
       Gauge [''component'', ''target'', ''type'']"

definition m_target_state :: metric_def where
  "m_target_state =
     mk_def ''lustre_target_state''
       ''Current Lustre client import state. The series for the observed state is 1.''
       Gauge [''component'', ''target'', ''type'', ''state'']"

definition registry_osc_mdc :: "(string \<times> metric_def) list" where
  "registry_osc_mdc =
     [(''osc_dirty_bytes'', m_osc_dirty_bytes),
      (''osc_max_dirty_bytes'', m_osc_max_dirty_bytes),
      (''max_pages_per_rpc'', m_max_pages_per_rpc),
      (''max_rpcs_in_flight'', m_max_rpcs_in_flight),
      (''max_mod_rpcs_in_flight'', m_max_mod_rpcs_in_flight),
      (''target_active'', m_target_active),
      (''target_state'', m_target_state)]"

subsection \<open>LPCC (Lustre PCC) per-cache metrics\<close>

definition m_pcc_status :: metric_def where
  "m_pcc_status =
     mk_def ''lustre_pcc_status''
       ''PCC cache status (1 = running, 0 = not running).''
       Gauge [''mount'', ''cache'']"

definition m_pcc_purge_status :: metric_def where
  "m_pcc_purge_status =
     mk_def ''lustre_pcc_purge_status''
       ''PCC purge process status (1 = running, 0 = not running).''
       Gauge [''mount'', ''cache'']"

definition m_pcc_cache_usage_ratio :: metric_def where
  "m_pcc_cache_usage_ratio =
     mk_def ''lustre_pcc_cache_usage_ratio''
       (''Current PCC cache usage as a ratio (0.0'' @ [CHR 0xE2, CHR 0x80, CHR 0x93] @ ''1.0).'')
       Gauge [''mount'', ''cache'']"

definition m_pcc_purge_high_usage_ratio :: metric_def where
  "m_pcc_purge_high_usage_ratio =
     mk_def ''lustre_pcc_purge_high_usage_ratio''
       (''High watermark for purge trigger as a ratio (0.0'' @ [CHR 0xE2, CHR 0x80, CHR 0x93] @ ''1.0).'')
       Gauge [''mount'', ''cache'']"

definition m_pcc_purge_low_usage_ratio :: metric_def where
  "m_pcc_purge_low_usage_ratio =
     mk_def ''lustre_pcc_purge_low_usage_ratio''
       (''Low watermark for purge stop as a ratio (0.0'' @ [CHR 0xE2, CHR 0x80, CHR 0x93] @ ''1.0).'')
       Gauge [''mount'', ''cache'']"

definition m_pcc_purge_interval_seconds :: metric_def where
  "m_pcc_purge_interval_seconds =
     mk_def ''lustre_pcc_purge_interval_seconds''
       ''Purge scan interval in seconds.''
       Gauge [''mount'', ''cache'']"

definition m_pcc_purge_scan_threads :: metric_def where
  "m_pcc_purge_scan_threads =
     mk_def ''lustre_pcc_purge_scan_threads''
       ''Number of purge scan threads.''
       Gauge [''mount'', ''cache'']"

definition m_pcc_purge_scan_times_total :: metric_def where
  "m_pcc_purge_scan_times_total =
     mk_def ''lustre_pcc_purge_scan_times_total''
       ''Total number of purge scans performed.''
       Counter [''mount'', ''cache'']"

definition m_pcc_purge_total_purged_objs_total :: metric_def where
  "m_pcc_purge_total_purged_objs_total =
     mk_def ''lustre_pcc_purge_total_purged_objs_total''
       ''Total number of objects purged from PCC cache.''
       Counter [''mount'', ''cache'']"

definition m_pcc_purge_total_failed_objs_total :: metric_def where
  "m_pcc_purge_total_failed_objs_total =
     mk_def ''lustre_pcc_purge_total_failed_objs_total''
       ''Total number of objects that failed to purge.''
       Counter [''mount'', ''cache'']"

definition m_pcc_purge_scanned_objs :: metric_def where
  "m_pcc_purge_scanned_objs =
     mk_def ''lustre_pcc_purge_scanned_objs''
       ''Number of objects scanned in the last purge cycle.''
       Gauge [''mount'', ''cache'']"

definition m_pcc_purge_purged_objs :: metric_def where
  "m_pcc_purge_purged_objs =
     mk_def ''lustre_pcc_purge_purged_objs''
       ''Number of objects purged in the last purge cycle.''
       Gauge [''mount'', ''cache'']"

definition m_pcc_cached_files :: metric_def where
  "m_pcc_cached_files =
     mk_def ''lustre_pcc_cached_files''
       ''Number of files currently cached in PCC.''
       Gauge [''mount'', ''cache'']"

definition m_pcc_cached_bytes :: metric_def where
  "m_pcc_cached_bytes =
     mk_def ''lustre_pcc_cached_bytes''
       ''Total bytes currently cached in PCC.''
       Gauge [''mount'', ''cache'']"

definition m_pcc_min_cached_file_size_bytes :: metric_def where
  "m_pcc_min_cached_file_size_bytes =
     mk_def ''lustre_pcc_min_cached_file_size_bytes''
       ''Minimum cached file size in bytes.''
       Gauge [''mount'', ''cache'']"

definition m_pcc_max_cached_file_size_bytes :: metric_def where
  "m_pcc_max_cached_file_size_bytes =
     mk_def ''lustre_pcc_max_cached_file_size_bytes''
       ''Maximum cached file size in bytes.''
       Gauge [''mount'', ''cache'']"

definition m_pcc_average_age_seconds :: metric_def where
  "m_pcc_average_age_seconds =
     mk_def ''lustre_pcc_average_age_seconds''
       ''Average age of cached files in seconds.''
       Gauge [''mount'', ''cache'']"

definition registry_lpcc_cache :: "(string \<times> metric_def) list" where
  "registry_lpcc_cache =
     [(''pcc_status'', m_pcc_status),
      (''pcc_purge_status'', m_pcc_purge_status),
      (''pcc_cache_usage_ratio'', m_pcc_cache_usage_ratio),
      (''pcc_purge_high_usage_ratio'', m_pcc_purge_high_usage_ratio),
      (''pcc_purge_low_usage_ratio'', m_pcc_purge_low_usage_ratio),
      (''pcc_purge_interval_seconds'', m_pcc_purge_interval_seconds),
      (''pcc_purge_scan_threads'', m_pcc_purge_scan_threads),
      (''pcc_purge_scan_times_total'', m_pcc_purge_scan_times_total),
      (''pcc_purge_total_purged_objs_total'', m_pcc_purge_total_purged_objs_total),
      (''pcc_purge_total_failed_objs_total'', m_pcc_purge_total_failed_objs_total),
      (''pcc_purge_scanned_objs'', m_pcc_purge_scanned_objs),
      (''pcc_purge_purged_objs'', m_pcc_purge_purged_objs),
      (''pcc_cached_files'', m_pcc_cached_files),
      (''pcc_cached_bytes'', m_pcc_cached_bytes),
      (''pcc_min_cached_file_size_bytes'', m_pcc_min_cached_file_size_bytes),
      (''pcc_max_cached_file_size_bytes'', m_pcc_max_cached_file_size_bytes),
      (''pcc_average_age_seconds'', m_pcc_average_age_seconds)]"

subsection \<open>LPCC per-mount filesystem stats\<close>

definition m_pcc_fs_open_count_total :: metric_def where
  "m_pcc_fs_open_count_total =
     mk_def ''lustre_pcc_fs_open_count_total''
       ''Total number of file opens on the Lustre mount.''
       Counter [''mount'']"

definition m_pcc_fs_real_hit_total :: metric_def where
  "m_pcc_fs_real_hit_total =
     mk_def ''lustre_pcc_fs_real_hit_total''
       ''Total number of PCC cache hits.''
       Counter [''mount'']"

definition m_pcc_fs_open_hit_ratio :: metric_def where
  "m_pcc_fs_open_hit_ratio =
     mk_def ''lustre_pcc_fs_open_hit_ratio''
       (''PCC open hit ratio (0.0'' @ [CHR 0xE2, CHR 0x80, CHR 0x93] @ ''1.0).'')
       Gauge [''mount'']"

definition m_pcc_fs_real_hit_bytes_total :: metric_def where
  "m_pcc_fs_real_hit_bytes_total =
     mk_def ''lustre_pcc_fs_real_hit_bytes_total''
       ''Total bytes served from PCC cache.''
       Counter [''mount'']"

definition m_pcc_fs_total_read_bytes_total :: metric_def where
  "m_pcc_fs_total_read_bytes_total =
     mk_def ''lustre_pcc_fs_total_read_bytes_total''
       ''Total bytes read from the Lustre mount.''
       Counter [''mount'']"

definition m_pcc_fs_read_hit_bytes_ratio :: metric_def where
  "m_pcc_fs_read_hit_bytes_ratio =
     mk_def ''lustre_pcc_fs_read_hit_bytes_ratio''
       (''PCC read hit bytes ratio (0.0'' @ [CHR 0xE2, CHR 0x80, CHR 0x93] @ ''1.0).'')
       Gauge [''mount'']"

definition registry_lpcc_mount :: "(string \<times> metric_def) list" where
  "registry_lpcc_mount =
     [(''pcc_fs_open_count_total'', m_pcc_fs_open_count_total),
      (''pcc_fs_real_hit_total'', m_pcc_fs_real_hit_total),
      (''pcc_fs_open_hit_ratio'', m_pcc_fs_open_hit_ratio),
      (''pcc_fs_real_hit_bytes_total'', m_pcc_fs_real_hit_bytes_total),
      (''pcc_fs_total_read_bytes_total'', m_pcc_fs_total_read_bytes_total),
      (''pcc_fs_read_hit_bytes_ratio'', m_pcc_fs_read_hit_bytes_ratio)]"

section \<open>The registry\<close>

definition registry_entries :: "(string \<times> metric_def) list" where
  "registry_entries =
     registry_health @ registry_sptlrpc @ registry_lnet_stats @ registry_lnet_params @
     registry_lnet_ni @ registry_client_core @ registry_client_tunables @ registry_rpc @
     registry_osc_mdc @ registry_lpcc_cache @ registry_lpcc_mount"

definition Registry :: "string \<rightharpoonup> metric_def" where
  "Registry = map_of registry_entries"

lemmas registry_defs =
  registry_entries_def registry_health_def registry_sptlrpc_def registry_lnet_stats_def registry_lnet_params_def registry_lnet_ni_def registry_client_core_def registry_client_tunables_def registry_rpc_def registry_osc_mdc_def registry_lpcc_cache_def registry_lpcc_mount_def

named_theorems metric_defs \<open>the definitions of the entries\<close>

lemmas [metric_defs] =
  m_health_check_def m_physical_pages_def m_pages_per_pool_def
  m_maximum_pages_def m_maximum_pools_def m_pages_in_pools_def
  m_free_pages_def m_maximum_pages_reached_total_def m_grows_total_def
  m_grows_failure_total_def m_shrinks_total_def m_cache_access_total_def
  m_cache_miss_total_def m_free_page_low_def m_maximum_waitqueue_depth_def
  m_out_of_memory_request_total_def m_allocated_def m_maximum_def
  m_errors_total_def m_send_count_total_def m_receive_count_total_def
  m_route_count_total_def m_drop_count_total_def m_send_count_by_nid_total_def
  m_receive_count_by_nid_total_def m_drop_count_by_nid_total_def m_send_bytes_total_def
  m_receive_bytes_total_def m_route_bytes_total_def m_drop_bytes_total_def
  m_console_backoff_enabled_def m_console_max_delay_centiseconds_def m_console_min_delay_centiseconds_def
  m_console_ratelimit_enabled_def m_debug_megabytes_def m_panic_on_lbug_enabled_def
  m_watchdog_ratelimit_enabled_def m_catastrophe_enabled_def m_lnet_memory_used_bytes_def
  m_fail_error_total_def m_fail_maximum_def m_lnet_ni_up_def
  m_lnet_ni_health_def m_lnet_ni_health_interrupts_total_def m_lnet_ni_health_dropped_total_def
  m_lnet_ni_health_aborted_total_def m_lnet_ni_health_no_route_total_def m_lnet_ni_health_timeouts_total_def
  m_lnet_ni_health_errors_total_def m_blocksize_bytes_def m_inodes_free_def
  m_inodes_maximum_def m_available_kibibytes_def m_free_kibibytes_def
  m_capacity_kibibytes_def m_read_samples_total_def m_read_minimum_size_bytes_def
  m_read_maximum_size_bytes_def m_read_bytes_total_def m_write_samples_total_def
  m_write_minimum_size_bytes_def m_write_maximum_size_bytes_def m_write_bytes_total_def
  m_stats_total_def m_stats_seconds_sum_def m_ldlm_cbd_stats_def
  m_checksum_pages_enabled_def m_default_ea_size_bytes_def m_lazystatfs_enabled_def
  m_maximum_ea_size_bytes_def m_maximum_read_ahead_megabytes_def m_maximum_read_ahead_per_file_megabytes_def
  m_maximum_read_ahead_whole_megabytes_def m_statahead_agl_enabled_def m_statahead_maximum_def
  m_xattr_cache_enabled_def m_pages_per_rpc_total_def m_rpcs_in_flight_def
  m_rpcs_offset_def m_rpcs_current_def m_pending_pages_def
  m_osc_dirty_bytes_def m_osc_max_dirty_bytes_def m_max_pages_per_rpc_def
  m_max_rpcs_in_flight_def m_max_mod_rpcs_in_flight_def m_target_active_def
  m_target_state_def m_pcc_status_def m_pcc_purge_status_def
  m_pcc_cache_usage_ratio_def m_pcc_purge_high_usage_ratio_def m_pcc_purge_low_usage_ratio_def
  m_pcc_purge_interval_seconds_def m_pcc_purge_scan_threads_def m_pcc_purge_scan_times_total_def
  m_pcc_purge_total_purged_objs_total_def m_pcc_purge_total_failed_objs_total_def m_pcc_purge_scanned_objs_def
  m_pcc_purge_purged_objs_def m_pcc_cached_files_def m_pcc_cached_bytes_def
  m_pcc_min_cached_file_size_bytes_def m_pcc_max_cached_file_size_bytes_def m_pcc_average_age_seconds_def
  m_pcc_fs_open_count_total_def m_pcc_fs_real_hit_total_def m_pcc_fs_open_hit_ratio_def
  m_pcc_fs_real_hit_bytes_total_def m_pcc_fs_total_read_bytes_total_def m_pcc_fs_read_hit_bytes_ratio_def

lemma distinct_ids: "distinct (map fst registry_entries)"
  by (simp only: registry_defs append.simps list.map fst_conv distinct.simps list.set insert_iff
      empty_iff list.inject list.distinct char.inject simp_thms)

lemma registry_member: "(i, d) \<in> set registry_entries \<Longrightarrow> Registry i = Some d"
  by (simp add: Registry_def distinct_ids)

lemma registry_all: "list_all (\<lambda>(i, d). Registry i = Some d) registry_entries"
  by (auto simp: list_all_iff registry_member)

lemmas registry_lookup [simp] = registry_all [unfolded registry_defs append.simps list.pred_inject prod.case]

lemma Registry_Some_iff: "Registry i = Some d \<longleftrightarrow> (i, d) \<in> set registry_entries"
  by (simp add: Registry_def distinct_ids)

end
