(* ===== verification/Mapper.thy ===== *)
theory Mapper
  imports Contract
begin

text \<open>
  \<^verbatim>\<open>internal/mapper/mapper.go\<close>: the step from internal observations to the public contract, and the
  interface between the parsers and the mapper.  A parser (or a collector that combines parsers) is
  an \<open>observation_source\<close> when every observation it yields conforms to the contract; a source's output
  is always mapped without an error and without losing or inventing a label.
\<close>

record mapped_observation =
  Def :: metric_def
  LabelVals :: "string list"
  MValue :: float64

text \<open>Reading a Go map: the empty string for an absent key.\<close>

definition label_val :: "(string \<rightharpoonup> string) \<Rightarrow> string \<Rightarrow> string" where
  "label_val ls k = (case ls k of None \<Rightarrow> [] | Some v \<Rightarrow> v)"

definition map_observation :: "observation \<Rightarrow> mapped_observation list result" where
  "map_observation ob =
     (case Registry (MetricID ob) of
        None \<Rightarrow> Inl (Errorf ''unknown metric ID: %s'' [ArgS (MetricID ob)] [])
      | Some d \<Rightarrow>
          Inr [\<lparr>Def = d, LabelVals = map (label_val (Labels ob)) (LabelKeys d), MValue = Value ob\<rparr>])"

definition Map :: "observation list \<Rightarrow> mapped_observation list result" where
  "Map os = collect_all map_observation os"

section \<open>The contract of an observation\<close>

definition conforms :: "observation \<Rightarrow> bool" where
  "conforms ob \<longleftrightarrow>
     (case Registry (MetricID ob) of
        None \<Rightarrow> False
      | Some d \<Rightarrow> dom (Labels ob) = set (LabelKeys d))"

lemma conforms_obs [simp]:
  "conforms (obs col src mid mt ls v) \<longleftrightarrow>
     (case Registry mid of None \<Rightarrow> False | Some d \<Rightarrow> dom ls = set (LabelKeys d))"
  by (cases "Registry mid") (simp_all add: conforms_def)

definition all_conform :: "observation list \<Rightarrow> bool" where
  "all_conform os \<longleftrightarrow> (\<forall>ob \<in> set os. conforms ob)"

lemma all_conform_simps [simp]:
  "all_conform []"
  "all_conform (ob # os) \<longleftrightarrow> conforms ob \<and> all_conform os"
  "all_conform (os @ os') \<longleftrightarrow> all_conform os \<and> all_conform os'"
  by (auto simp: all_conform_def)

lemma all_conform_concat: "all_conform (concat oss) \<longleftrightarrow> (\<forall>os \<in> set oss. all_conform os)"
  by (auto simp: all_conform_def)

lemma all_conform_filter: "all_conform os \<Longrightarrow> all_conform (filter p os)"
  by (simp add: all_conform_def)

lemma all_conform_collect:
  assumes "collect_all f xs = Inr os"
    and "\<And>x ys. x \<in> set xs \<Longrightarrow> f x = Inr ys \<Longrightarrow> all_conform ys"
  shows "all_conform os"
  unfolding all_conform_def
proof
  fix ob
  assume ob: "ob \<in> set os"
  show "conforms ob"
    by (rule collect_all_invariant [OF assms(1) _ ob])
       (use assms(2) in \<open>auto simp: all_conform_def\<close>)
qed

section \<open>What mapping does\<close>

lemma map_observation_ok: "is_ok (map_observation ob) \<longleftrightarrow> Registry (MetricID ob) \<noteq> None"
  by (auto simp: map_observation_def split: option.split)

lemma Map_ok_iff: "is_ok (Map os) \<longleftrightarrow> (\<forall>ob \<in> set os. Registry (MetricID ob) \<noteq> None)"
  by (simp add: Map_def is_ok_collect_all map_observation_ok)

lemma conforms_registered: "conforms ob \<Longrightarrow> Registry (MetricID ob) \<noteq> None"
  by (auto simp: conforms_def split: option.splits)

lemma Map_conforming: "all_conform os \<Longrightarrow> is_ok (Map os)"
  by (simp add: Map_ok_iff all_conform_def conforms_registered)

lemma map_of_zip_fun: "map_of (zip ks (map f ks)) k = (if k \<in> set ks then Some (f k) else None)"
  by (induction ks) auto

lemma map_observation_labels:
  assumes "conforms ob"
  shows "\<exists>m. map_observation ob = Inr [m] \<and>
           map_of (zip (LabelKeys (Def m)) (LabelVals m)) = Labels ob \<and> MValue m = Value ob"
proof -
  from assms obtain d where d: "Registry (MetricID ob) = Some d" "dom (Labels ob) = set (LabelKeys d)"
    by (auto simp: conforms_def split: option.splits)
  have "map_of (zip (LabelKeys d) (map (label_val (Labels ob)) (LabelKeys d))) k = Labels ob k" for k
  proof (cases "Labels ob k")
    case None
    with d(2) have "k \<notin> set (LabelKeys d)" by auto
    with None show ?thesis by (simp add: map_of_zip_fun)
  next
    case (Some v)
    with d(2) have "k \<in> set (LabelKeys d)" by auto
    with Some show ?thesis by (simp add: map_of_zip_fun label_val_def)
  qed
  with d(1) show ?thesis by (auto simp: map_observation_def)
qed

text \<open>Mapping keeps the number, the order and the values of the observations.\<close>

lemma Map_values: "Map os = Inr ms \<Longrightarrow> map MValue ms = map Value os"
proof (induction os arbitrary: ms)
  case Nil
  then show ?case by (simp add: Map_def)
next
  case (Cons ob os)
  then show ?case
    by (auto simp: Map_def map_observation_def split: sum.splits option.splits)
qed

section \<open>The interface of the parsers\<close>

locale observation_source =
  fixes parse :: "'i \<Rightarrow> observation list result"
  assumes conforming: "parse i = Inr os \<Longrightarrow> all_conform os"
begin

lemma mapped: "parse i = Inr os \<Longrightarrow> is_ok (Map os)"
  by (rule Map_conforming) (rule conforming)

lemma mapped_labels:
  assumes "parse i = Inr os" "ob \<in> set os"
  shows "\<exists>m. map_observation ob = Inr [m] \<and>
           map_of (zip (LabelKeys (Def m)) (LabelVals m)) = Labels ob \<and> MValue m = Value ob"
  using conforming [OF assms(1)] assms(2) by (intro map_observation_labels) (simp add: all_conform_def)

text \<open>Running a source over a list of inputs is again a source.\<close>

lemma collect_conforms: "collect_all parse is = Inr os \<Longrightarrow> all_conform os"
  by (erule all_conform_collect) (rule conforming)

end

section \<open>The interface of the line-oriented parsers\<close>

text \<open>
  A parser of Lustre's line-oriented files splits its input into lines, sometimes after trimming the
  whole of it, and handles each line on its own.  A printed line is one that begins and ends with a
  graphic byte and holds no newline.
\<close>

definition printed :: "string \<Rightarrow> bool" where
  "printed l \<longleftrightarrow> l \<noteq> [] \<and> graphic (hd l) \<and> graphic (last l) \<and> newline \<notin> set l"

lemma printed_unwords: "ws \<noteq> [] \<Longrightarrow> list_all token ws \<Longrightarrow> printed (unwords ws)"
  using unwords_ends [of ws] token_ends [of "hd ws"] token_ends [of "last ws"]
  by (auto simp: printed_def unwords_no_newline list_all_iff)

lemma TrimSpace_printed: "printed l \<Longrightarrow> TrimSpace l = l"
  by (simp add: printed_def TrimSpace_graphic_ends)

lemma unlines_Nil [simp]: "unlines [] = []"
  and unlines_Cons [simp]: "unlines (l # ls) = l @ newline # unlines ls"
  by (simp_all add: unlines_def)

lemma lines_butlast_unlines:
  "ls \<noteq> [] \<Longrightarrow> (\<And>l. l \<in> set ls \<Longrightarrow> newline \<notin> set l) \<Longrightarrow> lines (butlast (unlines ls)) = ls"
proof (induction ls)
  case (Cons l ls)
  show ?case
  proof (cases ls)
    case Nil
    with Cons.prems show ?thesis by (simp add: Split_no_sep)
  next
    case (Cons l' ls')
    then have "butlast (unlines (l # ls)) = l @ newline # butlast (unlines ls)"
      by (simp add: butlast_append)
    with Cons.IH Cons.prems Cons show ?thesis by (simp add: Split_append Split_no_sep)
  qed
qed simp

lemma trim_right_newline: "s \<noteq> [] \<Longrightarrow> graphic (last s) \<Longrightarrow> trim_right (s @ [newline]) = s"
proof -
  assume "s \<noteq> []" "graphic (last s)"
  then obtain c t where "rev s = c # t" "graphic c"
    by (cases "rev s") (auto simp: last_conv_nth hd_rev [symmetric])
  moreover have "trim_left_rev (newline # rev s) = trim_left_rev (rev s)"
    by (simp add: trim_left_rev.simps space_len_rev.simps ascii_space_def)
  ultimately show ?thesis by (simp add: trim_right_def trim_left_rev_graphic rev_swap)
qed

lemma unlines_ends:
  "ls \<noteq> [] \<Longrightarrow> (\<And>l. l \<in> set ls \<Longrightarrow> printed l) \<Longrightarrow>
     \<exists>s. unlines ls = s @ [newline] \<and> s \<noteq> [] \<and> graphic (hd s) \<and> graphic (last s)"
proof (induction ls)
  case (Cons l ls)
  then have l: "printed l" by simp
  show ?case
  proof (cases ls)
    case Nil
    with l show ?thesis by (intro exI [of _ l]) (simp add: printed_def)
  next
    case (Cons l' ls')
    with Cons.IH Cons.prems obtain s where
      s: "unlines ls = s @ [newline]" "s \<noteq> []" "graphic (last s)" by auto
    with l show ?thesis by (intro exI [of _ "l @ newline # s"]) (simp add: printed_def)
  qed
qed simp

lemma TrimSpace_unlines:
  assumes "ls \<noteq> []" "\<And>l. l \<in> set ls \<Longrightarrow> printed l"
  shows "TrimSpace (unlines ls) = butlast (unlines ls)"
proof -
  from unlines_ends [OF assms] obtain s where
    s: "unlines ls = s @ [newline]" "s \<noteq> []" "graphic (hd s)" "graphic (last s)" by blast
  then have "trim_left (unlines ls) = s @ [newline]"
    by (cases s) (simp_all add: trim_left_graphic)
  with s show ?thesis by (simp add: TrimSpace_def trim_right_newline)
qed

locale line_parser =
  fixes parse :: "string \<Rightarrow> observation list result"
    and parse_line :: "string \<Rightarrow> observation list result"
  assumes parse_lines:
      "parse d = collect_all parse_line (lines d) \<or> parse d = collect_all parse_line (lines (TrimSpace d))"
    and blank_line: "parse_line [] = Inr []"
    and line_conforms: "parse_line l = Inr os \<Longrightarrow> all_conform os"
begin

lemma lines_conform: "parse d = Inr os \<Longrightarrow> all_conform os"
proof -
  assume "parse d = Inr os"
  with parse_lines [of d] obtain ls where "collect_all parse_line ls = Inr os" by metis
  then show "all_conform os" by (rule all_conform_collect) (rule line_conforms)
qed

lemma parse_unlines:
  assumes "\<And>l. l \<in> set ls \<Longrightarrow> printed l"
  shows "parse (unlines ls) = collect_all parse_line ls"
proof (cases "ls = []")
  case True
  then show ?thesis using parse_lines [of "[]"] by (auto simp: blank_line)
next
  case False
  from assms have nl: "newline \<notin> set l" if "l \<in> set ls" for l using that by (simp add: printed_def)
  have "collect_all parse_line (lines (unlines ls)) = collect_all parse_line ls"
    by (simp add: lines_unlines nl collect_all_append blank_line split: sum.split)
  moreover have "lines (TrimSpace (unlines ls)) = ls"
    using False assms by (simp add: TrimSpace_unlines lines_butlast_unlines nl)
  ultimately show ?thesis using parse_lines [of "unlines ls"] by auto
qed

text \<open>A file is accepted exactly when each of its lines is; its observations are those of its lines.\<close>

lemma parse_ok_iff:
  "(\<And>l. l \<in> set ls \<Longrightarrow> printed l) \<Longrightarrow>
     is_ok (parse (unlines ls)) \<longleftrightarrow> (\<forall>l \<in> set ls. is_ok (parse_line l))"
  by (simp add: parse_unlines is_ok_collect_all)

end

sublocale line_parser \<subseteq> observation_source parse
  by unfold_locales (rule lines_conform)

section \<open>Properties\<close>

definition unregistered :: "observation list \<Rightarrow> observation list" where
  "unregistered os = filter (\<lambda>ob. Registry (MetricID ob) = None) os"

definition mapped_of :: "observation \<Rightarrow> mapped_observation" where
  "mapped_of ob =
     (let d = the (Registry (MetricID ob)) in
      \<lparr>Def = d, LabelVals = map (label_val (Labels ob)) (LabelKeys d), MValue = Value ob\<rparr>)"

text \<open>
  Mapping fails only for a metric ID outside the contract, with the first one; otherwise it keeps the
  number, the order and the values of the observations, each with the definition of its ID and its
  label values in the order of that definition.
\<close>

lemma map_meaning:
  "Map os =
     (case unregistered os of
        [] \<Rightarrow> Inr (map mapped_of os)
      | ob # _ \<Rightarrow> Inl (Errorf ''unknown metric ID: %s'' [ArgS (MetricID ob)] []))"
proof (induction os)
  case Nil
  show ?case by (simp add: Map_def unregistered_def)
next
  case (Cons ob os)
  show ?case
  proof (cases "Registry (MetricID ob)")
    case None
    then show ?thesis by (simp add: Map_def unregistered_def map_observation_def)
  next
    case (Some d)
    then have "unregistered (ob # os) = unregistered os" by (simp add: unregistered_def)
    with Some Cons.IH show ?thesis
      by (cases "unregistered os") (simp_all add: Map_def map_observation_def mapped_of_def)
  qed
qed

end
