(* ===== verification/Parser_Client.thy ===== *)
theory Parser_Client
  imports Mapper
begin

text \<open>
  The stateless parsers of the client collector: \<^verbatim>\<open>internal/parser/llite.go\<close>,
  \<^verbatim>\<open>internal/parser/obd_stats.go\<close> and \<^verbatim>\<open>internal/parser/target.go\<close>.
\<close>

section \<open>Statistics lines\<close>

definition client_labels :: "string \<Rightarrow> string \<Rightarrow> (string \<rightharpoonup> string)" where
  "client_labels component target = [''component'' \<mapsto> component, ''target'' \<mapsto> target]"

text \<open>\<open>strconv.ParseFloat\<close> of one field, its error wrapped with a format of the code.\<close>

definition parse_field :: "string \<Rightarrow> string \<Rightarrow> float64 result" where
  "parse_field fmt s = map_err (\<lambda>e. Errorf fmt [] [e]) (ParseFloat s)"

definition parseBytesStat :: "string list \<Rightarrow> string \<Rightarrow> string \<Rightarrow> string \<Rightarrow> observation list result" where
  "parseBytesStat fs source component target =
     (if length fs < 7
      then Inl (Errorf ''expected at least 7 fields, got %d'' [ArgN (length fs)] [])
      else
        let pre = (if HasPrefix (fs ! 0) ''write'' then ''write'' else ''read'') in
        bind_res (parse_field ''parsing count: %w'' (fs ! 1)) (\<lambda>count.
        bind_res (parse_field ''parsing min: %w'' (fs ! 4)) (\<lambda>min.
        bind_res (parse_field ''parsing max: %w'' (fs ! 5)) (\<lambda>max.
        bind_res (parse_field ''parsing sum: %w'' (fs ! 6)) (\<lambda>sumv.
          let labels = client_labels component target in
          Inr [obs ''client'' source (pre @ ''_samples_total'') Counter labels count,
               obs ''client'' source (pre @ ''_minimum_size_bytes'') Gauge labels min,
               obs ''client'' source (pre @ ''_maximum_size_bytes'') Gauge labels max,
               obs ''client'' source (pre @ ''_bytes_total'') Counter labels sumv])))))"

definition parseOperationStat :: "string list \<Rightarrow> string \<Rightarrow> string \<Rightarrow> string \<Rightarrow> observation list result" where
  "parseOperationStat fs source component target =
     (if length fs < 2
      then Inl (Errorf ''expected at least 2 fields, got %d'' [ArgN (length fs)] [])
      else
        bind_res (parse_field ''parsing count: %w'' (fs ! 1)) (\<lambda>count.
          Inr [obs ''client'' source ''stats_total'' Counter
                 ((client_labels component target)(''operation'' \<mapsto> fs ! 0)) count]))"

section \<open>llite\<close>

definition llite_line :: "string \<Rightarrow> string \<Rightarrow> string \<Rightarrow> string \<Rightarrow> observation list result" where
  "llite_line source component target raw =
     (let line = TrimSpace raw in
      if line = [] then Inr []
      else
        let fs = Fields line in
        if length fs < 2 then Inr []
        else
          let name = fs ! 0 in
          if name = ''snapshot_time'' then Inr []
          else
            map_err (\<lambda>e. Errorf ''llite: %s: %w'' [ArgS name] [e])
              (if name = ''read_bytes'' \<or> name = ''write_bytes''
               then parseBytesStat fs source component target
               else parseOperationStat fs source component target))"

definition ParseLLiteStats :: "string \<Rightarrow> string \<Rightarrow> string \<Rightarrow> string \<Rightarrow> observation list result" where
  "ParseLLiteStats data source component target =
     collect_all (llite_line source component target) (lines (TrimSpace data))"

definition llite_single_files :: "(string \<times> string \<times> metric_type) list" where
  "llite_single_files =
     [(''blocksize'', ''blocksize_bytes'', Gauge),
      (''filesfree'', ''inodes_free'', Gauge),
      (''filestotal'', ''inodes_maximum'', Gauge),
      (''kbytesavail'', ''available_kibibytes'', Gauge),
      (''kbytesfree'', ''free_kibibytes'', Gauge),
      (''kbytestotal'', ''capacity_kibibytes'', Gauge),
      (''checksum_pages'', ''checksum_pages_enabled'', Gauge),
      (''default_easize'', ''default_ea_size_bytes'', Gauge),
      (''lazystatfs'', ''lazystatfs_enabled'', Gauge),
      (''max_easize'', ''maximum_ea_size_bytes'', Gauge),
      (''max_read_ahead_mb'', ''maximum_read_ahead_megabytes'', Gauge),
      (''max_read_ahead_per_file_mb'', ''maximum_read_ahead_per_file_megabytes'', Gauge),
      (''max_read_ahead_whole_mb'', ''maximum_read_ahead_whole_megabytes'', Gauge),
      (''statahead_agl'', ''statahead_agl_enabled'', Gauge),
      (''statahead_max'', ''statahead_maximum'', Gauge),
      (''xattr_cache'', ''xattr_cache_enabled'', Gauge)]"

definition lliteSingleFileMap :: "string \<rightharpoonup> string \<times> metric_type" where
  "lliteSingleFileMap = map_of llite_single_files"

definition ParseLLiteSingleFile :: "string \<Rightarrow> string \<Rightarrow> string \<Rightarrow> string \<Rightarrow> string \<Rightarrow> observation list result" where
  "ParseLLiteSingleFile data source fileName component target =
     (case lliteSingleFileMap fileName of
        None \<Rightarrow> Inr []
      | Some (metricID, metricType) \<Rightarrow>
          bind_res
            (map_err (\<lambda>e. Errorf ''llite %q: %w'' [ArgS fileName] [e]) (ParseFloat (TrimSpace data)))
            (\<lambda>val. Inr [obs ''client'' source metricID metricType (client_labels component target) val]))"

section \<open>mdc and osc statistics\<close>

definition statsSum :: "string list \<Rightarrow> (string \<times> float64) option" where
  "statsSum fs =
     (if length fs < 7 \<or> fs ! 2 \<noteq> ''samples'' then None
      else (case ParseFloat (fs ! 6) of
              Inl e \<Rightarrow> None
            | Inr sumv \<Rightarrow> Some (Trim_cutset ''[]'' (fs ! 3), sumv)))"

definition unitToSeconds :: "string \<Rightarrow> float64 \<Rightarrow> float64 option" where
  "unitToSeconds u sumv =
     (let v = ToLower u in
      if v = ''nsec'' \<or> v = ''nsecs'' then Some (f_div sumv (f_of_int 1000000000))
      else if v = ''usec'' \<or> v = ''usecs'' then Some (f_div sumv (f_of_int 1000000))
      else if v = ''msec'' \<or> v = ''msecs'' then Some (f_div sumv (f_of_int 1000))
      else if v = ''sec'' \<or> v = ''secs'' then Some sumv
      else None)"

definition statsSecondsSum :: "string list \<Rightarrow> float64 option" where
  "statsSecondsSum fs =
     (case statsSum fs of None \<Rightarrow> None | Some (u, sumv) \<Rightarrow> unitToSeconds u sumv)"

definition parseOBDStatLine ::
  "string list \<Rightarrow> string \<Rightarrow> string \<Rightarrow> string \<Rightarrow> string \<Rightarrow> observation list result" where
  "parseOBDStatLine fs source component target ty =
     (let name = fs ! 0 in
      if name = ''read_bytes'' \<or> name = ''write_bytes'' then
        map_err (\<lambda>e. Errorf ''obd stats %s: %w'' [ArgS name] [e])
          (parseBytesStat fs source component target)
      else
        bind_res
          (map_err (\<lambda>e. Errorf ''obd stats %s: parsing count: %w'' [ArgS name] [e])
             (ParseFloat (fs ! 1)))
          (\<lambda>count.
             let base = (client_labels component target)(''operation'' \<mapsto> name);
                 observations = [obs ''client'' source ''stats_total'' Counter base count]
             in (case statsSecondsSum fs of
                   None \<Rightarrow> Inr observations
                 | Some seconds \<Rightarrow>
                     Inr (observations @
                       [obs ''client'' source ''stats_seconds_sum'' Counter
                          ((client_labels component target)(''type'' \<mapsto> ty, ''operation'' \<mapsto> name))
                          seconds]))))"

definition obd_line ::
  "string \<Rightarrow> string \<Rightarrow> string \<Rightarrow> string \<Rightarrow> string \<Rightarrow> observation list result" where
  "obd_line source component target ty raw =
     (let line = TrimSpace raw in
      if line = [] then Inr []
      else
        let fs = Fields line in
        if length fs < 2 \<or> fs ! 0 = ''snapshot_time'' then Inr []
        else parseOBDStatLine fs source component target ty)"

definition ParseOBDStats ::
  "string \<Rightarrow> string \<Rightarrow> string \<Rightarrow> string \<Rightarrow> string \<Rightarrow> observation list result" where
  "ParseOBDStats data source component target ty =
     collect_all (obd_line source component target ty) (lines data)"

section \<open>mdc and osc single-value files\<close>

definition client_single_files :: "(string \<times> string \<times> bool \<times> int) list" where
  "client_single_files =
     [(''cur_dirty_bytes'', ''osc_dirty_bytes'', False, 1),
      (''max_dirty_mb'', ''osc_max_dirty_bytes'', False, 1024 * 1024),
      (''max_pages_per_rpc'', ''max_pages_per_rpc'', True, 1),
      (''max_rpcs_in_flight'', ''max_rpcs_in_flight'', True, 1),
      (''max_mod_rpcs_in_flight'', ''max_mod_rpcs_in_flight'', True, 1),
      (''active'', ''target_active'', True, 1)]"

definition clientSingleFileMap :: "string \<rightharpoonup> string \<times> bool \<times> int" where
  "clientSingleFileMap = map_of client_single_files"

definition ParseClientSingleFile ::
  "string \<Rightarrow> string \<Rightarrow> string \<Rightarrow> string \<Rightarrow> string \<Rightarrow> string \<Rightarrow> observation list result" where
  "ParseClientSingleFile data source fileName component target ty =
     (case clientSingleFileMap fileName of
        None \<Rightarrow> Inr []
      | Some (metricID, hasType, scale) \<Rightarrow>
          bind_res
            (map_err (\<lambda>e. Errorf ''client %q: %w'' [ArgS fileName] [e]) (ParseFloat (TrimSpace data)))
            (\<lambda>v. let val = f_mul v (f_of_int scale);
                     base = client_labels component target;
                     labels = (if hasType then base(''type'' \<mapsto> ty) else base)
                 in Inr [obs ''client'' source metricID Gauge labels val]))"

section \<open>Import state\<close>

definition firstToken :: "string \<Rightarrow> string" where
  "firstToken s = (let fs = Fields s in if length fs = 0 then [] else fs ! 0)"

text \<open>The loop's variables: the current state, once found, and the fallback.\<close>

record import_state =
  current :: string
  foundCurrent :: bool
  fallback :: string

definition import_init :: import_state where
  "import_init = \<lparr>current = [], foundCurrent = False, fallback = []\<rparr>"

definition import_line :: "import_state \<Rightarrow> string \<Rightarrow> import_state" where
  "import_line st line =
     (let trimmed = TrimSpace line in
      (case CutPrefix trimmed ''current_state:'' of
         Some rest \<Rightarrow> st\<lparr>current := firstToken rest, foundCurrent := True\<rparr>
       | None \<Rightarrow>
           if foundCurrent st \<or> fallback st \<noteq> [] then st
           else if trimmed = [] \<or> HasPrefix trimmed ''state_history:'' \<or> HasPrefix trimmed ''- ['' then st
           else st\<lparr>fallback := firstToken trimmed\<rparr>))"

definition observed_state :: "string \<Rightarrow> string" where
  "observed_state data =
     (let st = foldl import_line import_init (lines data)
      in if foundCurrent st then current st else fallback st)"

definition ParseClientState ::
  "string \<Rightarrow> string \<Rightarrow> string \<Rightarrow> string \<Rightarrow> string \<Rightarrow> observation list result" where
  "ParseClientState data source component target ty =
     (let state = observed_state data in
      if state = [] then Inr []
      else Inr [obs ''client'' source ''target_state'' Gauge
                  ((client_labels component target)(''type'' \<mapsto> ty, ''state'' \<mapsto> state))
                  (f_of_int 1)])"

section \<open>The contract of the client parsers\<close>

lemmas client_metric_defs =
  m_read_samples_total_def m_read_minimum_size_bytes_def m_read_maximum_size_bytes_def
  m_read_bytes_total_def m_write_samples_total_def m_write_minimum_size_bytes_def
  m_write_maximum_size_bytes_def m_write_bytes_total_def m_stats_total_def m_stats_seconds_sum_def
  m_target_state_def

lemma parseBytesStat_conforms:
  "parseBytesStat fs source component target = Inr os \<Longrightarrow> all_conform os"
  by (auto simp: parseBytesStat_def Let_def res_iff client_labels_def client_metric_defs split: if_splits)

lemma parseOperationStat_conforms:
  "parseOperationStat fs source component target = Inr os \<Longrightarrow> all_conform os"
  by (auto simp: parseOperationStat_def res_iff client_labels_def client_metric_defs split: if_splits)

lemma llite_line_conforms: "llite_line source component target l = Inr os \<Longrightarrow> all_conform os"
  by (auto simp: llite_line_def Let_def res_iff split: if_splits
      intro: parseBytesStat_conforms parseOperationStat_conforms)

interpretation llite: line_parser "\<lambda>d. ParseLLiteStats d source component target"
  "llite_line source component target" for source component target
  by unfold_locales (auto simp: ParseLLiteStats_def llite_line_def llite_line_conforms)

lemma obd_line_conforms: "obd_line source component target ty l = Inr os \<Longrightarrow> all_conform os"
  by (auto simp: obd_line_def parseOBDStatLine_def Let_def res_iff client_labels_def client_metric_defs
      split: if_splits option.splits intro: parseBytesStat_conforms)

interpretation obd: line_parser "\<lambda>d. ParseOBDStats d source component target ty"
  "obd_line source component target ty" for source component target ty
  by unfold_locales (auto simp: ParseOBDStats_def obd_line_def obd_line_conforms)

lemma llite_single_files_registered:
  "list_all (\<lambda>(k, i, t). case Registry i of None \<Rightarrow> False
      | Some d \<Rightarrow> Type d = t \<and> LabelKeys d = [''component'', ''target'']) llite_single_files"
  by (simp add: llite_single_files_def m_blocksize_bytes_def m_inodes_free_def m_inodes_maximum_def
      m_available_kibibytes_def m_free_kibibytes_def m_capacity_kibibytes_def
      m_checksum_pages_enabled_def m_default_ea_size_bytes_def m_lazystatfs_enabled_def
      m_maximum_ea_size_bytes_def m_maximum_read_ahead_megabytes_def
      m_maximum_read_ahead_per_file_megabytes_def m_maximum_read_ahead_whole_megabytes_def
      m_statahead_agl_enabled_def m_statahead_maximum_def m_xattr_cache_enabled_def)

lemma lliteSingleFileMap_registered:
  assumes "lliteSingleFileMap k = Some (i, t)"
  shows "\<exists>d. Registry i = Some d \<and> Type d = t \<and> LabelKeys d = [''component'', ''target'']"
proof -
  from assms have "(k, i, t) \<in> set llite_single_files"
    by (auto simp: lliteSingleFileMap_def dest: map_of_SomeD)
  with llite_single_files_registered show ?thesis by (fastforce simp: list_all_iff split: option.splits)
qed

lemma ParseLLiteSingleFile_conforms:
  "ParseLLiteSingleFile d source fileName component target = Inr os \<Longrightarrow> all_conform os"
  by (auto simp: ParseLLiteSingleFile_def res_iff client_labels_def dest!: lliteSingleFileMap_registered
      split: option.splits)

interpretation llite_single: observation_source
  "\<lambda>d. ParseLLiteSingleFile d source fileName component target" for source fileName component target
  by unfold_locales (rule ParseLLiteSingleFile_conforms)

definition single_label_keys :: "bool \<Rightarrow> string list" where
  "single_label_keys hasType = [''component'', ''target''] @ (if hasType then [''type''] else [])"

lemma client_single_files_registered:
  "list_all (\<lambda>(k, i, h, s). case Registry i of None \<Rightarrow> False
      | Some d \<Rightarrow> Type d = Gauge \<and> LabelKeys d = single_label_keys h) client_single_files"
  by (simp add: client_single_files_def single_label_keys_def m_osc_dirty_bytes_def
      m_osc_max_dirty_bytes_def m_max_pages_per_rpc_def m_max_rpcs_in_flight_def
      m_max_mod_rpcs_in_flight_def m_target_active_def)

lemma clientSingleFileMap_registered:
  assumes "clientSingleFileMap k = Some (i, h, s)"
  shows "\<exists>d. Registry i = Some d \<and> Type d = Gauge \<and> LabelKeys d = single_label_keys h"
proof -
  from assms have "(k, i, h, s) \<in> set client_single_files"
    by (auto simp: clientSingleFileMap_def dest: map_of_SomeD)
  with client_single_files_registered show ?thesis by (fastforce simp: list_all_iff split: option.splits)
qed

lemma ParseClientSingleFile_conforms:
  "ParseClientSingleFile d source fileName component target ty = Inr os \<Longrightarrow> all_conform os"
  by (auto simp: ParseClientSingleFile_def res_iff client_labels_def single_label_keys_def Let_def
      dest!: clientSingleFileMap_registered split: option.splits)

interpretation client_single: observation_source
  "\<lambda>d. ParseClientSingleFile d source fileName component target ty" for source fileName component target ty
  by unfold_locales (rule ParseClientSingleFile_conforms)

lemma ParseClientState_conforms:
  "ParseClientState d source component target ty = Inr os \<Longrightarrow> all_conform os"
  by (auto simp: ParseClientState_def Let_def client_labels_def client_metric_defs split: if_splits)

interpretation client_state: observation_source
  "\<lambda>d. ParseClientState d source component target ty" for source component target ty
  by unfold_locales (rule ParseClientState_conforms)

section \<open>Statistics files as Lustre prints them\<close>

text \<open>
  The lines of a stats file: an operation with its count, a byte counter with its extremes and sum,
  and, in \<open>mdc\<close> and \<open>osc\<close> files, an operation with its times in some unit.
\<close>

datatype stat_line =
    OpStat string nat
  | ByteStat bool nat nat nat nat
  | TimeStat string nat string nat nat nat

definition exact :: "nat \<Rightarrow> bool" where
  "exact n \<longleftrightarrow> n < 2 ^ 53"

definition operation_name :: "string \<Rightarrow> bool" where
  "operation_name nm \<longleftrightarrow>
     token nm \<and> nm \<noteq> ''snapshot_time'' \<and> nm \<noteq> ''read_bytes'' \<and> nm \<noteq> ''write_bytes''"

definition unit_name :: "string \<Rightarrow> bool" where
  "unit_name u \<longleftrightarrow> token u \<and> CHR ''['' \<notin> set u \<and> CHR '']'' \<notin> set u"

fun stat_ok :: "stat_line \<Rightarrow> bool" where
  "stat_ok (OpStat nm n) \<longleftrightarrow> operation_name nm \<and> exact n"
| "stat_ok (ByteStat w n mi ma s) \<longleftrightarrow> exact n \<and> exact mi \<and> exact ma \<and> exact s"
| "stat_ok (TimeStat nm n u mi ma s) \<longleftrightarrow>
     operation_name nm \<and> unit_name u \<and> exact n \<and> exact mi \<and> exact ma \<and> exact s"

fun stat_words :: "stat_line \<Rightarrow> string list" where
  "stat_words (OpStat nm n) = [nm, decimal n, ''samples'', ''[reqs]'']"
| "stat_words (ByteStat w n mi ma s) =
     [if w then ''write_bytes'' else ''read_bytes'', decimal n, ''samples'', ''[bytes]'',
      decimal mi, decimal ma, decimal s]"
| "stat_words (TimeStat nm n u mi ma s) =
     [nm, decimal n, ''samples'', ''['' @ u @ '']'', decimal mi, decimal ma, decimal s]"

definition stat_text :: "stat_line \<Rightarrow> string" where
  "stat_text l = unwords (stat_words l)"

definition num :: "nat \<Rightarrow> float64" where
  "num n = f_of_int (int n)"

definition byte_obs ::
  "string \<Rightarrow> string \<Rightarrow> string \<Rightarrow> bool \<Rightarrow> nat \<Rightarrow> nat \<Rightarrow> nat \<Rightarrow> nat \<Rightarrow> observation list" where
  "byte_obs source component target w n mi ma s =
     (let ls = [''component'' \<mapsto> component, ''target'' \<mapsto> target] in
      if w then
        [obs ''client'' source ''write_samples_total'' Counter ls (num n),
         obs ''client'' source ''write_minimum_size_bytes'' Gauge ls (num mi),
         obs ''client'' source ''write_maximum_size_bytes'' Gauge ls (num ma),
         obs ''client'' source ''write_bytes_total'' Counter ls (num s)]
      else
        [obs ''client'' source ''read_samples_total'' Counter ls (num n),
         obs ''client'' source ''read_minimum_size_bytes'' Gauge ls (num mi),
         obs ''client'' source ''read_maximum_size_bytes'' Gauge ls (num ma),
         obs ''client'' source ''read_bytes_total'' Counter ls (num s)])"

definition op_obs :: "string \<Rightarrow> string \<Rightarrow> string \<Rightarrow> string \<Rightarrow> nat \<Rightarrow> observation" where
  "op_obs source component target nm n =
     obs ''client'' source ''stats_total'' Counter
       [''component'' \<mapsto> component, ''target'' \<mapsto> target, ''operation'' \<mapsto> nm] (num n)"

definition seconds_obs ::
  "string \<Rightarrow> string \<Rightarrow> string \<Rightarrow> string \<Rightarrow> string \<Rightarrow> float64 \<Rightarrow> observation" where
  "seconds_obs source component target ty nm v =
     obs ''client'' source ''stats_seconds_sum'' Counter
       [''component'' \<mapsto> component, ''target'' \<mapsto> target, ''type'' \<mapsto> ty, ''operation'' \<mapsto> nm] v"

text \<open>What the two parsers make of a line.\<close>

fun llite_meaning :: "string \<Rightarrow> string \<Rightarrow> string \<Rightarrow> stat_line \<Rightarrow> observation list" where
  "llite_meaning source component target (OpStat nm n) = [op_obs source component target nm n]"
| "llite_meaning source component target (ByteStat w n mi ma s) =
     byte_obs source component target w n mi ma s"
| "llite_meaning source component target (TimeStat nm n u mi ma s) = [op_obs source component target nm n]"

fun obd_meaning :: "string \<Rightarrow> string \<Rightarrow> string \<Rightarrow> string \<Rightarrow> stat_line \<Rightarrow> observation list" where
  "obd_meaning source component target ty (OpStat nm n) = [op_obs source component target nm n]"
| "obd_meaning source component target ty (ByteStat w n mi ma s) =
     byte_obs source component target w n mi ma s"
| "obd_meaning source component target ty (TimeStat nm n u mi ma s) =
     op_obs source component target nm n #
     (case unitToSeconds u (num s) of
        None \<Rightarrow> []
      | Some v \<Rightarrow> [seconds_obs source component target ty nm v])"

lemma ParseFloat_exact: "exact n \<Longrightarrow> ParseFloat (decimal n) = Inr (num n)"
  by (simp add: exact_def num_def ParseFloat_small)

lemma bracket_token: "token u \<Longrightarrow> token (''['' @ u @ '']'')"
  by (simp add: token_def graphic_def is_ascii_def ascii_space_def)

lemma stat_words_tokens: "stat_ok l \<Longrightarrow> list_all token (stat_words l) \<and> stat_words l \<noteq> []"
  by (cases l) (simp_all add: token_decimal bracket_token operation_name_def unit_name_def,
      simp_all add: token_def graphic_def is_ascii_def ascii_space_def)

lemma stat_text_printed: "stat_ok l \<Longrightarrow> printed (stat_text l)"
  using stat_words_tokens printed_unwords by (simp add: stat_text_def)

lemma stat_text_words: "stat_ok l \<Longrightarrow> TrimSpace (stat_text l) = stat_text l \<and>
    Fields (stat_text l) = stat_words l \<and> stat_text l \<noteq> []"
  using stat_words_tokens [of l] TrimSpace_unwords [of "stat_words l"] Fields_unwords [of "stat_words l"]
    printed_unwords [of "stat_words l"]
  by (auto simp: stat_text_def printed_def)

lemma unit_trim: "unit_name u \<Longrightarrow> Trim_cutset ''[]'' (''['' @ u @ '']'') = u"
proof -
  assume u: "unit_name u"
  then have ne: "u \<noteq> []" "hd u \<noteq> CHR ''[''" "hd u \<noteq> CHR '']''" "last u \<noteq> CHR ''[''" "last u \<noteq> CHR '']''"
    by (auto simp: unit_name_def token_def) (metis hd_in_set last_in_set list.set_sel)+
  then obtain c t where ct: "u = c # t" by (cases u) auto
  obtain v d where dv: "u = v @ [d]" using ne(1) by (cases u rule: rev_cases) auto
  have "dropWhile (\<lambda>x. x \<in> set ''[]'') (CHR ''['' # u @ '']'') = u @ '']''"
    using ne(2,3) ct by simp
  moreover have "dropWhile (\<lambda>x. x \<in> set ''[]'') (rev (u @ '']'')) = rev u"
    using ne(4,5) dv by simp
  ultimately show ?thesis by (simp add: Trim_cutset_def)
qed

lemma llite_line_meaning:
  assumes "stat_ok l"
  shows "llite_line source component target (stat_text l) = Inr (llite_meaning source component target l)"
  using stat_text_words [OF assms] assms
  by (cases l)
     (simp_all add: llite_line_def Let_def parseBytesStat_def parseOperationStat_def parse_field_def
        ParseFloat_exact operation_name_def client_labels_def byte_obs_def op_obs_def HasPrefix_def)

lemma obd_line_meaning:
  assumes "stat_ok l"
  shows "obd_line source component target ty (stat_text l) =
           Inr (obd_meaning source component target ty l)"
proof (cases l)
  case (OpStat nm n)
  with stat_text_words [OF assms] assms show ?thesis
    by (simp add: obd_line_def parseOBDStatLine_def Let_def ParseFloat_exact operation_name_def
        client_labels_def op_obs_def statsSecondsSum_def statsSum_def)
next
  case (ByteStat w n mi ma s)
  with stat_text_words [OF assms] assms show ?thesis
    by (simp add: obd_line_def parseOBDStatLine_def Let_def parseBytesStat_def parse_field_def
        ParseFloat_exact client_labels_def byte_obs_def HasPrefix_def)
next
  case (TimeStat nm n u mi ma s)
  then have "Trim_cutset ''[]'' (CHR ''['' # u @ '']'') = u" using assms unit_trim [of u] by simp
  with TimeStat stat_text_words [OF assms] assms show ?thesis
    by (simp add: obd_line_def parseOBDStatLine_def Let_def ParseFloat_exact operation_name_def
        client_labels_def op_obs_def seconds_obs_def statsSecondsSum_def statsSum_def
        split: option.split)
qed

definition stat_header :: "string \<Rightarrow> string" where
  "stat_header ts = unwords [''snapshot_time'', ts, ''secs.nsecs'']"

lemma header_words:
  "token ts \<Longrightarrow> list_all token [''snapshot_time'', ts, ''secs.nsecs'']"
  by (simp add: token_def graphic_def is_ascii_def ascii_space_def)

lemma header_facts:
  assumes "token ts"
  shows "printed (stat_header ts)" "TrimSpace (stat_header ts) = stat_header ts"
    "Fields (stat_header ts) = [''snapshot_time'', ts, ''secs.nsecs'']" "stat_header ts \<noteq> []"
  using header_words [OF assms] printed_unwords TrimSpace_unwords Fields_unwords
  by (simp_all add: stat_header_def del: unwords.simps) (auto simp: printed_def)

lemma header_meaning:
  assumes "token ts"
  shows "llite_line source component target (stat_header ts) = Inr []"
    "obd_line source component target ty (stat_header ts) = Inr []"
  by (simp_all add: llite_line_def obd_line_def Let_def header_facts [OF assms])

definition stat_file :: "string \<Rightarrow> stat_line list \<Rightarrow> string" where
  "stat_file ts ls = unlines (stat_header ts # map stat_text ls)"

lemma stat_file_printed:
  "token ts \<Longrightarrow> list_all stat_ok ls \<Longrightarrow> l \<in> set (stat_header ts # map stat_text ls) \<Longrightarrow> printed l"
  using header_facts(1) by (auto simp: list_all_iff stat_text_printed)

section \<open>Units\<close>

text \<open>The ratio of two floats that hold integers.\<close>

lemma f_div_small:
  assumes "0 \<le> n" "n < 2 ^ 53" "0 < k" "k < 2 ^ 53"
  shows "\<exists>a d. 0 \<le> a \<and> 0 < d \<and> f_div (f_of_int n) (f_of_int k) = round_ratio False a d \<and>
     real_of_int a / real_of_int d = real_of_int n / real_of_int k"
proof -
  obtain m e where x: "f_wf (F_Fin False m e)" "real_of_int m * 2 powi e = real_of_int n"
    by (rule small_int_float [OF assms(1,2)])
  obtain q f where y: "f_wf (F_Fin False q f)" "real_of_int q * 2 powi f = real_of_int k"
    by (rule small_int_float [of k]) (use assms in simp_all)
  have fx: "f_of_int n = F_Fin False m e" and fy: "f_of_int k = F_Fin False q f"
    using round_ratio_exact [OF x(1), of 1 n] round_ratio_exact [OF y(1), of 1 k] assms x(2) y(2)
    by (simp_all add: f_of_int_def)
  have q: "0 < q" using y assms(3) by (cases "q = 0") auto
  let ?a = "scale_num m (f - e)" and ?d = "scale_den q (f - e)"
  have "real_of_int ?a / real_of_int ?d = real_of_int m / real_of_int q * 2 powi (e - f)"
    using scale_ratio [OF q, of m "f - e"] by simp
  also have "\<dots> = (real_of_int m * 2 powi e) / (real_of_int q * 2 powi f)"
    by (simp add: power_int_diff)
  finally have "real_of_int ?a / real_of_int ?d = real_of_int n / real_of_int k" using x(2) y(2) by simp
  moreover have "0 \<le> ?a" "0 < ?d" using q x(1) by (simp_all add: scale_pos)
  ultimately show ?thesis using q
    by (intro exI [of _ ?a] exI [of _ ?d]) (simp add: fx fy)
qed

lemma round_ratio_small:
  assumes "0 \<le> n" "0 < d" "n < 2 ^ 53 * d"
  shows "\<exists>m e. round_ratio s n d = F_Fin s m e"
proof (cases "n = 0")
  case True
  then show ?thesis by (simp add: round_ratio_def)
next
  case False
  then have n: "0 < n" using assms(1) by simp
  have "real_of_int n / real_of_int d < 2 ^ 53"
    using assms(2,3) by (simp add: divide_less_eq)
  moreover have "2 powi ilog2 n d \<le> real_of_int n / real_of_int d" using ilog2_bounds [OF n assms(2)] by blast
  ultimately have "2 powi ilog2 n d < (2::real) powi 53" by simp
  then have "ilog2 n d < 53"
    using power_int_increasing [of 53 "ilog2 n d" "2::real"] by linarith
  then have "max min_exp (ilog2 n d - 52) + 1 \<le> max_exp" by (simp add: min_exp_def max_exp_def)
  then show ?thesis using False by (simp add: round_ratio_def Let_def)
qed

text \<open>How many of a unit make a second.\<close>

definition units_per_second :: "(string \<times> int) list" where
  "units_per_second =
     [(''nsec'', 1000000000), (''nsecs'', 1000000000), (''usec'', 1000000), (''usecs'', 1000000),
      (''msec'', 1000), (''msecs'', 1000), (''sec'', 1), (''secs'', 1)]"

lemma unitToSeconds_units:
  "unitToSeconds u x =
     (case map_of units_per_second (ToLower u) of
        None \<Rightarrow> None
      | Some k \<Rightarrow> Some (if k = 1 then x else f_div x (f_of_int k)))"
  by (simp add: unitToSeconds_def units_per_second_def Let_def)

lemma units_small: "map_of units_per_second u = Some k \<Longrightarrow> 0 < k \<and> k < 2 ^ 53"
  by (auto simp: units_per_second_def split: if_splits)

section \<open>Properties\<close>

text \<open>
  C19: An \<open>llite\<close> stats file as Lustre prints it, with a time stamp and any operation and byte
  counters below 2^53, is parsed into exactly the observations its lines mean, in order.
\<close>

theorem llite_stats_meaning:
  assumes "token ts" "list_all stat_ok ls"
  shows "ParseLLiteStats (stat_file ts ls) source component target =
           Inr (concat (map (llite_meaning source component target) ls))"
proof -
  have "ParseLLiteStats (stat_file ts ls) source component target =
      collect_all (llite_line source component target) (stat_header ts # map stat_text ls)"
    unfolding stat_file_def by (rule llite.parse_unlines) (rule stat_file_printed [OF assms])
  also have "\<dots> = collect_all (\<lambda>l. llite_line source component target (stat_text l)) ls"
    by (simp add: header_meaning [OF assms(1)] collect_all_map split: sum.split)
  also have "\<dots> = Inr (concat (map (llite_meaning source component target) ls))"
    using assms(2) by (intro collect_all_ok llite_line_meaning) (simp add: list_all_iff)
  finally show ?thesis .
qed

lemma llite_stats_meaning_witness:
  "ParseLLiteStats (stat_file ''1681000000.123456789'' [ByteStat True 7 4096 1048576 9000, OpStat ''open'' 42])
       ''p'' ''client'' ''scratch'' =
     Inr (concat (map (llite_meaning ''p'' ''client'' ''scratch'')
            [ByteStat True 7 4096 1048576 9000, OpStat ''open'' 42]))"
  by (rule llite_stats_meaning) (simp_all add: exact_def operation_name_def str_eval)

text \<open>
  C20: An \<open>mdc\<close> or \<open>osc\<close> stats file as Lustre prints it is parsed into exactly the observations its
  lines mean: an operation always counts, and one with times in a known unit also gives its sum in
  seconds.
\<close>

theorem obd_stats_meaning:
  assumes "token ts" "list_all stat_ok ls"
  shows "ParseOBDStats (stat_file ts ls) source component target ty =
           Inr (concat (map (obd_meaning source component target ty) ls))"
proof -
  have "ParseOBDStats (stat_file ts ls) source component target ty =
      collect_all (obd_line source component target ty) (stat_header ts # map stat_text ls)"
    unfolding stat_file_def by (rule obd.parse_unlines) (rule stat_file_printed [OF assms])
  also have "\<dots> = collect_all (\<lambda>l. obd_line source component target ty (stat_text l)) ls"
    by (simp add: header_meaning [OF assms(1)] collect_all_map split: sum.split)
  also have "\<dots> = Inr (concat (map (obd_meaning source component target ty) ls))"
    using assms(2) by (intro collect_all_ok obd_line_meaning) (simp add: list_all_iff)
  finally show ?thesis .
qed

lemma obd_stats_meaning_witness:
  "ParseOBDStats (stat_file ''1681000000.1'' [TimeStat ''req_waittime'' 200 ''usec'' 10 9000 500000])
       ''p'' ''client'' ''ost'' ''osc'' =
     Inr (concat (map (obd_meaning ''p'' ''client'' ''ost'' ''osc'')
            [TimeStat ''req_waittime'' 200 ''usec'' 10 9000 500000]))"
  by (rule obd_stats_meaning) (simp_all add: exact_def operation_name_def unit_name_def str_eval)

text \<open>
  C35: A sum of times below 2^53 in a known unit becomes the number of seconds nearest to it: the error
  is at most half a unit in the last place.
\<close>

theorem seconds_accuracy:
  assumes "map_of units_per_second (ToLower u) = Some k" "exact n"
  shows "\<exists>m e. unitToSeconds u (num n) = Some (F_Fin False m e) \<and>
           \<bar>real_of_int m * 2 powi e - real n / real_of_int k\<bar> \<le> 2 powi e / 2"
proof (cases "k = 1")
  case True
  obtain m e where x: "f_wf (F_Fin False m e)" "real_of_int m * 2 powi e = real_of_int (int n)"
    by (rule small_int_float [of "int n"]) (use assms(2) in \<open>simp_all add: exact_def\<close>)
  then have "num n = F_Fin False m e"
    using round_ratio_exact [OF x(1), of 1 "int n"] by (simp add: num_def f_of_int_def)
  with True assms(1) x(2) show ?thesis by (simp add: unitToSeconds_units)
next
  case False
  have k: "0 < k" "k < 2 ^ 53" using units_small [OF assms(1)] by auto
  have n: "0 \<le> int n" "int n < 2 ^ 53" using assms(2) by (simp_all add: exact_def)
  obtain a d where ad: "0 \<le> a" "0 < d" "f_div (num n) (f_of_int k) = round_ratio False a d"
    "real_of_int a / real_of_int d = real_of_int (int n) / real_of_int k"
    using f_div_small [OF n k] by (auto simp: num_def)
  have "real_of_int a / real_of_int d < 2 ^ 53"
  proof -
    have "real n \<le> real n * real_of_int k" using k(1) by (simp add: mult_le_cancel_left1)
    then have "real_of_int (int n) / real_of_int k \<le> real n" using k(1) by (simp add: divide_le_eq)
    moreover have "real n < 2 ^ 53" using assms(2) unfolding exact_def by (metis of_nat_less_numeral_power_cancel_iff)
    ultimately show ?thesis using ad(4) by linarith
  qed
  then have "real_of_int a < real_of_int (2 ^ 53 * d)" using ad(2) by (simp add: divide_less_eq)
  then have "a < 2 ^ 53 * d" by (simp only: of_int_less_iff)
  then obtain m e where r: "round_ratio False a d = F_Fin False m e"
    using round_ratio_small [OF ad(1,2)] by blast
  from round_ratio_error [OF ad(1,2) r] ad r False assms(1) show ?thesis
    by (simp add: unitToSeconds_units)
qed

lemma seconds_accuracy_witness:
  "\<exists>m e. unitToSeconds ''USEC'' (num 500001) = Some (F_Fin False m e) \<and>
     \<bar>real_of_int m * 2 powi e - real 500001 / real_of_int 1000000\<bar> \<le> 2 powi e / 2"
  by (rule seconds_accuracy) (simp_all add: units_per_second_def exact_def str_eval)

text \<open>
  A single-value file of \<open>mdc\<close> or \<open>osc\<close> that holds a number below 2^53 gives that number times
  the scale of the file, rounded once: \<open>max_dirty_mb\<close> is exact in bytes as long as that is below 2^53.
\<close>

theorem client_single_value:
  assumes "clientSingleFileMap fileName = Some (mid, hasType, scale)" "exact n"
  shows "ParseClientSingleFile (unlines [decimal n]) source fileName component target ty =
     Inr [obs ''client'' source mid Gauge
            ([''component'' \<mapsto> component, ''target'' \<mapsto> target] ++ (if hasType then [''type'' \<mapsto> ty] else Map.empty))
            (f_of_int (int n * scale))]"
proof -
  have "(fileName, mid, hasType, scale) \<in> set client_single_files"
    using assms(1) by (simp add: clientSingleFileMap_def map_of_SomeD)
  then have scale: "0 \<le> scale" "scale < 2 ^ 53" by (auto simp: client_single_files_def)
  have "printed (decimal n)" using printed_unwords [of "[decimal n]"] by (simp add: token_decimal)
  then have "TrimSpace (unlines [decimal n]) = decimal n"
    using TrimSpace_unlines [of "[decimal n]"] by simp
  moreover have "f_mul (num n) (f_of_int scale) = f_of_int (int n * scale)"
    using assms(2) scale unfolding num_def exact_def by (intro f_mul_of_int) simp_all
  ultimately show ?thesis
    using assms by (simp add: ParseClientSingleFile_def ParseFloat_exact Let_def client_labels_def)
qed

lemma client_single_value_witness:
  "ParseClientSingleFile (unlines [decimal 32]) ''p'' ''max_dirty_mb'' ''client'' ''ost'' ''osc'' =
     Inr [obs ''client'' ''p'' ''osc_max_dirty_bytes'' Gauge
            ([''component'' \<mapsto> ''client'', ''target'' \<mapsto> ''ost''] ++ (if False then [''type'' \<mapsto> ''osc''] else Map.empty))
            (f_of_int (int 32 * 1048576))]"
  by (rule client_single_value) (simp_all add: clientSingleFileMap_def client_single_files_def exact_def)

text \<open>The lines of an import file that name the current state, and those the fallback looks at.\<close>

definition current_states :: "string \<Rightarrow> string list" where
  "current_states data =
     concat (map (\<lambda>l. case CutPrefix (TrimSpace l) ''current_state:'' of
                        Some rest \<Rightarrow> [firstToken rest] | None \<Rightarrow> []) (lines data))"

definition other_states :: "string \<Rightarrow> string list" where
  "other_states data =
     filter (\<lambda>s. s \<noteq> [])
       (map (\<lambda>l. firstToken (TrimSpace l))
         (filter (\<lambda>l. \<not> HasPrefix (TrimSpace l) ''state_history:'' \<and> \<not> HasPrefix (TrimSpace l) ''- ['')
           (lines data)))"

lemma import_found:
  "foundCurrent st \<Longrightarrow>
     foundCurrent (foldl import_line st ls) \<and>
     current (foldl import_line st ls) =
       last (current st # concat (map (\<lambda>l. case CutPrefix (TrimSpace l) ''current_state:'' of
                        Some rest \<Rightarrow> [firstToken rest] | None \<Rightarrow> []) ls))"
proof (induction ls arbitrary: st)
  case (Cons l ls)
  show ?case
    using Cons.prems Cons.IH [of "import_line st l"]
    by (cases "CutPrefix (TrimSpace l) ''current_state:''") (auto simp: import_line_def Let_def)
qed simp

lemma import_fold:
  "\<not> foundCurrent st \<Longrightarrow>
     (let cs = concat (map (\<lambda>l. case CutPrefix (TrimSpace l) ''current_state:'' of
                        Some rest \<Rightarrow> [firstToken rest] | None \<Rightarrow> []) ls);
          fs = filter (\<lambda>s. s \<noteq> []) (map (\<lambda>l. firstToken (TrimSpace l))
                 (filter (\<lambda>l. \<not> HasPrefix (TrimSpace l) ''state_history:'' \<and>
                              \<not> HasPrefix (TrimSpace l) ''- ['') ls));
          st' = foldl import_line st ls
      in (foundCurrent st' \<longleftrightarrow> cs \<noteq> []) \<and> (cs \<noteq> [] \<longrightarrow> current st' = last cs) \<and>
         (cs = [] \<longrightarrow> fallback st' =
            (if fallback st \<noteq> [] then fallback st else case fs of [] \<Rightarrow> [] | s # _ \<Rightarrow> s)))"
proof (induction ls arbitrary: st)
  case (Cons l ls)
  show ?case
  proof (cases "CutPrefix (TrimSpace l) ''current_state:''")
    case (Some rest)
    then have f: "foundCurrent (import_line st l)" "current (import_line st l) = firstToken rest"
      by (simp_all add: import_line_def Let_def)
    from import_found [OF f(1), of ls] f(2) Some show ?thesis by (simp add: Let_def)
  next
    case None
    then have nf: "\<not> foundCurrent (import_line st l)" using Cons.prems by (simp add: import_line_def Let_def)
    have fb: "fallback (import_line st l) =
        (if fallback st \<noteq> [] then fallback st
         else if \<not> HasPrefix (TrimSpace l) ''state_history:'' \<and> \<not> HasPrefix (TrimSpace l) ''- [''
         then firstToken (TrimSpace l) else [])"
      using None Cons.prems by (simp add: import_line_def Let_def firstToken_def)
    from Cons.IH [OF nf] show ?thesis by (simp add: None Let_def fb)
  qed
qed (simp add: Let_def split: if_splits)

text \<open>
  C36: The observed import state is the token after the last \<open>current_state:\<close>; without such a line it is
  the first token of the first line that is neither blank nor part of the history; no state, no
  observation.
\<close>

theorem import_state_observed:
  "ParseClientState data source component target ty =
     (let st = (if current_states data \<noteq> [] then last (current_states data)
                else case other_states data of [] \<Rightarrow> [] | s # _ \<Rightarrow> s) in
      Inr (if st = [] then []
           else [obs ''client'' source ''target_state'' Gauge
                   [''component'' \<mapsto> component, ''target'' \<mapsto> target, ''type'' \<mapsto> ty, ''state'' \<mapsto> st]
                   (f_of_int 1)]))"
proof -
  have "observed_state data = (if current_states data \<noteq> [] then last (current_states data)
                else case other_states data of [] \<Rightarrow> [] | s # _ \<Rightarrow> s)"
    using import_fold [of import_init "lines data"]
    by (simp add: observed_state_def current_states_def other_states_def import_init_def Let_def)
  then show ?thesis by (simp add: ParseClientState_def Let_def client_labels_def)
qed

end
