(* ===== verification/Parser_RPC.thy ===== *)
theory Parser_RPC
  imports Mapper
begin

text \<open>
  \<^verbatim>\<open>internal/parser/rpc.go\<close>: the parser of \<open>rpc_stats\<close> files.  The loop over the lines carries the
  current section (\<open>rpc_section\<close>); each line may be a scalar, a header that changes the section, a
  bucket of the current histogram, or noise.
\<close>

section \<open>The section state\<close>

record rpc_section =
  name :: string
  operation :: string
  pendingOperation :: string

definition rpc_init :: rpc_section where
  "rpc_init = \<lparr>name = [], operation = [], pendingOperation = []\<rparr>"

definition enter :: "rpc_section \<Rightarrow> string \<Rightarrow> string \<Rightarrow> rpc_section" where
  "enter s nm opn = s\<lparr>name := nm, operation := opn, pendingOperation := []\<rparr>"

text \<open>The new state and whether the line was a header.\<close>

definition applyHeader :: "rpc_section \<Rightarrow> string \<Rightarrow> rpc_section \<times> bool" where
  "applyHeader s line =
     (if line = ''modify'' then (s\<lparr>pendingOperation := ''modify''\<rparr>, True)
      else if HasPrefix line ''pages per rpc'' then (enter s ''pages_per_rpc'' [], True)
      else if HasPrefix line ''rpcs in flight'' then (enter s ''rpcs_in_flight'' (pendingOperation s), True)
      else if HasPrefix line ''dio read RPCs in flight:'' then (enter s ''rpcs_in_flight'' ''dio_read'', True)
      else if HasPrefix line ''dio write RPCs in flight:'' then (enter s ''rpcs_in_flight'' ''dio_write'', True)
      else if HasPrefix line ''read RPCs in flight:'' then (enter s ''rpcs_in_flight'' ''read'', True)
      else if HasPrefix line ''write RPCs in flight:'' then (enter s ''rpcs_in_flight'' ''write'', True)
      else if HasPrefix line ''offset'' then (enter s ''rpcs_offset'' [], True)
      else if Contains line ''read'' \<and> Contains line ''write'' then (s\<lparr>pendingOperation := []\<rparr>, True)
      else (s, False))"

section \<open>Scalars and buckets\<close>

definition rpc_scalar_labels :: "(string \<times> string \<times> string) list" where
  "rpc_scalar_labels =
     [(''modify_rpcs_in_flight'', ''rpcs_current'', ''modify''),
      (''dio read rpcs in flight'', ''rpcs_current'', ''dio_read''),
      (''dio write rpcs in flight'', ''rpcs_current'', ''dio_write''),
      (''read rpcs in flight'', ''rpcs_current'', ''read''),
      (''write rpcs in flight'', ''rpcs_current'', ''write''),
      (''pending read pages'', ''pending_pages'', ''read''),
      (''pending write pages'', ''pending_pages'', ''write'')]"

text \<open>Metric ID, operation and value of a scalar line.\<close>

definition parseRPCScalar :: "string \<Rightarrow> (string \<times> string \<times> float64) option" where
  "parseRPCScalar line =
     (case cut_first CHR '':'' line of
        None \<Rightarrow> None
      | Some (before, after) \<Rightarrow>
          let label = ToLower (TrimSpace before); fs = Fields after in
          if length fs = 0 then None
          else (case ParseFloat (fs ! 0) of
                  Inl e \<Rightarrow> None
                | Inr v \<Rightarrow>
                    (case map_of rpc_scalar_labels label of
                       None \<Rightarrow> None
                     | Some (metricID, opn) \<Rightarrow> Some (metricID, opn, v))))"

definition isRPCBucketLine :: "string \<Rightarrow> bool" where
  "isRPCBucketLine line =
     (let fs = Fields line in if length fs = 0 then False else HasSuffix (fs ! 0) '':'')"

text \<open>The write column: \<open>None\<close> when the line has none.\<close>

definition parseRPCWriteValue :: "string list \<Rightarrow> float64 option result" where
  "parseRPCWriteValue fs =
     (let writeIndex = (if 4 < length fs \<and> fs ! 4 = ''|'' then 5 else 4) in
      if length fs \<le> writeIndex then Inr None
      else bind_res (ParseFloat (fs ! writeIndex)) (\<lambda>v. Inr (Some v)))"

definition rpcLineOperations :: "float64 \<Rightarrow> float64 option \<Rightarrow> string \<Rightarrow> (string \<times> float64) list" where
  "rpcLineOperations readVal writeVal singleOperation =
     (case writeVal of
        Some w \<Rightarrow> [(''read'', readVal), (''write'', w)]
      | None \<Rightarrow>
          if singleOperation \<noteq> [] then [(singleOperation, readVal)] else [(''read'', readVal)])"

definition rpcSectionMetric :: "string \<Rightarrow> string \<times> metric_type" where
  "rpcSectionMetric sec =
     (if sec = ''pages_per_rpc'' then (''pages_per_rpc_total'', Counter)
      else if sec = ''rpcs_in_flight'' then (''rpcs_in_flight'', Gauge)
      else if sec = ''rpcs_offset'' then (''rpcs_offset'', Gauge)
      else ([], Counter))"

definition bucket_labels ::
  "string \<Rightarrow> string \<Rightarrow> string \<Rightarrow> string \<Rightarrow> string \<Rightarrow> string \<Rightarrow> (string \<rightharpoonup> string)" where
  "bucket_labels component target rpcType sec opn sz =
     (let labels = [''component'' \<mapsto> component, ''target'' \<mapsto> target,
                    ''operation'' \<mapsto> opn, ''size'' \<mapsto> sz]
      in if sec = ''rpcs_in_flight'' then labels(''type'' \<mapsto> rpcType) else labels)"

definition parseRPCLine ::
  "string \<Rightarrow> string \<Rightarrow> string \<Rightarrow> string \<Rightarrow> string \<Rightarrow> string \<Rightarrow> string \<Rightarrow> observation list result" where
  "parseRPCLine line source component target rpcType sec singleOperation =
     (let fs = Fields line in
      if length fs < 2 then Inl (Errorf ''expected at least 2 fields, got %d'' [ArgN (length fs)] [])
      else
        let sz = TrimSuffix (fs ! 0) '':'' in
        bind_res (ParseFloat (fs ! 1)) (\<lambda>readVal.
        bind_res (parseRPCWriteValue fs) (\<lambda>writeVal.
          let (metricID, mt) = rpcSectionMetric sec in
          Inr (map (\<lambda>(opn, v). obs ''client'' source metricID mt
                      (bucket_labels component target rpcType sec opn sz) v)
                 (rpcLineOperations readVal writeVal singleOperation)))))"

section \<open>The loop\<close>

definition scalar_obs ::
  "string \<Rightarrow> string \<Rightarrow> string \<Rightarrow> string \<Rightarrow> string \<times> string \<times> float64 \<Rightarrow> observation" where
  "scalar_obs source component target rpcType sc =
     (case sc of (metricID, opn, v) \<Rightarrow>
        obs ''client'' source metricID Gauge
          [''component'' \<mapsto> component, ''target'' \<mapsto> target, ''type'' \<mapsto> rpcType, ''operation'' \<mapsto> opn] v)"

text \<open>One iteration: the section after the line, and what the line contributes.\<close>

definition rpc_step ::
  "string \<Rightarrow> string \<Rightarrow> string \<Rightarrow> string \<Rightarrow> rpc_section \<Rightarrow> string \<Rightarrow> rpc_section \<times> observation list result" where
  "rpc_step source component target rpcType s raw =
     (let line = TrimSpace raw in
      if line = [] \<or> HasPrefix line ''snapshot_time'' then (s, Inr [])
      else
        let scalar = parseRPCScalar line;
            scalars = (case scalar of None \<Rightarrow> [] | Some sc \<Rightarrow> [scalar_obs source component target rpcType sc]);
            (s', isHeader) = applyHeader s line
        in if isHeader \<or> scalar \<noteq> None \<or> name s' = [] \<or> \<not> isRPCBucketLine line then (s', Inr scalars)
           else (s', bind_res
                       (map_err (\<lambda>e. Errorf ''rpc stats %s: %q: %w'' [ArgS (name s'), ArgS line] [e])
                          (parseRPCLine line source component target rpcType (name s') (operation s')))
                       (\<lambda>os. Inr (scalars @ os))))"

fun rpc_loop ::
  "string \<Rightarrow> string \<Rightarrow> string \<Rightarrow> string \<Rightarrow> rpc_section \<Rightarrow> string list \<Rightarrow> observation list result" where
  "rpc_loop source component target rpcType s [] = Inr []"
| "rpc_loop source component target rpcType s (l # ls) =
     (case rpc_step source component target rpcType s l of
        (s', r) \<Rightarrow>
          (case r of
             Inl e \<Rightarrow> Inl e
           | Inr os \<Rightarrow>
               (case rpc_loop source component target rpcType s' ls of
                  Inl e \<Rightarrow> Inl e
                | Inr os' \<Rightarrow> Inr (os @ os'))))"

definition ParseRPCStats ::
  "string \<Rightarrow> string \<Rightarrow> string \<Rightarrow> string \<Rightarrow> string \<Rightarrow> observation list result" where
  "ParseRPCStats data source component target rpcType =
     rpc_loop source component target rpcType rpc_init (lines data)"

section \<open>The section invariant\<close>

text \<open>
  The section name is one of the three histograms or, before the first header, empty; a bucket is
  parsed only in a section, so its metric is always registered.
\<close>

definition rpc_section_ok :: "rpc_section \<Rightarrow> bool" where
  "rpc_section_ok s \<longleftrightarrow> name s \<in> {[], ''pages_per_rpc'', ''rpcs_in_flight'', ''rpcs_offset''}"

lemma rpc_init_ok: "rpc_section_ok rpc_init"
  by (simp add: rpc_section_ok_def rpc_init_def)

lemma applyHeader_ok: "rpc_section_ok s \<Longrightarrow> rpc_section_ok (fst (applyHeader s line))"
  by (simp add: applyHeader_def enter_def rpc_section_ok_def)

lemma rpc_step_fst:
  "fst (rpc_step source component target rpcType s raw) =
     (let line = TrimSpace raw in
      if line = [] \<or> HasPrefix line ''snapshot_time'' then s else fst (applyHeader s line))"
  by (simp add: rpc_step_def Let_def split: prod.split)

lemma rpc_step_ok: "rpc_section_ok s \<Longrightarrow> rpc_section_ok (fst (rpc_step source component target rpcType s raw))"
  by (simp add: rpc_step_fst Let_def applyHeader_ok)

lemmas rpc_metric_defs =
  m_pages_per_rpc_total_def m_rpcs_in_flight_def m_rpcs_offset_def m_rpcs_current_def m_pending_pages_def

lemma rpc_scalar_registered:
  "map_of rpc_scalar_labels l = Some (i, opn) \<Longrightarrow> i = ''rpcs_current'' \<or> i = ''pending_pages''"
  by (auto simp: rpc_scalar_labels_def split: if_splits)

lemma scalar_obs_conforms:
  assumes "parseRPCScalar line = Some sc"
  shows "conforms (scalar_obs source component target rpcType sc)"
proof -
  obtain i opn v where sc: "sc = (i, opn, v)" by (cases sc)
  with assms obtain l where "map_of rpc_scalar_labels l = Some (i, opn)"
    by (auto simp: parseRPCScalar_def Let_def split: option.splits sum.splits if_splits)
  then show ?thesis
    by (auto simp: sc scalar_obs_def rpc_metric_defs dest!: rpc_scalar_registered)
qed

lemma bucket_conforms:
  assumes "sec = ''pages_per_rpc'' \<or> sec = ''rpcs_in_flight'' \<or> sec = ''rpcs_offset''"
  shows "conforms (obs ''client'' source (fst (rpcSectionMetric sec)) mt
           (bucket_labels component target rpcType sec opn sz) v)"
  using assms
  by (elim disjE) (auto simp: rpcSectionMetric_def bucket_labels_def rpc_metric_defs)

lemma parseRPCLine_conforms:
  assumes "sec \<in> {''pages_per_rpc'', ''rpcs_in_flight'', ''rpcs_offset''}"
    and "parseRPCLine line source component target rpcType sec single = Inr os"
  shows "all_conform os"
proof -
  obtain rv wv where os: "os = map (\<lambda>(opn, v). obs ''client'' source (fst (rpcSectionMetric sec))
      (snd (rpcSectionMetric sec))
      (bucket_labels component target rpcType sec opn (TrimSuffix (Fields line ! 0) '':'')) v)
      (rpcLineOperations rv wv single)"
    using assms(2)
    by (cases "rpcSectionMetric sec") (auto simp: parseRPCLine_def Let_def res_iff split: if_splits)
  have "sec = ''pages_per_rpc'' \<or> sec = ''rpcs_in_flight'' \<or> sec = ''rpcs_offset''"
    using assms(1) by blast
  note c = bucket_conforms [OF this]
  show ?thesis unfolding os all_conform_def by (auto simp only: set_map prod.case c)
qed

lemma rpc_step_conforms:
  assumes "rpc_section_ok s" "snd (rpc_step source component target rpcType s raw) = Inr os"
  shows "all_conform os"
proof -
  define line where "line = TrimSpace raw"
  obtain s' h where ah: "applyHeader s line = (s', h)" by (cases "applyHeader s line")
  have ok: "rpc_section_ok s'" using applyHeader_ok [OF assms(1), of line] ah by simp
  show ?thesis
  proof (cases "parseRPCScalar line")
    case (Some sc)
    with assms(2) have "os = [] \<or> os = [scalar_obs source component target rpcType sc]"
      by (cases sc) (auto simp: rpc_step_def Let_def line_def [symmetric] ah split: if_splits)
    with scalar_obs_conforms [OF Some] show ?thesis by auto
  next
    case None
    show ?thesis
    proof (cases "line = [] \<or> HasPrefix line ''snapshot_time'' \<or> h \<or> name s' = [] \<or> \<not> isRPCBucketLine line")
      case True
      with assms(2) None have "os = []"
        by (auto simp: rpc_step_def Let_def line_def [symmetric] ah split: if_splits)
      then show ?thesis by simp
    next
      case False
      with assms(2) None
      have "parseRPCLine line source component target rpcType (name s') (operation s') = Inr os"
        by (auto simp: rpc_step_def Let_def line_def [symmetric] ah res_iff split: if_splits)
      moreover have "name s' \<in> {''pages_per_rpc'', ''rpcs_in_flight'', ''rpcs_offset''}"
        using ok False by (auto simp: rpc_section_ok_def)
      ultimately show ?thesis by (intro parseRPCLine_conforms)
    qed
  qed
qed

lemma rpc_loop_conforms:
  "rpc_section_ok s \<Longrightarrow> rpc_loop source component target rpcType s ls = Inr os \<Longrightarrow> all_conform os"
proof (induction ls arbitrary: s os)
  case (Cons l ls)
  obtain s' r where st: "rpc_step source component target rpcType s l = (s', r)"
    by (cases "rpc_step source component target rpcType s l")
  from Cons.prems(2) st obtain os1 os2 where
    r: "r = Inr os1" "rpc_loop source component target rpcType s' ls = Inr os2" "os = os1 @ os2"
    by (auto split: sum.splits)
  have "rpc_section_ok s'" using rpc_step_ok [OF Cons.prems(1), of source component target rpcType l] st by simp
  with Cons.IH r(2) have "all_conform os2" by blast
  moreover have "all_conform os1"
    using rpc_step_conforms [OF Cons.prems(1), of source component target rpcType l] st r(1) by simp
  ultimately show ?case using r(3) by simp
qed simp

interpretation rpc: observation_source "\<lambda>d. ParseRPCStats d source component target rpcType"
  for source component target rpcType
  by unfold_locales (auto simp: ParseRPCStats_def intro: rpc_loop_conforms rpc_init_ok)

section \<open>A description without state\<close>

text \<open>The kinds of header lines, and the section that a sequence of headers leads to.\<close>

datatype rpc_header =
    Modify
  | PagesPerRPC
  | InFlight
  | InFlightOf string
  | Offset
  | Columns

definition classify :: "string \<Rightarrow> rpc_header option" where
  "classify l =
     (if l = ''modify'' then Some Modify
      else if HasPrefix l ''pages per rpc'' then Some PagesPerRPC
      else if HasPrefix l ''rpcs in flight'' then Some InFlight
      else if HasPrefix l ''dio read RPCs in flight:'' then Some (InFlightOf ''dio_read'')
      else if HasPrefix l ''dio write RPCs in flight:'' then Some (InFlightOf ''dio_write'')
      else if HasPrefix l ''read RPCs in flight:'' then Some (InFlightOf ''read'')
      else if HasPrefix l ''write RPCs in flight:'' then Some (InFlightOf ''write'')
      else if HasPrefix l ''offset'' then Some Offset
      else if Contains l ''read'' \<and> Contains l ''write'' then Some Columns
      else None)"

text \<open>The headers come latest first.  Only a \<open>modify\<close> line right before it names the operation.\<close>

fun section_of :: "rpc_header list \<Rightarrow> string \<times> string" where
  "section_of [] = ([], [])"
| "section_of (PagesPerRPC # hs) = (''pages_per_rpc'', [])"
| "section_of (InFlight # hs) =
     (''rpcs_in_flight'', case hs of Modify # _ \<Rightarrow> ''modify'' | _ \<Rightarrow> [])"
| "section_of (InFlightOf opn # hs) = (''rpcs_in_flight'', opn)"
| "section_of (Offset # hs) = (''rpcs_offset'', [])"
| "section_of (Modify # hs) = section_of hs"
| "section_of (Columns # hs) = section_of hs"

definition rpc_noise :: "string \<Rightarrow> bool" where
  "rpc_noise l \<longleftrightarrow> l = [] \<or> HasPrefix l ''snapshot_time''"

definition headers_of :: "string list \<Rightarrow> rpc_header list" where
  "headers_of ls =
     concat (map (\<lambda>l. let t = TrimSpace l in
        if rpc_noise t then [] else case classify t of None \<Rightarrow> [] | Some h \<Rightarrow> [h]) ls)"

text \<open>What a line contributes, given the headers up to and including it.\<close>

definition rpc_line_meaning ::
  "string \<Rightarrow> string \<Rightarrow> string \<Rightarrow> string \<Rightarrow> rpc_header list \<Rightarrow> string \<Rightarrow> observation list result" where
  "rpc_line_meaning source component target rpcType hs raw =
     (let l = TrimSpace raw; (sec, opn) = section_of (rev hs) in
      if rpc_noise l then Inr []
      else case parseRPCScalar l of
        Some sc \<Rightarrow> Inr [scalar_obs source component target rpcType sc]
      | None \<Rightarrow>
          if classify l \<noteq> None \<or> sec = [] \<or> \<not> isRPCBucketLine l then Inr []
          else map_err (\<lambda>e. Errorf ''rpc stats %s: %q: %w'' [ArgS sec, ArgS l] [e])
                 (parseRPCLine l source component target rpcType sec opn))"

definition state_of :: "rpc_header list \<Rightarrow> rpc_section" where
  "state_of hs =
     \<lparr>name = fst (section_of (rev hs)), operation = snd (section_of (rev hs)),
      pendingOperation = (case rev hs of Modify # _ \<Rightarrow> ''modify'' | _ \<Rightarrow> [])\<rparr>"

lemma applyHeader_classify:
  "applyHeader (state_of hs) l =
     (case classify l of None \<Rightarrow> (state_of hs, False) | Some h \<Rightarrow> (state_of (hs @ [h]), True))"
  by (simp add: applyHeader_def classify_def state_of_def enter_def)

lemma headers_snoc:
  "headers_of [raw] =
     (let t = TrimSpace raw in
      if rpc_noise t then [] else case classify t of None \<Rightarrow> [] | Some h \<Rightarrow> [h])"
  by (simp add: headers_of_def)

lemma headers_Cons: "headers_of (l # ls) = headers_of [l] @ headers_of ls"
  by (simp add: headers_of_def)

lemma rpc_step_meaning:
  "rpc_step source component target rpcType (state_of hs) raw =
     (state_of (hs @ headers_of [raw]),
      rpc_line_meaning source component target rpcType (hs @ headers_of [raw]) raw)"
proof -
  define l where "l = TrimSpace raw"
  show ?thesis
  proof (cases "rpc_noise l")
    case True
    then show ?thesis
      by (simp add: rpc_step_def headers_snoc rpc_line_meaning_def l_def [symmetric] Let_def
          rpc_noise_def split: prod.split)
  next
    case False
    have st: "name (state_of g) = fst (section_of (rev g))" "operation (state_of g) = snd (section_of (rev g))"
      for g by (simp_all add: state_of_def)
    from False have nn: "l \<noteq> []" "\<not> HasPrefix l ''snapshot_time''" by (auto simp: rpc_noise_def)
    show ?thesis
      by (cases "classify l"; cases "parseRPCScalar l"; cases "parseRPCLine l source component target rpcType
            (fst (section_of (rev hs))) (snd (section_of (rev hs)))")
         (simp_all add: rpc_step_def headers_snoc rpc_line_meaning_def l_def [symmetric] Let_def
            False nn applyHeader_classify st split_beta del: not_None_eq)
  qed
qed

lemma rpc_loop_meaning:
  "rpc_loop source component target rpcType (state_of hs) ls =
     collect_all (\<lambda>i. rpc_line_meaning source component target rpcType
                        (hs @ headers_of (take (Suc i) ls)) (ls ! i)) [0..<length ls]"
proof (induction ls arbitrary: hs)
  case (Cons l ls)
  have "[0..<length (l # ls)] = 0 # map Suc [0..<length ls]"
    by (simp add: map_Suc_upt upt_conv_Cons del: upt_Suc)
  moreover have "headers_of (take (Suc (Suc i)) (l # ls)) = headers_of [l] @ headers_of (take (Suc i) ls)" for i
    unfolding take_Suc_Cons by (rule headers_Cons)
  ultimately show ?case
    by (simp add: rpc_step_meaning Cons.IH collect_all_map split: sum.split del: upt_Suc)
qed simp

text \<open>
  C18: Which histogram a line of an \<open>rpc_stats\<close> file belongs to, and under which operation it counts,
  is decided by the header lines above it alone: the parser yields, line by line, what each line
  means below the headers up to it.
\<close>

theorem rpc_stats_meaning:
  "ParseRPCStats data source component target rpcType =
     (let ls = lines data in
      collect_all (\<lambda>i. rpc_line_meaning source component target rpcType
                         (headers_of (take (Suc i) ls)) (ls ! i)) [0..<length ls])"
  using rpc_loop_meaning [of source component target rpcType "[]" "lines data"]
  by (simp add: ParseRPCStats_def state_of_def rpc_init_def Let_def)

definition bucket_words :: "string \<Rightarrow> bool \<Rightarrow> nat \<Rightarrow> nat \<Rightarrow> nat \<Rightarrow> nat option \<Rightarrow> string list" where
  "bucket_words sz bar r p c w =
     [sz @ '':'', decimal r, decimal p, decimal c] @
     (case w of None \<Rightarrow> []
      | Some v \<Rightarrow> (if bar then [''|''] else []) @ [decimal v, decimal p, decimal c])"

definition bucket_obs ::
  "string \<Rightarrow> string \<Rightarrow> string \<Rightarrow> string \<Rightarrow> string \<Rightarrow> string \<Rightarrow> string \<Rightarrow> nat \<Rightarrow> observation" where
  "bucket_obs source component target rpcType sec sz opn n =
     obs ''client'' source (fst (rpcSectionMetric sec)) (snd (rpcSectionMetric sec))
       ([''component'' \<mapsto> component, ''target'' \<mapsto> target, ''operation'' \<mapsto> opn, ''size'' \<mapsto> sz] ++
        (if sec = ''rpcs_in_flight'' then [''type'' \<mapsto> rpcType] else Map.empty))
       (f_of_int (int n))"

definition bucket_ok :: "string \<Rightarrow> nat \<Rightarrow> nat option \<Rightarrow> bool" where
  "bucket_ok sz r w \<longleftrightarrow>
     token sz \<and> r < 2 ^ 53 \<and> (case w of None \<Rightarrow> True | Some v \<Rightarrow> v < 2 ^ 53)"

lemma decimal_not_bar: "decimal n \<noteq> ''|''"
  using decimal_digits [of n] by (auto simp: is_digit_def)

lemma bucket_words_tokens: "bucket_ok sz r w \<Longrightarrow> list_all token (bucket_words sz bar r p c w)"
proof -
  assume "bucket_ok sz r w"
  then have "token (sz @ '':'')"
    by (auto simp: bucket_ok_def token_def graphic_def is_ascii_def ascii_space_def)
  moreover have "token ''|''" by (simp add: token_def graphic_def is_ascii_def ascii_space_def)
  ultimately show ?thesis by (simp add: bucket_words_def token_decimal split: option.split)
qed

text \<open>
  A bucket line with a read and a write column, with or without the bar between them, gives the
  read and the write value of its size; a line with one column gives its value under the operation
  of the section, or under \<open>read\<close> when the section has none.
\<close>

lemma rpc_bucket_meaning:
  assumes "bucket_ok sz r w"
  shows "parseRPCLine (unwords (bucket_words sz bar r p c w)) source component target rpcType sec opn =
     Inr (case w of
            Some v \<Rightarrow> [bucket_obs source component target rpcType sec sz ''read'' r,
                       bucket_obs source component target rpcType sec sz ''write'' v]
          | None \<Rightarrow> [bucket_obs source component target rpcType sec sz
                       (if opn = [] then ''read'' else opn) r])"
proof -
  have fs: "Fields (unwords (bucket_words sz bar r p c w)) = bucket_words sz bar r p c w"
    by (rule Fields_unwords) (rule bucket_words_tokens [OF assms])
  have sz: "TrimSuffix (sz @ '':'') '':'' = sz" by (simp add: TrimSuffix_def HasSuffix_def)
  have r: "ParseFloat (decimal r) = Inr (f_of_int (int r))"
    using assms by (simp add: bucket_ok_def ParseFloat_small)
  obtain i t where m: "rpcSectionMetric sec = (i, t)" by (cases "rpcSectionMetric sec")
  show ?thesis
  proof (cases w)
    case None
    with m show ?thesis
      unfolding parseRPCLine_def Let_def fs
      by (simp add: bucket_words_def parseRPCWriteValue_def rpcLineOperations_def sz r bucket_obs_def
          bucket_labels_def Let_def)
  next
    case (Some v)
    then have v: "ParseFloat (decimal v) = Inr (f_of_int (int v))"
      using assms by (simp add: bucket_ok_def ParseFloat_small)
    with Some m show ?thesis
      unfolding parseRPCLine_def Let_def fs
      by (cases bar) (simp_all add: bucket_words_def parseRPCWriteValue_def rpcLineOperations_def sz r
          bucket_obs_def bucket_labels_def Let_def decimal_not_bar)
  qed
qed

lemma rpc_bucket_meaning_witness:
  "parseRPCLine (unwords (bucket_words ''1'' True 147535 93 93 (Some 148562)))
       ''p'' ''client'' ''ost'' ''osc'' ''pages_per_rpc'' [] =
     Inr (case Some 148562 of
            Some v \<Rightarrow> [bucket_obs ''p'' ''client'' ''ost'' ''osc'' ''pages_per_rpc'' ''1'' ''read'' 147535,
                       bucket_obs ''p'' ''client'' ''ost'' ''osc'' ''pages_per_rpc'' ''1'' ''write'' v]
          | None \<Rightarrow> [bucket_obs ''p'' ''client'' ''ost'' ''osc'' ''pages_per_rpc'' ''1''
                       (if [] = ([] :: string) then ''read'' else []) 147535])"
  by (rule rpc_bucket_meaning) (simp add: bucket_ok_def str_eval)

text \<open>
  Every observation of an \<open>rpc_stats\<close> file is in the contract: it is mapped without an error, and
  the label values the mapper puts in the order of the contract are exactly its labels.
\<close>

theorem rpc_stats_mapped:
  assumes "ParseRPCStats data source component target rpcType = Inr os" "ob \<in> set os"
  shows "\<exists>m. map_observation ob = Inr [m] \<and>
           map_of (zip (LabelKeys (Def m)) (LabelVals m)) = Labels ob \<and> MValue m = Value ob"
  using assms by (rule rpc.mapped_labels)

lemma parse_seven: "ParseFloat ''7'' = Inr (f_of_int 7)"
  by code_simp

lemma rpc_demo:
  "ParseRPCStats (unlines [''pending read pages:   7'']) ''p'' ''client'' ''ost'' ''osc'' =
     Inr [scalar_obs ''p'' ''client'' ''ost'' ''osc'' (''pending_pages'', ''read'', f_of_int 7)]"
  by (simp add: ParseRPCStats_def rpc_step_def rpc_init_def parseRPCScalar_def rpc_scalar_labels_def
      applyHeader_def parse_seven str_eval)

lemma rpc_stats_mapped_witness:
  "\<exists>m. map_observation (scalar_obs ''p'' ''client'' ''ost'' ''osc'' (''pending_pages'', ''read'', f_of_int 7)) = Inr [m] \<and>
     map_of (zip (LabelKeys (Def m)) (LabelVals m)) =
       Labels (scalar_obs ''p'' ''client'' ''ost'' ''osc'' (''pending_pages'', ''read'', f_of_int 7)) \<and>
     MValue m = Value (scalar_obs ''p'' ''client'' ''ost'' ''osc'' (''pending_pages'', ''read'', f_of_int 7))"
  by (rule rpc_stats_mapped [OF rpc_demo]) simp

definition type_agrees :: "observation \<Rightarrow> bool" where
  "type_agrees ob \<longleftrightarrow> MetricType ob = Type (the (Registry (MetricID ob)))"

definition type_as_expected :: "observation \<Rightarrow> bool" where
  "type_as_expected ob \<longleftrightarrow>
     (type_agrees ob \<longleftrightarrow> MetricID ob \<noteq> ''rpcs_in_flight'' \<and> MetricID ob \<noteq> ''rpcs_offset'')"

lemma section_of_range:
  "fst (section_of hs) = [] \<or> fst (section_of hs) = ''pages_per_rpc'' \<or>
   fst (section_of hs) = ''rpcs_in_flight'' \<or> fst (section_of hs) = ''rpcs_offset''"
  by (induction hs rule: section_of.induct) simp_all

lemma scalar_type:
  assumes "parseRPCScalar l = Some sc"
  shows "type_as_expected (scalar_obs source component target rpcType sc)"
proof -
  obtain i opn v where sc: "sc = (i, opn, v)" by (cases sc)
  with assms obtain k where "map_of rpc_scalar_labels k = Some (i, opn)"
    by (auto simp: parseRPCScalar_def Let_def split: option.splits sum.splits if_splits)
  then have "i = ''rpcs_current'' \<or> i = ''pending_pages''" by (rule rpc_scalar_registered)
  then show ?thesis
    by (elim disjE)
       (simp_all add: sc scalar_obs_def type_as_expected_def type_agrees_def rpc_metric_defs)
qed

lemma bucket_type:
  assumes "sec = ''pages_per_rpc'' \<or> sec = ''rpcs_in_flight'' \<or> sec = ''rpcs_offset''"
    and "parseRPCLine l source component target rpcType sec opn = Inr os" "ob \<in> set os"
  shows "type_as_expected ob"
proof -
  have "MetricID ob = fst (rpcSectionMetric sec) \<and> MetricType ob = snd (rpcSectionMetric sec)"
    using assms(2,3)
    by (cases "rpcSectionMetric sec") (auto simp: parseRPCLine_def Let_def res_iff split: if_splits)
  with assms(1) show ?thesis
    by (elim disjE) (simp_all add: type_as_expected_def type_agrees_def rpcSectionMetric_def rpc_metric_defs)
qed

lemma line_type:
  assumes "rpc_line_meaning source component target rpcType hs raw = Inr os" "ob \<in> set os"
  shows "type_as_expected ob"
proof -
  define l where "l = TrimSpace raw"
  obtain sec opn where so: "section_of (rev hs) = (sec, opn)" by (cases "section_of (rev hs)")
  show ?thesis
  proof (cases "parseRPCScalar l")
    case (Some sc)
    with assms so scalar_type [OF Some] show ?thesis
      by (auto simp: rpc_line_meaning_def Let_def l_def [symmetric] split: if_splits)
  next
    case None
    with assms so have "sec \<noteq> []" "parseRPCLine l source component target rpcType sec opn = Inr os"
      by (auto simp: rpc_line_meaning_def Let_def l_def [symmetric] res_iff split: if_splits)
    with section_of_range [of "rev hs"] so bucket_type assms(2) show ?thesis by (metis fst_conv)
  qed
qed

text \<open>
  C40: The type the parser gives an observation of an \<open>rpc_stats\<close> file is the type of its metric in the
  contract, except for the buckets of the \<open>rpcs in flight\<close> and \<open>offset\<close> histograms, which the parser
  calls gauges and the contract counters; the mapper publishes the type of the contract.
\<close>

theorem rpc_stats_types:
  assumes "ParseRPCStats data source component target rpcType = Inr os" "ob \<in> set os"
  shows "type_agrees ob \<longleftrightarrow> MetricID ob \<noteq> ''rpcs_in_flight'' \<and> MetricID ob \<noteq> ''rpcs_offset''"
proof -
  let ?ls = "lines data"
  have "collect_all (\<lambda>i. rpc_line_meaning source component target rpcType
          (headers_of (take (Suc i) ?ls)) (?ls ! i)) [0..<length ?ls] = Inr os"
    using assms(1) rpc_loop_meaning [of source component target rpcType "[]" ?ls]
    by (simp add: ParseRPCStats_def state_of_def rpc_init_def Let_def)
  then have "type_as_expected ob" by (rule collect_all_invariant) (auto intro: line_type assms(2))
  then show ?thesis by (simp add: type_as_expected_def)
qed

lemma rpc_demo_bucket:
  "ParseRPCStats (unlines [''offset   rpcs'', ''0:   7'']) ''p'' ''client'' ''ost'' ''osc'' =
     Inr [bucket_obs ''p'' ''client'' ''ost'' ''osc'' ''rpcs_offset'' ''0'' ''read'' 7]"
proof -
  have "ParseFloat ''rpcs'' = Inl (NumSyntax ''rpcs'')" by code_simp
  then show ?thesis
    by (simp add: ParseRPCStats_def rpc_step_def rpc_init_def parseRPCScalar_def rpc_scalar_labels_def
        applyHeader_def enter_def isRPCBucketLine_def parseRPCLine_def parseRPCWriteValue_def
        rpcLineOperations_def bucket_obs_def bucket_labels_def rpcSectionMetric_def parse_seven str_eval)
qed

lemma rpc_stats_types_witness:
  "type_agrees (bucket_obs ''p'' ''client'' ''ost'' ''osc'' ''rpcs_offset'' ''0'' ''read'' 7) \<longleftrightarrow>
     MetricID (bucket_obs ''p'' ''client'' ''ost'' ''osc'' ''rpcs_offset'' ''0'' ''read'' 7) \<noteq> ''rpcs_in_flight'' \<and>
     MetricID (bucket_obs ''p'' ''client'' ''ost'' ''osc'' ''rpcs_offset'' ''0'' ''read'' 7) \<noteq> ''rpcs_offset''"
  by (rule rpc_stats_types [OF rpc_demo_bucket]) simp

end
