(* ===== verification/Parser_Basic.thy ===== *)
theory Parser_Basic
  imports Mapper
begin

text \<open>
  The three stateless parsers of single files: \<^verbatim>\<open>internal/parser/health.go\<close>,
  \<^verbatim>\<open>internal/parser/ldlm.go\<close> and \<^verbatim>\<open>internal/parser/sptlrpc.go\<close>.  The body of each loop over lines
  is a function of one line, \<open>continue\<close> being the empty result.
\<close>

section \<open>Health\<close>

definition ParseHealth :: "string \<Rightarrow> string \<Rightarrow> observation list result" where
  "ParseHealth data source =
     (let content = TrimSpace data;
          value = (if content = ''healthy'' then f_of_int 1 else f_of_int 0)
      in Inr [obs ''health'' source ''health_check'' Gauge
                [''component'' \<mapsto> ''health'', ''target'' \<mapsto> ''lustre''] value])"

lemma ParseHealth_conforms: "ParseHealth d source = Inr os \<Longrightarrow> all_conform os"
  by (auto simp: ParseHealth_def Let_def m_health_check_def)

interpretation health: observation_source "\<lambda>d. ParseHealth d source" for source
  by unfold_locales (rule ParseHealth_conforms)

section \<open>LDLM callback service\<close>

definition ldlm_line :: "string \<Rightarrow> string \<Rightarrow> observation list result" where
  "ldlm_line source raw =
     (let line = TrimSpace raw in
      if line = [] then Inr []
      else
        let fields = Fields line in
        if length fields = 0 \<or> fields ! 0 = ''snapshot_time'' \<or> HasSuffix (fields ! 0) ''='' then Inr []
        else if length fields < 3 \<or> fields ! 2 \<noteq> ''samples'' then Inr []
        else
          bind_res
            (map_err (\<lambda>e. Errorf ''ldlm_cbd stats: parsing %q value %q: %w''
                            [ArgS (fields ! 0), ArgS (fields ! 1)] [e])
               (ParseFloat (fields ! 1)))
            (\<lambda>value. Inr [obs ''client'' source ''ldlm_cbd_stats'' Counter
                              [''operation'' \<mapsto> fields ! 0] value]))"

definition ParseLDLMCBDStats :: "string \<Rightarrow> string \<Rightarrow> observation list result" where
  "ParseLDLMCBDStats data source = collect_all (ldlm_line source) (lines data)"

lemma ldlm_line_conforms: "ldlm_line source l = Inr os \<Longrightarrow> all_conform os"
  by (auto simp: ldlm_line_def Let_def m_ldlm_cbd_stats_def res_iff split: if_splits)

interpretation ldlm: line_parser "\<lambda>d. ParseLDLMCBDStats d source" "ldlm_line source" for source
  by unfold_locales (auto simp: ParseLDLMCBDStats_def ldlm_line_def ldlm_line_conforms)

section \<open>Encryption page pools\<close>

definition sptlrpc_keys :: "(string \<times> string \<times> metric_type) list" where
  "sptlrpc_keys =
     [(''physical pages'', ''physical_pages'', Gauge),
      (''pages per pool'', ''pages_per_pool'', Gauge),
      (''max pages'', ''maximum_pages'', Gauge),
      (''max pools'', ''maximum_pools'', Gauge),
      (''pages in pools'', ''pages_in_pools'', Gauge),
      (''free pages'', ''free_pages'', Gauge),
      (''max pages reached'', ''maximum_pages_reached_total'', Counter),
      (''grows'', ''grows_total'', Counter),
      (''grows failure'', ''grows_failure_total'', Counter),
      (''shrinks'', ''shrinks_total'', Counter),
      (''cache access'', ''cache_access_total'', Counter),
      (''cache miss'', ''cache_miss_total'', Counter),
      (''free page low'', ''free_page_low'', Gauge),
      (''max waitqueue depth'', ''maximum_waitqueue_depth'', Gauge),
      (''out of mem'', ''out_of_memory_request_total'', Counter)]"

definition sptlrpcKeyMap :: "string \<rightharpoonup> string \<times> metric_type" where
  "sptlrpcKeyMap = map_of sptlrpc_keys"

definition sptlrpc_line :: "string \<Rightarrow> string \<Rightarrow> observation list result" where
  "sptlrpc_line source raw =
     (let line = TrimSpace raw in
      if line = [] then Inr []
      else
        (case cut_last CHR '':'' line of
           None \<Rightarrow> Inr []
         | Some (before, after) \<Rightarrow>
             let key = TrimSpace before; valStr = TrimSpace after in
             (case sptlrpcKeyMap key of
                None \<Rightarrow> Inr []
              | Some (metricID, metricType) \<Rightarrow>
                  bind_res
                    (map_err (\<lambda>e. Errorf ''sptlrpc: parsing %q value %q: %w''
                                    [ArgS key, ArgS valStr] [e])
                       (ParseFloat valStr))
                    (\<lambda>val. Inr [obs ''sptlrpc'' source metricID metricType Map.empty val]))))"

definition ParseEncryptPagePools :: "string \<Rightarrow> string \<Rightarrow> observation list result" where
  "ParseEncryptPagePools data source = collect_all (sptlrpc_line source) (lines (TrimSpace data))"

text \<open>Every key of the map names a registered metric of the same type and without labels.\<close>

lemma sptlrpc_keys_registered:
  "list_all (\<lambda>(k, i, t). case Registry i of None \<Rightarrow> False | Some d \<Rightarrow> Type d = t \<and> LabelKeys d = [])
     sptlrpc_keys"
  by (simp add: sptlrpc_keys_def m_physical_pages_def m_pages_per_pool_def m_maximum_pages_def
      m_maximum_pools_def m_pages_in_pools_def m_free_pages_def m_maximum_pages_reached_total_def
      m_grows_total_def m_grows_failure_total_def m_shrinks_total_def m_cache_access_total_def
      m_cache_miss_total_def m_free_page_low_def m_maximum_waitqueue_depth_def
      m_out_of_memory_request_total_def)

lemma sptlrpcKeyMap_registered:
  assumes "sptlrpcKeyMap k = Some (i, t)"
  shows "\<exists>d. Registry i = Some d \<and> Type d = t \<and> LabelKeys d = []"
proof -
  from assms have "(k, i, t) \<in> set sptlrpc_keys" by (auto simp: sptlrpcKeyMap_def dest: map_of_SomeD)
  with sptlrpc_keys_registered show ?thesis by (fastforce simp: list_all_iff split: option.splits)
qed

lemma sptlrpc_line_conforms: "sptlrpc_line source l = Inr os \<Longrightarrow> all_conform os"
  by (auto simp: sptlrpc_line_def Let_def res_iff dest!: sptlrpcKeyMap_registered
      split: if_splits option.splits)

interpretation sptlrpc: line_parser "\<lambda>d. ParseEncryptPagePools d source" "sptlrpc_line source" for source
  by unfold_locales (auto simp: ParseEncryptPagePools_def sptlrpc_line_def sptlrpc_line_conforms)

section \<open>Files as Lustre prints them\<close>

text \<open>A line of a service's stats file: a name, a count, \<open>samples\<close> and whatever follows.\<close>

record service_stat =
  stat_name :: string
  stat_count :: nat
  stat_rest :: "string list"

definition service_ok :: "service_stat \<Rightarrow> bool" where
  "service_ok l \<longleftrightarrow>
     token (stat_name l) \<and> stat_name l \<noteq> ''snapshot_time'' \<and> \<not> HasSuffix (stat_name l) ''='' \<and>
     stat_count l < 2 ^ 53 \<and> list_all token (stat_rest l)"

definition service_text :: "service_stat \<Rightarrow> string" where
  "service_text l = unwords ([stat_name l, decimal (stat_count l), ''samples''] @ stat_rest l)"

lemma service_line:
  assumes "service_ok l"
  shows "printed (service_text l) \<and>
     ldlm_line source (service_text l) =
       Inr [obs ''client'' source ''ldlm_cbd_stats'' Counter [''operation'' \<mapsto> stat_name l]
              (f_of_int (int (stat_count l)))]"
proof -
  let ?ws = "[stat_name l, decimal (stat_count l), ''samples''] @ stat_rest l"
  have "token ''samples''" by (simp add: token_def graphic_def is_ascii_def ascii_space_def)
  then have ws: "list_all token ?ws" "?ws \<noteq> []"
    using assms by (simp_all add: service_ok_def token_decimal)
  have p: "printed (service_text l)" unfolding service_text_def by (rule printed_unwords [OF ws(2,1)])
  have t: "TrimSpace (service_text l) = service_text l" "Fields (service_text l) = ?ws"
    using TrimSpace_unwords [OF ws(2,1)] Fields_unwords [OF ws(1)] by (simp_all add: service_text_def)
  have "service_text l \<noteq> []" using p by (simp add: printed_def)
  with p show ?thesis using assms
    by (simp add: ldlm_line_def t service_ok_def ParseFloat_small)
qed

text \<open>A line of the page pool file: a key, a colon, blanks and a number.\<close>

definition pool_text :: "string \<times> nat \<times> nat \<Rightarrow> string" where
  "pool_text kv = (case kv of (key, pad, n) \<Rightarrow> key @ '':'' @ replicate pad (CHR '' '') @ decimal n)"

definition pool_ok :: "string \<times> nat \<times> nat \<Rightarrow> bool" where
  "pool_ok kv \<longleftrightarrow> (case kv of (key, pad, n) \<Rightarrow> key \<in> set (map fst sptlrpc_keys) \<and> n < 2 ^ 53)"

definition pool_obs :: "string \<Rightarrow> string \<times> nat \<times> nat \<Rightarrow> observation" where
  "pool_obs source kv =
     (case kv of (key, pad, n) \<Rightarrow>
        (case the (sptlrpcKeyMap key) of (i, t) \<Rightarrow> obs ''sptlrpc'' source i t Map.empty (f_of_int (int n))))"

lemma trim_left_spaces: "trim_left (replicate k (CHR '' '') @ s) = trim_left s"
  by (induction k) (simp_all add: trim_left.simps)

lemma TrimSpace_spaces: "token w \<Longrightarrow> TrimSpace (replicate k (CHR '' '') @ w) = w"
  using TrimSpace_token [of w] by (simp add: TrimSpace_def trim_left_spaces)

lemma pool_keys: "list_all (\<lambda>k. printed k) (map fst sptlrpc_keys)"
  by (simp add: sptlrpc_keys_def printed_def graphic_def is_ascii_def ascii_space_def)

lemma pool_line:
  assumes "pool_ok kv"
  shows "printed (pool_text kv) \<and> sptlrpc_line source (pool_text kv) = Inr [pool_obs source kv]"
proof -
  obtain key pad n where kv: "kv = (key, pad, n)" by (cases kv)
  with assms have key: "printed key" "n < 2 ^ 53" "key \<in> set (map fst sptlrpc_keys)"
    using pool_keys by (auto simp: pool_ok_def list_all_iff)
  then obtain i t where it: "sptlrpcKeyMap key = Some (i, t)"
    by (metis map_of_eq_None_iff not_None_eq old.prod.exhaust set_map sptlrpcKeyMap_def)
  have d: "token (decimal n)" by (rule token_decimal)
  then have de: "decimal n \<noteq> []" "graphic (last (decimal n))" "newline \<notin> set (decimal n)"
    "CHR '':'' \<notin> set (decimal n)"
    using token_ends token_no_newline decimal_digits [of n] by (auto simp: list_all_iff is_digit_def)
  have p: "printed (pool_text kv)"
    using key(1) de by (auto simp: kv pool_text_def printed_def)
  moreover have "cut_last CHR '':'' (pool_text kv) = Some (key, replicate pad (CHR '' '') @ decimal n)"
    using de(4) by (simp add: kv pool_text_def cut_last_Some)
  moreover have "TrimSpace key = key" "TrimSpace (pool_text kv) = pool_text kv"
    using key(1) p by (simp_all add: TrimSpace_printed)
  moreover have "pool_text kv \<noteq> []" using p by (simp add: printed_def)
  ultimately show ?thesis
    using key(2) it by (simp add: sptlrpc_line_def TrimSpace_spaces d ParseFloat_small kv pool_obs_def)
qed

section \<open>Properties\<close>

text \<open>
  A stats file of the LDLM callback service is parsed into one counter for each of its lines, with
  the line's name as the operation and its count, whatever follows the count.
\<close>

theorem ldlm_stats_meaning:
  assumes "list_all service_ok ls"
  shows "ParseLDLMCBDStats (unlines (map service_text ls)) source =
     Inr (map (\<lambda>l. obs ''client'' source ''ldlm_cbd_stats'' Counter [''operation'' \<mapsto> stat_name l]
                     (f_of_int (int (stat_count l)))) ls)"
proof -
  have ok: "service_ok l" if "l \<in> set ls" for l using that assms by (simp add: list_all_iff)
  have "ParseLDLMCBDStats (unlines (map service_text ls)) source =
      collect_all (ldlm_line source) (map service_text ls)"
    by (rule ldlm.parse_unlines) (auto simp: service_line ok)
  also have "\<dots> = Inr (concat (map (\<lambda>l. [obs ''client'' source ''ldlm_cbd_stats'' Counter
      [''operation'' \<mapsto> stat_name l] (f_of_int (int (stat_count l)))]) ls))"
    unfolding collect_all_map by (rule collect_all_ok) (simp add: service_line ok)
  finally show ?thesis by (simp add: concat_map_singleton)
qed

lemma ldlm_stats_meaning_witness:
  "ParseLDLMCBDStats (unlines (map service_text
       [\<lparr>stat_name = ''ldlm_bl_callback'', stat_count = 1236010, stat_rest = [''[usec]'', ''1'']\<rparr>])) ''p'' =
     Inr (map (\<lambda>l. obs ''client'' ''p'' ''ldlm_cbd_stats'' Counter [''operation'' \<mapsto> stat_name l]
                     (f_of_int (int (stat_count l))))
       [\<lparr>stat_name = ''ldlm_bl_callback'', stat_count = 1236010, stat_rest = [''[usec]'', ''1'']\<rparr>])"
  by (rule ldlm_stats_meaning) (simp add: service_ok_def str_eval)

text \<open>
  An encryption page pool file is parsed into one observation for each of its known keys, under the
  metric of the key, whatever the padding before the number.
\<close>

theorem page_pools_meaning:
  assumes "list_all pool_ok kvs"
  shows "ParseEncryptPagePools (unlines (map pool_text kvs)) source = Inr (map (pool_obs source) kvs)"
proof -
  have ok: "pool_ok kv" if "kv \<in> set kvs" for kv using that assms by (simp add: list_all_iff)
  have "ParseEncryptPagePools (unlines (map pool_text kvs)) source =
      collect_all (sptlrpc_line source) (map pool_text kvs)"
    by (rule sptlrpc.parse_unlines) (auto simp: pool_line ok)
  also have "\<dots> = Inr (concat (map (\<lambda>kv. [pool_obs source kv]) kvs))"
    unfolding collect_all_map by (rule collect_all_ok) (simp add: pool_line ok)
  finally show ?thesis by (simp add: concat_map_singleton)
qed

lemma page_pools_meaning_witness:
  "ParseEncryptPagePools (unlines (map pool_text [(''physical pages'', 10, 1000), (''out of mem'', 1, 0)])) ''p'' =
     Inr (map (pool_obs ''p'') [(''physical pages'', 10, 1000), (''out of mem'', 1, 0)])"
  by (rule page_pools_meaning) (simp add: pool_ok_def sptlrpc_keys_def)

end
