(* ===== verification/Json.thy ===== *)
theory Json
  imports Prelude Parse_Float Go_Strings
begin

text \<open>
  What the exporter uses of Go's \<^verbatim>\<open>encoding/json\<close>: the syntax of a JSON text with its strings unquoted,
  and decoding a value into a destination that may already hold something.  Texts are byte strings;
  bytes of a string that are not UTF-8 become U+FFFD, as in the package.
\<close>

section \<open>UTF-8\<close>

definition byte_in :: "nat \<Rightarrow> nat \<Rightarrow> char \<Rightarrow> bool" where
  "byte_in lo hi c \<longleftrightarrow> lo \<le> of_char c \<and> of_char c \<le> hi"

text \<open>The length of the encoded character that a string begins with, if it begins with one.\<close>

fun utf8_len :: "string \<Rightarrow> nat option" where
  "utf8_len [] = None"
| "utf8_len (c # s) =
     (let conts = (\<lambda>n. n \<le> length s \<and> list_all (byte_in 0x80 0xBF) (take n s)) in
      if byte_in 0 0x7F c then Some 1
      else if byte_in 0xC2 0xDF c \<and> conts 1 then Some 2
      else if byte_in 0xE0 0xEF c \<and> conts 2 \<and>
              (if c = CHR 0xE0 then byte_in 0xA0 0xBF (hd s)
               else if c = CHR 0xED then byte_in 0x80 0x9F (hd s) else True) then Some 3
      else if byte_in 0xF0 0xF4 c \<and> conts 3 \<and>
              (if c = CHR 0xF0 then byte_in 0x90 0xBF (hd s)
               else if c = CHR 0xF4 then byte_in 0x80 0x8F (hd s) else True) then Some 4
      else None)"

lemma utf8_len_pos: "utf8_len s = Some n \<Longrightarrow> 0 < n"
  by (cases s) (auto simp: Let_def split: if_splits)

definition encode_rune :: "nat \<Rightarrow> string" where
  "encode_rune r =
     (if r < 0x80 then [char_of r]
      else if r < 0x800 then [char_of (0xC0 + r div 64), char_of (0x80 + r mod 64)]
      else if r < 0x10000 then
        [char_of (0xE0 + r div 4096), char_of (0x80 + r div 64 mod 64), char_of (0x80 + r mod 64)]
      else
        [char_of (0xF0 + r div 262144), char_of (0x80 + r div 4096 mod 64),
         char_of (0x80 + r div 64 mod 64), char_of (0x80 + r mod 64)])"

definition replacement :: string where
  "replacement = [CHR 0xEF, CHR 0xBF, CHR 0xBD]"

section \<open>Strings\<close>

definition hex_digit :: "char \<Rightarrow> nat option" where
  "hex_digit c =
     (let n = of_char c :: nat in
      if 48 \<le> n \<and> n \<le> 57 then Some (n - 48)
      else if 97 \<le> n \<and> n \<le> 102 then Some (n - 87)
      else if 65 \<le> n \<and> n \<le> 70 then Some (n - 55)
      else None)"

text \<open>Four hexadecimal digits.\<close>

fun hex4 :: "string \<Rightarrow> nat option" where
  "hex4 (a # b # c # d # _) =
     (case (hex_digit a, hex_digit b, hex_digit c, hex_digit d) of
        (Some w, Some x, Some y, Some z) \<Rightarrow> Some (((w * 16 + x) * 16 + y) * 16 + z)
      | _ \<Rightarrow> None)"
| "hex4 _ = None"

text \<open>The low half of a surrogate pair, written as an escape.\<close>

definition low_surrogate :: "string \<Rightarrow> nat option" where
  "low_surrogate s =
     (if take 2 s = [CHR 0x5C, CHR ''u''] then
        (case hex4 (drop 2 s) of
           Some r \<Rightarrow> if 0xDC00 \<le> r \<and> r \<le> 0xDFFF then Some r else None
         | None \<Rightarrow> None)
      else None)"

definition escapes :: "(char \<times> char) list" where
  "escapes =
     [(CHR 0x22, CHR 0x22), (CHR 0x5C, CHR 0x5C), (CHR ''/'', CHR ''/''), (CHR ''b'', CHR 0x08),
      (CHR ''f'', CHR 0x0C), (CHR ''n'', CHR 0x0A), (CHR ''r'', CHR 0x0D), (CHR ''t'', CHR 0x09)]"

text \<open>
  The next piece of a string, after its opening quote: the end of it, or the bytes that the piece
  stands for and how many bytes it takes; \<open>None\<close> is a syntax error.
\<close>

datatype string_piece = StringEnd | Piece string nat

definition escape_piece :: "string \<Rightarrow> string_piece option" where
  "escape_piece s =
     (case s of
        [] \<Rightarrow> None
      | e # s' \<Rightarrow>
          if e = CHR ''u'' then
            (case hex4 s' of
               None \<Rightarrow> None
             | Some r \<Rightarrow>
                 if 0xD800 \<le> r \<and> r \<le> 0xDFFF then
                   (case low_surrogate (drop 4 s') of
                      Some r' \<Rightarrow>
                        if r \<le> 0xDBFF
                        then Some (Piece (encode_rune ((r - 0xD800) * 1024 + (r' - 0xDC00) + 0x10000)) 12)
                        else Some (Piece replacement 6)
                    | None \<Rightarrow> Some (Piece replacement 6))
                 else Some (Piece (encode_rune r) 6))
          else map_option (\<lambda>c. Piece [c] 2) (map_of escapes e))"

definition next_piece :: "string \<Rightarrow> string_piece option" where
  "next_piece s =
     (case s of
        [] \<Rightarrow> None
      | c # s' \<Rightarrow>
          if c = CHR 0x22 then Some StringEnd
          else if c = CHR 0x5C then escape_piece s'
          else if byte_in 0 0x1F c then None
          else
            (case utf8_len s of
               Some n \<Rightarrow> Some (Piece (take n s) n)
             | None \<Rightarrow> Some (Piece replacement 1)))"

lemma next_piece_ne: "next_piece s = Some p \<Longrightarrow> s \<noteq> []"
  by (auto simp: next_piece_def)

lemma next_piece_pos: "next_piece s = Some (Piece w n) \<Longrightarrow> 0 < n"
  by (auto simp: next_piece_def escape_piece_def utf8_len_pos split: list.splits option.splits if_splits)

text \<open>The string up to its closing quote, and the rest of the text.\<close>

function unquote :: "string \<Rightarrow> (string \<times> string) option" where
  "unquote s =
     (case next_piece s of
        None \<Rightarrow> None
      | Some StringEnd \<Rightarrow> Some ([], tl s)
      | Some (Piece w n) \<Rightarrow>
          (case unquote (drop n s) of None \<Rightarrow> None | Some (r, rest) \<Rightarrow> Some (w @ r, rest)))"
  by pat_completeness auto

termination
proof (relation "measure length", goal_cases)
  case (2 s p w n)
  then have "s \<noteq> []" "0 < n" using next_piece_ne next_piece_pos by auto
  then show ?case by simp
qed simp

declare unquote.simps [simp del]

lemma unquote_shorter: "unquote s = Some (w, r) \<Longrightarrow> length r < length s"
proof (induction s arbitrary: w r rule: unquote.induct)
  case (1 s)
  from "1.prems" obtain p where p: "next_piece s = Some p"
    by (subst (asm) unquote.simps) (auto split: option.splits)
  note ne = next_piece_ne [OF p]
  show ?case
  proof (cases p)
    case StringEnd
    with "1.prems" p ne show ?thesis by (subst (asm) unquote.simps) auto
  next
    case (Piece v n)
    with "1.prems" p obtain r' where "unquote (drop n s) = Some (r', r)"
      by (subst (asm) unquote.simps) (auto split: option.splits)
    with "1.IH" [OF p Piece] ne show ?thesis by force
  qed
qed

section \<open>Tokens\<close>

datatype json_token =
    TOpenObject | TCloseObject | TOpenArray | TCloseArray | TComma | TColon
  | TString string | TNumber string | TTrue | TFalse | TNull

definition json_space :: "char \<Rightarrow> bool" where
  "json_space c \<longleftrightarrow> c = CHR 0x20 \<or> c = CHR 0x09 \<or> c = CHR 0x0A \<or> c = CHR 0x0D"

text \<open>A fraction or an exponent after a number, if there is one; \<open>None\<close> is a syntax error.\<close>

definition number_fraction :: "string \<Rightarrow> string option" where
  "number_fraction s =
     (if s \<noteq> [] \<and> hd s = CHR ''.'' then
        let ds = takeWhile is_digit (tl s) in if ds = [] then None else Some (CHR ''.'' # ds)
      else Some [])"

definition number_exponent :: "string \<Rightarrow> string option" where
  "number_exponent s =
     (if s \<noteq> [] \<and> (hd s = CHR ''e'' \<or> hd s = CHR ''E'') then
        let sg = (if tl s \<noteq> [] \<and> (hd (tl s) = CHR ''+'' \<or> hd (tl s) = CHR ''-'') then [hd (tl s)] else []);
            ds = takeWhile is_digit (drop (1 + length sg) s)
        in if ds = [] then None else Some (hd s # sg @ ds)
      else Some [])"

definition number_sign :: "string \<Rightarrow> string" where
  "number_sign s = (if s \<noteq> [] \<and> hd s = CHR ''-'' then ''-'' else [])"

definition number_integer :: "string \<Rightarrow> string" where
  "number_integer s = (if s \<noteq> [] \<and> hd s = CHR ''0'' then ''0'' else takeWhile is_digit s)"

text \<open>The literal of a number that a string begins with: no leading zeros, no plus sign.\<close>

definition scan_number :: "string \<Rightarrow> string option" where
  "scan_number s =
     (let sg = number_sign s;
          s1 = drop (length sg) s;
          ip = number_integer s1
      in if ip = [] then None
         else
           (case number_fraction (drop (length ip) s1) of
              None \<Rightarrow> None
            | Some fp \<Rightarrow>
                (case number_exponent (drop (length ip + length fp) s1) of
                   None \<Rightarrow> None
                 | Some ep \<Rightarrow> Some (sg @ ip @ fp @ ep))))"

lemma scan_number_pos: "scan_number s = Some w \<Longrightarrow> w \<noteq> []"
  by (auto simp: scan_number_def Let_def split: if_splits option.splits)

definition punctuation :: "(char \<times> json_token) list" where
  "punctuation =
     [(CHR ''{'', TOpenObject), (CHR ''}'', TCloseObject), (CHR ''['', TOpenArray), (CHR '']'', TCloseArray),
      (CHR '','', TComma), (CHR '':'', TColon)]"

definition literals :: "(char \<times> string \<times> json_token) list" where
  "literals = [(CHR ''t'', ''true'', TTrue), (CHR ''f'', ''false'', TFalse), (CHR ''n'', ''null'', TNull)]"

text \<open>The token that a string begins with, and the rest.\<close>

definition next_token :: "string \<Rightarrow> (json_token \<times> string) option" where
  "next_token s =
     (case s of
        [] \<Rightarrow> None
      | c # r \<Rightarrow>
          (case map_of punctuation c of
             Some t \<Rightarrow> Some (t, r)
           | None \<Rightarrow>
               if c = CHR 0x22 then map_option (\<lambda>(w, r'). (TString w, r')) (unquote r)
               else
                 (case map_of literals c of
                    Some (w, t) \<Rightarrow> if take (length w) s = w then Some (t, drop (length w) s) else None
                  | None \<Rightarrow>
                      map_option (\<lambda>w. (TNumber w, drop (length w) s)) (scan_number s))))"

lemma next_token_shorter: "next_token s = Some (t, r) \<Longrightarrow> length r < length s"
  by (auto simp: next_token_def literals_def dest: unquote_shorter scan_number_pos
      split: list.splits option.splits if_splits)

function tokens :: "string \<Rightarrow> json_token list option" where
  "tokens s =
     (let s1 = dropWhile json_space s in
      if s1 = [] then Some []
      else
        (case next_token s1 of
           None \<Rightarrow> None
         | Some (t, r) \<Rightarrow> map_option ((#) t) (tokens r)))"
  by pat_completeness auto

termination
proof (relation "measure length", goal_cases)
  case (2 s s1 x t r)
  then have "length r < length s1" by (auto dest: next_token_shorter)
  moreover have "length s1 \<le> length s" using 2 by (simp add: length_dropWhile_le)
  ultimately show ?case by simp
qed simp

declare tokens.simps [simp del]

section \<open>Values\<close>

datatype json =
    JNull
  | JBool bool
  | JNumber string
  | JString string
  | JArray "json list"
  | JObject "(string \<times> json) list"

text \<open>
  The parser keeps the open arrays and objects on a stack, the values read so far in reverse; an
  object on the stack also has the key of the value to come.  The scanner of the package refuses a
  stack of more than 10000.
\<close>

datatype frame = InArray "json list" | InObject "(string \<times> json) list" string

datatype mode =
    WantValue | WantValueOrClose | WantKey | WantKeyOrClose | WantColon | WantCommaOrClose
  | Finished json

type_synonym parser_state = "frame list \<times> mode"

definition max_depth :: nat where
  "max_depth = 10000"

definition push_frame :: "frame \<Rightarrow> mode \<Rightarrow> frame list \<Rightarrow> parser_state option" where
  "push_frame f m fs = (if length fs < max_depth then Some (f # fs, m) else None)"

text \<open>A value is complete.\<close>

fun complete_value :: "json \<Rightarrow> frame list \<Rightarrow> parser_state" where
  "complete_value v [] = ([], Finished v)"
| "complete_value v (InArray vs # fs) = (InArray (v # vs) # fs, WantCommaOrClose)"
| "complete_value v (InObject kvs k # fs) = (InObject ((k, v) # kvs) k # fs, WantCommaOrClose)"

fun begin_value :: "json_token \<Rightarrow> frame list \<Rightarrow> parser_state option" where
  "begin_value TOpenObject fs = push_frame (InObject [] []) WantKeyOrClose fs"
| "begin_value TOpenArray fs = push_frame (InArray []) WantValueOrClose fs"
| "begin_value (TString w) fs = Some (complete_value (JString w) fs)"
| "begin_value (TNumber w) fs = Some (complete_value (JNumber w) fs)"
| "begin_value TTrue fs = Some (complete_value (JBool True) fs)"
| "begin_value TFalse fs = Some (complete_value (JBool False) fs)"
| "begin_value TNull fs = Some (complete_value JNull fs)"
| "begin_value _ fs = None"

fun close_frame :: "json_token \<Rightarrow> frame list \<Rightarrow> parser_state option" where
  "close_frame TCloseArray (InArray vs # fs) = Some (complete_value (JArray (rev vs)) fs)"
| "close_frame TCloseObject (InObject kvs k # fs) = Some (complete_value (JObject (rev kvs)) fs)"
| "close_frame _ _ = None"

fun read_key :: "json_token \<Rightarrow> frame list \<Rightarrow> parser_state option" where
  "read_key (TString k) (InObject kvs _ # fs) = Some (InObject kvs k # fs, WantColon)"
| "read_key _ _ = None"

fun after_value :: "json_token \<Rightarrow> frame list \<Rightarrow> parser_state option" where
  "after_value TComma (InArray vs # fs) = Some (InArray vs # fs, WantValue)"
| "after_value TComma (InObject kvs k # fs) = Some (InObject kvs k # fs, WantKey)"
| "after_value t fs = close_frame t fs"

fun json_step :: "json_token \<Rightarrow> parser_state \<Rightarrow> parser_state option" where
  "json_step t (fs, WantValue) = begin_value t fs"
| "json_step t (fs, WantValueOrClose) = (if t = TCloseArray then close_frame t fs else begin_value t fs)"
| "json_step t (fs, WantKey) = read_key t fs"
| "json_step t (fs, WantKeyOrClose) = (if t = TCloseObject then close_frame t fs else read_key t fs)"
| "json_step t (fs, WantColon) = (if t = TColon then Some (fs, WantValue) else None)"
| "json_step t (fs, WantCommaOrClose) = after_value t fs"
| "json_step t (fs, Finished v) = None"

fun json_run :: "json_token list \<Rightarrow> parser_state \<Rightarrow> parser_state option" where
  "json_run [] st = Some st"
| "json_run (t # ts) st = (case json_step t st of None \<Rightarrow> None | Some st' \<Rightarrow> json_run ts st')"

definition parse_json :: "string \<Rightarrow> json option" where
  "parse_json s =
     (case tokens s of
        None \<Rightarrow> None
      | Some ts \<Rightarrow> (case json_run ts ([], WantValue) of Some (_, Finished v) \<Rightarrow> Some v | _ \<Rightarrow> None))"

section \<open>Decoding\<close>

text \<open>
  A decoder gets a value and the destination as it is, and returns the destination as it leaves it and
  the first error, which does not stop the decoding of the rest.
\<close>

type_synonym 'a decoder = "json \<Rightarrow> 'a \<Rightarrow> go_error option \<times> 'a"

definition first_error :: "go_error option \<Rightarrow> go_error option \<Rightarrow> go_error option" where
  "first_error e e' = (case e of None \<Rightarrow> e' | Some x \<Rightarrow> Some x)"

definition type_error :: "string \<Rightarrow> go_error" where
  "type_error what = Errorf ''json: cannot unmarshal %s'' [ArgS what] []"

definition decode_string :: "string decoder" where
  "decode_string j old =
     (case j of
        JString w \<Rightarrow> (None, w)
      | JNull \<Rightarrow> (None, old)
      | _ \<Rightarrow> (Some (type_error ''value into string''), old))"

definition decode_float :: "float64 decoder" where
  "decode_float j old =
     (case j of
        JNumber w \<Rightarrow>
          (case ParseFloat w of
             Inr x \<Rightarrow> (None, x)
           | Inl err \<Rightarrow> (Some (type_error (''number '' @ w)), old))
      | JNull \<Rightarrow> (None, old)
      | _ \<Rightarrow> (Some (type_error ''value into float64''), old))"

text \<open>A field of a destination, with the decoder of its type.\<close>

definition struct_field :: "'b decoder \<Rightarrow> ('a \<Rightarrow> 'b) \<Rightarrow> (('b \<Rightarrow> 'b) \<Rightarrow> 'a \<Rightarrow> 'a) \<Rightarrow> 'a decoder" where
  "struct_field d get upd j x = (case d j (get x) of (e, v) \<Rightarrow> (e, upd (\<lambda>_. v) x))"

text \<open>
  Names of fields are compared exactly first, and then without regard to case: ASCII letters, and the
  two other characters that fold to ASCII letters.
\<close>

fun fold_name :: "string \<Rightarrow> string" where
  "fold_name [] = []"
| "fold_name (c # s) =
     (if byte_in 97 122 c then char_of (of_char c - 32 :: nat) # fold_name s
      else if take 2 (c # s) = [CHR 0xC5, CHR 0xBF] then CHR ''S'' # fold_name (drop 1 s)
      else if take 3 (c # s) = [CHR 0xE2, CHR 0x84, CHR 0xAA] then CHR ''K'' # fold_name (drop 2 s)
      else c # fold_name s)"

definition find_field :: "(string \<times> 'a decoder) list \<Rightarrow> string \<Rightarrow> 'a decoder option" where
  "find_field fds k =
     (case map_of fds k of
        Some d \<Rightarrow> Some d
      | None \<Rightarrow> map_of (map (\<lambda>(nm, d). (fold_name nm, d)) fds) (fold_name k))"

fun decode_members :: "(string \<times> 'a decoder) list \<Rightarrow> (string \<times> json) list \<Rightarrow> 'a \<Rightarrow> go_error option \<times> 'a" where
  "decode_members fds [] x = (None, x)"
| "decode_members fds ((k, j) # kvs) x =
     (case find_field fds k of
        None \<Rightarrow> decode_members fds kvs x
      | Some d \<Rightarrow>
          (case d j x of
             (e, x') \<Rightarrow> (case decode_members fds kvs x' of (e', x'') \<Rightarrow> (first_error e e', x''))))"

definition decode_struct :: "(string \<times> 'a decoder) list \<Rightarrow> 'a decoder" where
  "decode_struct fds j x =
     (case j of
        JObject kvs \<Rightarrow> decode_members fds kvs x
      | JNull \<Rightarrow> (None, x)
      | _ \<Rightarrow> (Some (type_error ''value into struct''), x))"

text \<open>
  The elements of an array are decoded into the elements that the slice already has, and into zero values
  beyond them; the slice gets the length of the array.
\<close>

fun decode_elements :: "'a \<Rightarrow> 'a decoder \<Rightarrow> json list \<Rightarrow> 'a list \<Rightarrow> go_error option \<times> 'a list" where
  "decode_elements zero d [] old = (None, [])"
| "decode_elements zero d (j # js) old =
     (case d j (case old of [] \<Rightarrow> zero | x # _ \<Rightarrow> x) of
        (e, y) \<Rightarrow> (case decode_elements zero d js (tl old) of (e', ys) \<Rightarrow> (first_error e e', y # ys)))"

definition decode_slice :: "'a \<Rightarrow> 'a decoder \<Rightarrow> 'a list decoder" where
  "decode_slice zero d j old =
     (case j of
        JArray js \<Rightarrow> decode_elements zero d js old
      | JNull \<Rightarrow> (None, [])
      | _ \<Rightarrow> (Some (type_error ''value into slice''), old))"

definition decode_pointer :: "'a \<Rightarrow> 'a decoder \<Rightarrow> 'a option decoder" where
  "decode_pointer zero d j old =
     (case j of
        JNull \<Rightarrow> (None, None)
      | _ \<Rightarrow> (case d j (case old of None \<Rightarrow> zero | Some x \<Rightarrow> x) of (e, x) \<Rightarrow> (e, Some x)))"

text \<open>
  A map with string keys, as the list of its entries: the value of every member is decoded into a zero
  value and replaces the one its key had.
\<close>

definition set_entry :: "string \<Rightarrow> 'a \<Rightarrow> (string \<times> 'a) list \<Rightarrow> (string \<times> 'a) list" where
  "set_entry k v m = filter (\<lambda>e. fst e \<noteq> k) m @ [(k, v)]"

fun decode_entries :: "'a \<Rightarrow> 'a decoder \<Rightarrow> (string \<times> json) list \<Rightarrow> (string \<times> 'a) list \<Rightarrow>
    go_error option \<times> (string \<times> 'a) list" where
  "decode_entries zero d [] m = (None, m)"
| "decode_entries zero d ((k, j) # kvs) m =
     (case d j zero of
        (e, v) \<Rightarrow> (case decode_entries zero d kvs (set_entry k v m) of (e', m') \<Rightarrow> (first_error e e', m')))"

definition decode_map :: "'a \<Rightarrow> 'a decoder \<Rightarrow> (string \<times> 'a) list decoder" where
  "decode_map zero d j m =
     (case j of
        JObject kvs \<Rightarrow> decode_entries zero d kvs m
      | JNull \<Rightarrow> (None, [])
      | _ \<Rightarrow> (Some (type_error ''value into map''), m))"

text \<open>\<open>json.Unmarshal\<close>: a text that is not valid JSON leaves the destination as it is.\<close>

definition json_unmarshal :: "'a decoder \<Rightarrow> string \<Rightarrow> 'a \<Rightarrow> go_error option \<times> 'a" where
  "json_unmarshal d data dest =
     (case parse_json data of
        None \<Rightarrow> (Some (SourceError ''json: syntax error''), dest)
      | Some j \<Rightarrow> d j dest)"

end
