(* ===== verification/Parser_LPCC.thy ===== *)
theory Parser_LPCC
  imports Mapper Json
begin

text \<open>
  \<^verbatim>\<open>internal/parser/lpcc.go\<close>: the parser of \<open>lpcc status\<close>.  The structs of the file are records,
  with a decoder for each from its tags.  A Go map is iterated in an order the program does not choose:
  the decoded map is the list of its entries, and the order of the iteration is a parameter that
  permutes it.
\<close>

record lpccPurgeConfig =
  HighUsage :: float64
  LowUsage :: float64
  Interval :: float64
  ScanThreads :: float64
  CandidateNum :: float64

record lpccPurgeStatsInner =
  ScanTimes :: float64
  TotalPurgedObjs :: float64
  TotalFailedObjs :: float64
  StartUsagePct :: float64
  ScannedObjs :: float64
  PurgedObjs :: float64

record lpccCacheStats =
  CachedFiles :: float64
  CachedBytes :: float64
  MinCachedFileSize :: float64
  MaxCachedFileSize :: float64
  AverageAgeSecs :: float64

record lpccPurgeStats =
  PVersion :: string
  FSName :: string
  CacheUsagePct :: float64
  Config :: lpccPurgeConfig
  Stats :: lpccPurgeStatsInner
  CacheStats :: lpccCacheStats

record lpccCacheEntry =
  Mount :: string
  Cache :: string
  CStatus :: string
  ROID :: float64
  Autocache :: string
  Purge :: string
  PurgeStats :: lpccPurgeStats

record lpccFSStats =
  OpenCount :: float64
  PCCRealHit :: float64
  PCCOpenHitPct :: float64
  PCCRealHitBytes :: float64
  TotalReadBytes :: float64
  PCCReadHitBytesPct :: float64

record lpccMountEntry =
  PCC :: "lpccCacheEntry list"
  FSStats :: lpccFSStats

type_synonym lpccStatusOutput = "(string \<times> lpccMountEntry) list"

section \<open>Decoding\<close>

text \<open>The zero values of the structs, and the fields that their tags name.\<close>

definition zero_purge_config :: lpccPurgeConfig where
  "zero_purge_config =
     \<lparr>HighUsage = f_zero, LowUsage = f_zero, Interval = f_zero, ScanThreads = f_zero, CandidateNum = f_zero\<rparr>"

definition zero_purge_inner :: lpccPurgeStatsInner where
  "zero_purge_inner =
     \<lparr>ScanTimes = f_zero, TotalPurgedObjs = f_zero, TotalFailedObjs = f_zero, StartUsagePct = f_zero,
      ScannedObjs = f_zero, PurgedObjs = f_zero\<rparr>"

definition zero_cache_stats :: lpccCacheStats where
  "zero_cache_stats =
     \<lparr>CachedFiles = f_zero, CachedBytes = f_zero, MinCachedFileSize = f_zero, MaxCachedFileSize = f_zero,
      AverageAgeSecs = f_zero\<rparr>"

definition zero_purge_stats :: lpccPurgeStats where
  "zero_purge_stats =
     \<lparr>PVersion = [], FSName = [], CacheUsagePct = f_zero, Config = zero_purge_config,
      Stats = zero_purge_inner, CacheStats = zero_cache_stats\<rparr>"

definition zero_cache_entry :: lpccCacheEntry where
  "zero_cache_entry =
     \<lparr>Mount = [], Cache = [], CStatus = [], ROID = f_zero, Autocache = [], Purge = [],
      PurgeStats = zero_purge_stats\<rparr>"

definition zero_fs_stats :: lpccFSStats where
  "zero_fs_stats =
     \<lparr>OpenCount = f_zero, PCCRealHit = f_zero, PCCOpenHitPct = f_zero, PCCRealHitBytes = f_zero,
      TotalReadBytes = f_zero, PCCReadHitBytesPct = f_zero\<rparr>"

definition zero_mount_entry :: lpccMountEntry where
  "zero_mount_entry = \<lparr>PCC = [], FSStats = zero_fs_stats\<rparr>"

definition decode_purge_config :: "lpccPurgeConfig decoder" where
  "decode_purge_config = decode_struct
     [(''high_usage'', struct_field decode_float HighUsage HighUsage_update),
      (''low_usage'', struct_field decode_float LowUsage LowUsage_update),
      (''interval'', struct_field decode_float Interval Interval_update),
      (''scan_threads'', struct_field decode_float ScanThreads ScanThreads_update),
      (''candidate_num'', struct_field decode_float CandidateNum CandidateNum_update)]"

definition decode_purge_inner :: "lpccPurgeStatsInner decoder" where
  "decode_purge_inner = decode_struct
     [(''scan_times'', struct_field decode_float ScanTimes ScanTimes_update),
      (''total_purged_objs'', struct_field decode_float TotalPurgedObjs TotalPurgedObjs_update),
      (''total_failed_objs'', struct_field decode_float TotalFailedObjs TotalFailedObjs_update),
      (''start_usage_pct'', struct_field decode_float StartUsagePct StartUsagePct_update),
      (''scanned_objs'', struct_field decode_float ScannedObjs ScannedObjs_update),
      (''purged_objs'', struct_field decode_float PurgedObjs PurgedObjs_update)]"

definition decode_cache_stats :: "lpccCacheStats decoder" where
  "decode_cache_stats = decode_struct
     [(''cached_files'', struct_field decode_float CachedFiles CachedFiles_update),
      (''cached_bytes'', struct_field decode_float CachedBytes CachedBytes_update),
      (''min_cached_file_size'', struct_field decode_float MinCachedFileSize MinCachedFileSize_update),
      (''max_cached_file_size'', struct_field decode_float MaxCachedFileSize MaxCachedFileSize_update),
      (''average_age_secs'', struct_field decode_float AverageAgeSecs AverageAgeSecs_update)]"

definition decode_purge_stats :: "lpccPurgeStats decoder" where
  "decode_purge_stats = decode_struct
     [(''version'', struct_field decode_string PVersion PVersion_update),
      (''fsname'', struct_field decode_string FSName FSName_update),
      (''cache_usage_pct'', struct_field decode_float CacheUsagePct CacheUsagePct_update),
      (''config'', struct_field decode_purge_config Config Config_update),
      (''stats'', struct_field decode_purge_inner Stats Stats_update),
      (''cache_stats'', struct_field decode_cache_stats CacheStats CacheStats_update)]"

definition decode_cache_entry :: "lpccCacheEntry decoder" where
  "decode_cache_entry = decode_struct
     [(''mount'', struct_field decode_string Mount Mount_update),
      (''cache'', struct_field decode_string Cache Cache_update),
      (''status'', struct_field decode_string CStatus CStatus_update),
      (''roid'', struct_field decode_float ROID ROID_update),
      (''autocache'', struct_field decode_string Autocache Autocache_update),
      (''purge'', struct_field decode_string Purge Purge_update),
      (''purge_stats'', struct_field decode_purge_stats PurgeStats PurgeStats_update)]"

definition decode_fs_stats :: "lpccFSStats decoder" where
  "decode_fs_stats = decode_struct
     [(''open_count'', struct_field decode_float OpenCount OpenCount_update),
      (''pcc_real_hit'', struct_field decode_float PCCRealHit PCCRealHit_update),
      (''pcc_open_hit_pct'', struct_field decode_float PCCOpenHitPct PCCOpenHitPct_update),
      (''pcc_real_hit_bytes'', struct_field decode_float PCCRealHitBytes PCCRealHitBytes_update),
      (''total_read_bytes'', struct_field decode_float TotalReadBytes TotalReadBytes_update),
      (''pcc_read_hit_bytes_pct'', struct_field decode_float PCCReadHitBytesPct PCCReadHitBytesPct_update)]"

definition decode_mount_entry :: "lpccMountEntry decoder" where
  "decode_mount_entry = decode_struct
     [(''pcc'', struct_field (decode_slice zero_cache_entry decode_cache_entry) PCC PCC_update),
      (''fs_stats'', struct_field decode_fs_stats FSStats FSStats_update)]"

definition decode_status :: "lpccStatusOutput decoder" where
  "decode_status = decode_map zero_mount_entry decode_mount_entry"

section \<open>Observations\<close>

definition runningToBool :: "string \<Rightarrow> float64" where
  "runningToBool s = (if s = ''running'' then f_of_int 1 else f_of_int 0)"

definition percent :: "float64 \<Rightarrow> float64" where
  "percent x = f_div x (f_of_int 100)"

definition cache_table :: "lpccCacheEntry \<Rightarrow> (string \<times> metric_type \<times> float64) list" where
  "cache_table pcc =
     (let ps = PurgeStats pcc in
      [(''pcc_status'', Gauge, runningToBool (CStatus pcc)),
       (''pcc_purge_status'', Gauge, runningToBool (Purge pcc)),
       (''pcc_cache_usage_ratio'', Gauge, percent (CacheUsagePct ps)),
       (''pcc_purge_high_usage_ratio'', Gauge, percent (HighUsage (Config ps))),
       (''pcc_purge_low_usage_ratio'', Gauge, percent (LowUsage (Config ps))),
       (''pcc_purge_interval_seconds'', Gauge, Interval (Config ps)),
       (''pcc_purge_scan_threads'', Gauge, ScanThreads (Config ps)),
       (''pcc_purge_scan_times_total'', Counter, ScanTimes (Stats ps)),
       (''pcc_purge_total_purged_objs_total'', Counter, TotalPurgedObjs (Stats ps)),
       (''pcc_purge_total_failed_objs_total'', Counter, TotalFailedObjs (Stats ps)),
       (''pcc_purge_scanned_objs'', Gauge, ScannedObjs (Stats ps)),
       (''pcc_purge_purged_objs'', Gauge, PurgedObjs (Stats ps)),
       (''pcc_cached_files'', Gauge, CachedFiles (CacheStats ps)),
       (''pcc_cached_bytes'', Gauge, CachedBytes (CacheStats ps)),
       (''pcc_min_cached_file_size_bytes'', Gauge, MinCachedFileSize (CacheStats ps)),
       (''pcc_max_cached_file_size_bytes'', Gauge, MaxCachedFileSize (CacheStats ps)),
       (''pcc_average_age_seconds'', Gauge, AverageAgeSecs (CacheStats ps))])"

definition fs_table :: "lpccFSStats \<Rightarrow> (string \<times> metric_type \<times> float64) list" where
  "fs_table fs =
     [(''pcc_fs_open_count_total'', Counter, OpenCount fs),
      (''pcc_fs_real_hit_total'', Counter, PCCRealHit fs),
      (''pcc_fs_open_hit_ratio'', Gauge, percent (PCCOpenHitPct fs)),
      (''pcc_fs_real_hit_bytes_total'', Counter, PCCRealHitBytes fs),
      (''pcc_fs_total_read_bytes_total'', Counter, TotalReadBytes fs),
      (''pcc_fs_read_hit_bytes_ratio'', Gauge, percent (PCCReadHitBytesPct fs))]"

definition table_observations ::
  "string \<Rightarrow> (string \<rightharpoonup> string) \<Rightarrow> (string \<times> metric_type \<times> float64) list \<Rightarrow> observation list" where
  "table_observations source labels table = map (\<lambda>(i, t, v). obs ''lpcc'' source i t labels v) table"

definition mount_observations :: "string \<Rightarrow> string \<times> lpccMountEntry \<Rightarrow> observation list" where
  "mount_observations source me =
     (case me of (mountPath, entry) \<Rightarrow>
        concat (map (\<lambda>pcc. table_observations source
                         [''mount'' \<mapsto> mountPath, ''cache'' \<mapsto> Cache pcc] (cache_table pcc)) (PCC entry)) @
        table_observations source [''mount'' \<mapsto> mountPath] (fs_table (FSStats entry)))"

text \<open>
  \<open>order\<close> is the order in which this run iterates over the map: Go leaves it open, and every
  permutation is possible.
\<close>

definition ParseLpccStatus ::
  "(lpccStatusOutput \<Rightarrow> lpccStatusOutput) \<Rightarrow> string \<Rightarrow> string \<Rightarrow> observation list result" where
  "ParseLpccStatus order data source =
     (case json_unmarshal decode_status data [] of
        (Some err, output) \<Rightarrow> Inl (Errorf ''lpcc status: %w'' [] [err])
      | (None, output) \<Rightarrow> Inr (concat (map (mount_observations source) (order output))))"

section \<open>The contract\<close>

lemmas lpcc_metric_defs =
  m_pcc_status_def m_pcc_purge_status_def m_pcc_cache_usage_ratio_def m_pcc_purge_high_usage_ratio_def
  m_pcc_purge_low_usage_ratio_def m_pcc_purge_interval_seconds_def m_pcc_purge_scan_threads_def
  m_pcc_purge_scan_times_total_def m_pcc_purge_total_purged_objs_total_def
  m_pcc_purge_total_failed_objs_total_def m_pcc_purge_scanned_objs_def m_pcc_purge_purged_objs_def
  m_pcc_cached_files_def m_pcc_cached_bytes_def m_pcc_min_cached_file_size_bytes_def
  m_pcc_max_cached_file_size_bytes_def m_pcc_average_age_seconds_def m_pcc_fs_open_count_total_def
  m_pcc_fs_real_hit_total_def m_pcc_fs_open_hit_ratio_def m_pcc_fs_real_hit_bytes_total_def
  m_pcc_fs_total_read_bytes_total_def m_pcc_fs_read_hit_bytes_ratio_def

definition registered_with :: "string list \<Rightarrow> string \<times> metric_type \<times> float64 \<Rightarrow> bool" where
  "registered_with ks row =
     (case row of (i, t, v) \<Rightarrow>
        (case Registry i of None \<Rightarrow> False | Some d \<Rightarrow> Type d = t \<and> LabelKeys d = ks))"

lemma cache_table_registered: "list_all (registered_with [''mount'', ''cache'']) (cache_table pcc)"
  by (simp add: cache_table_def registered_with_def Let_def lpcc_metric_defs)

lemma fs_table_registered: "list_all (registered_with [''mount'']) (fs_table fs)"
  by (simp add: fs_table_def registered_with_def lpcc_metric_defs)

lemma table_conforms:
  "list_all (registered_with ks) table \<Longrightarrow> dom labels = set ks \<Longrightarrow>
     all_conform (table_observations source labels table)"
  by (induction table)
     (auto simp: table_observations_def registered_with_def split: option.splits)

lemma mount_conforms: "all_conform (mount_observations source me)"
  by (cases me)
     (auto simp: mount_observations_def all_conform_concat split: if_splits
        intro!: table_conforms [OF cache_table_registered] table_conforms [OF fs_table_registered])

lemma ParseLpccStatus_conforms: "ParseLpccStatus order d source = Inr os \<Longrightarrow> all_conform os"
  by (auto simp: ParseLpccStatus_def all_conform_concat mount_conforms split: prod.splits option.splits)

interpretation lpcc: observation_source "\<lambda>d. ParseLpccStatus order d source" for order source
  by unfold_locales (rule ParseLpccStatus_conforms)

section \<open>Properties\<close>

lemma table_lengths: "length (cache_table pcc) = 17" "length (fs_table fs) = 6"
  by (simp_all add: cache_table_def fs_table_def Let_def)

lemma mount_length:
  "length (mount_observations source me) = 17 * length (PCC (snd me)) + 6"
proof -
  obtain p e where me: "me = (p, e)" by (cases me)
  have "length (concat (map (\<lambda>pcc. table_observations source (f pcc) (cache_table pcc)) ps)) = 17 * length ps"
    for f ps by (induction ps) (simp_all add: table_observations_def table_lengths)
  then show ?thesis by (simp add: me mount_observations_def table_observations_def table_lengths)
qed

text \<open>
  The status of LPCC gives seventeen observations for each cache and six for each mount, and the
  order in which Go iterates over the mounts does not matter: it only permutes the observations.
\<close>

lemma lpcc_any_order:
  assumes "\<And>m. mset (order m) = mset m" "\<And>m. mset (order' m) = mset m"
    and "ParseLpccStatus order data source = Inr os"
  shows "\<exists>os'. ParseLpccStatus order' data source = Inr os' \<and> mset os' = mset os \<and>
     length os =
       (let output = snd (json_unmarshal decode_status data []) in
        17 * sum_list (map (\<lambda>me. length (PCC (snd me))) output) + 6 * length output)"
proof -
  obtain res where out: "json_unmarshal decode_status data [] = (None, res)"
    and os: "os = concat (map (mount_observations source) (order res))"
    using assms(3) by (auto simp: ParseLpccStatus_def split: prod.splits option.splits)
  have perm: "mset (concat (map (mount_observations source) (p res))) =
      mset (concat (map (mount_observations source) res))"
    if "mset (p res) = mset res" for p
    by (simp only: mset_concat_map that)
  have "length (concat (map (mount_observations source) mes)) =
      17 * sum_list (map (\<lambda>me. length (PCC (snd me))) mes) + 6 * length mes" for mes
    by (induction mes) (simp_all add: mount_length algebra_simps)
  moreover have "length os = length (concat (map (mount_observations source) res))"
    using perm [of order, OF assms(1)] os by (metis size_mset)
  ultimately show ?thesis
    using out os perm [of order, OF assms(1)] perm [of order', OF assms(2)] by (simp add: ParseLpccStatus_def Let_def)
qed

definition demo_status :: string where
  "demo_status =
     (let q = [CHR 0x22] in
      ''{'' @ q @ ''/a'' @ q @ '':{},'' @ q @ ''/b'' @ q @ '': {'' @ q @ ''pcc'' @ q @ '':[]}}'')"

lemma demo_status_decoded:
  "json_unmarshal decode_status demo_status [] = (None, [(''/a'', zero_mount_entry), (''/b'', zero_mount_entry)])"
  by code_simp

lemma lpcc_any_order_witness:
  "\<exists>os'. ParseLpccStatus rev demo_status ''lpcc status'' = Inr os' \<and>
     mset os' = mset (concat (map (mount_observations ''lpcc status'')
       [(''/a'', zero_mount_entry), (''/b'', zero_mount_entry)]))"
proof -
  have "ParseLpccStatus id demo_status ''lpcc status'' =
      Inr (concat (map (mount_observations ''lpcc status'')
        [(''/a'', zero_mount_entry), (''/b'', zero_mount_entry)]))"
    by (simp add: ParseLpccStatus_def demo_status_decoded)
  from lpcc_any_order [OF _ _ this, of rev] show ?thesis by auto
qed

end
