(* ===== verification/Paths.thy ===== *)
theory Paths
  imports Go_Strings
begin

text \<open>
  The lexical path functions of \<^verbatim>\<open>path/filepath\<close> on Unix that the exporter uses (\<open>Clean\<close>, \<open>Join\<close>,
  \<open>Dir\<close>, \<open>Base\<close>) and \<open>strings.Join\<close>.  \<open>Clean\<close> is a stack of path elements: an element \<open>..\<close>
  removes the element before it, where there is one to remove.
\<close>

abbreviation slash :: char where "slash \<equiv> CHR ''/''"

fun strings_Join :: "string list \<Rightarrow> string \<Rightarrow> string" where
  "strings_Join [] sep = []"
| "strings_Join [x] sep = x"
| "strings_Join (x # y # ys) sep = x @ sep @ strings_Join (y # ys) sep"

section \<open>Clean\<close>

definition rooted :: "string \<Rightarrow> bool" where
  "rooted p \<longleftrightarrow> p \<noteq> [] \<and> hd p = slash"

text \<open>The stack holds the elements written so far, the last one first.\<close>

definition clean_elem :: "bool \<Rightarrow> string list \<Rightarrow> string \<Rightarrow> string list" where
  "clean_elem r st e =
     (if e = [] \<or> e = ''.'' then st
      else if e = ''..'' then
        (case st of
           [] \<Rightarrow> if r then [] else [''..'']
         | t # st' \<Rightarrow> if t = ''..'' then ''..'' # st else st')
      else e # st)"

definition clean_stack :: "string \<Rightarrow> string list" where
  "clean_stack p = foldl (clean_elem (rooted p)) [] (Split slash p)"

definition Clean :: "string \<Rightarrow> string" where
  "Clean p =
     (let out = strings_Join (rev (clean_stack p)) ''/'' in
      if rooted p then slash # out else if out = [] then ''.'' else out)"

text \<open>\<open>filepath.Join\<close> drops the empty elements.\<close>

definition filepath_Join :: "string list \<Rightarrow> string" where
  "filepath_Join es =
     (let ne = filter (\<lambda>e. e \<noteq> []) es in
      if ne = [] then [] else Clean (strings_Join ne ''/''))"

definition Dir :: "string \<Rightarrow> string" where
  "Dir p = (case cut_last slash p of None \<Rightarrow> Clean [] | Some (d, b) \<Rightarrow> Clean (d @ [slash]))"

definition strip_slashes :: "string \<Rightarrow> string" where
  "strip_slashes p = rev (dropWhile (\<lambda>c. c = slash) (rev p))"

definition Base :: "string \<Rightarrow> string" where
  "Base p =
     (if p = [] then ''.''
      else
        let q = strip_slashes p;
            b = (case cut_last slash q of None \<Rightarrow> q | Some (d, b) \<Rightarrow> b)
        in if b = [] then ''/'' else b)"

lemmas path_eval =
  filepath_Join_def Clean_def clean_stack_def clean_elem_def rooted_def Dir_def Base_def strip_slashes_def
  cut_last_def

section \<open>File names\<close>

text \<open>What a directory entry other than \<open>.\<close> and \<open>..\<close> looks like.\<close>

definition path_elem :: "string \<Rightarrow> bool" where
  "path_elem e \<longleftrightarrow> e \<noteq> [] \<and> e \<noteq> ''.'' \<and> e \<noteq> ''..'' \<and> slash \<notin> set e"

lemma strings_Join_snoc:
  "strings_Join (xs @ [x]) sep = (if xs = [] then x else strings_Join xs sep @ sep @ x)"
  by (induction xs sep rule: strings_Join.induct) simp_all

lemma clean_stack_dir:
  assumes "path_elem e"
  shows "\<exists>st. clean_stack (p @ slash # e @ [slash]) = e # st"
proof -
  have "Split slash (e @ [slash]) = [e, []]"
    using Split_append [of slash e "[]"] assms by (simp add: Split_no_sep path_elem_def)
  then have "Split slash (p @ slash # e @ [slash]) = Split slash p @ [e, []]"
    by (simp add: Split_append)
  with assms show ?thesis by (auto simp: clean_stack_def clean_elem_def path_elem_def)
qed

text \<open>\<open>Clean\<close> of a path that ends in a proper element ends in that element.\<close>

lemma Clean_dir:
  assumes "path_elem e"
  shows "\<exists>d. Clean (p @ slash # e @ [slash]) = d @ e \<and> (d = [] \<or> last d = slash)"
proof -
  let ?p = "p @ slash # e @ [slash]"
  from clean_stack_dir [OF assms] obtain st where st: "clean_stack ?p = e # st" by blast
  have e: "e \<noteq> []" using assms by (simp add: path_elem_def)
  show ?thesis
  proof (cases "st = []")
    case True
    then show ?thesis using st e
      by (cases "rooted ?p") (auto simp: Clean_def strings_Join_snoc intro: exI [of _ "[slash]"])
  next
    case False
    let ?d = "strings_Join (rev st) ''/'' @ ''/''"
    have "Clean ?p = (if rooted ?p then slash # ?d else ?d) @ e"
      using st e False by (simp add: Clean_def strings_Join_snoc)
    then show ?thesis by (intro exI [of _ "if rooted ?p then slash # ?d else ?d"]) simp
  qed
qed

lemma Base_last:
  assumes "path_elem e" "d = [] \<or> last d = slash"
  shows "Base (d @ e) = e"
proof -
  from assms(1) have e: "e \<noteq> []" "slash \<notin> set e" by (auto simp: path_elem_def)
  then have "last e \<noteq> slash" by (metis last_in_set)
  with e have strip: "strip_slashes (d @ e) = d @ e"
    by (cases e rule: rev_cases) (auto simp: strip_slashes_def)
  show ?thesis
  proof (cases "d = []")
    case True
    have "cut_last slash e = None"
      using e(2) cut_first_None [of slash "rev e"] by (simp add: cut_last_def)
    with True e strip show ?thesis by (simp add: Base_def)
  next
    case False
    with assms(2) obtain d' where "d = d' @ [slash]" by (metis append_butlast_last_id)
    with e have "cut_last slash (d @ e) = Some (d', e)" by (simp add: cut_last_Some)
    with e strip show ?thesis by (simp add: Base_def)
  qed
qed

text \<open>The name of a target is the directory that holds its file.\<close>

lemma Base_Dir:
  assumes "path_elem e" "slash \<notin> set f"
  shows "Base (Dir (p @ slash # e @ slash # f)) = e"
proof -
  have "cut_last slash (p @ slash # e @ slash # f) = Some (p @ slash # e, f)"
    using assms(2) by (simp add: cut_last_Some)
  then have "Dir (p @ slash # e @ slash # f) = Clean (p @ slash # e @ [slash])"
    by (simp add: Dir_def)
  moreover from Clean_dir [OF assms(1)] obtain d
    where "Clean (p @ slash # e @ [slash]) = d @ e" "d = [] \<or> last d = slash" by blast
  ultimately show ?thesis using Base_last [OF assms(1)] by simp
qed

section \<open>Normal forms\<close>

text \<open>The elements \<open>Clean\<close> can leave: proper ones, after some \<open>..\<close> when the path is not rooted.\<close>

definition normal :: "bool \<Rightarrow> string list \<Rightarrow> bool" where
  "normal r ws \<longleftrightarrow>
     (\<exists>k es. ws = replicate k ''..'' @ es \<and> list_all path_elem es \<and> (r \<longrightarrow> k = 0))"

lemma normalI:
  "ws = replicate k ''..'' @ es \<Longrightarrow> list_all path_elem es \<Longrightarrow> r \<longrightarrow> k = 0 \<Longrightarrow> normal r ws"
  unfolding normal_def by (intro exI conjI)

lemma normal_elems: "normal r ws \<Longrightarrow> w \<in> set ws \<Longrightarrow> w \<noteq> [] \<and> w \<noteq> ''.'' \<and> slash \<notin> set w"
proof -
  assume "normal r ws" "w \<in> set ws"
  then obtain k es where "list_all path_elem es" "w \<in> set (replicate k ''..'') \<union> set es"
    by (auto simp: normal_def)
  then have "w = ''..'' \<or> path_elem w" by (auto simp: list_all_iff split: if_splits)
  then show ?thesis by (elim disjE) (simp_all add: path_elem_def)
qed

lemma clean_elem_normal:
  assumes "normal r (rev st)" "slash \<notin> set e"
  shows "normal r (rev (clean_elem r st e))"
proof -
  from assms(1) obtain k es where st: "rev st = replicate k ''..'' @ es" "list_all path_elem es"
    "r \<longrightarrow> k = 0" by (auto simp: normal_def)
  consider "e = [] \<or> e = ''.''" | "e = ''..''" "es = []" | "e = ''..''" "es \<noteq> []" | "path_elem e"
    using assms(2) by (auto simp: path_elem_def)
  then show ?thesis
  proof cases
    case 1
    with assms(1) show ?thesis by (simp add: clean_elem_def)
  next
    case 2
    show ?thesis
    proof (cases k)
      case 0
      with st 2 have "st = []" by simp
      with 2 have "clean_elem r st e = (if r then [] else [''..''])" by (simp add: clean_elem_def)
      then show ?thesis by (intro normalI [of _ "if r then 0 else 1" "[]"]) simp_all
    next
      case (Suc j)
      with st 2 have r: "rev st = ''..'' # replicate j ''..''" "\<not> r" by simp_all
      then have st': "st = replicate j ''..'' @ [''..'']" by (metis rev_rev_ident rev.simps(2) rev_replicate)
      then have "st = ''..'' # replicate j ''..''" by (simp add: replicate_append_same)
      with 2 have "clean_elem r st e = ''..'' # st" by (simp add: clean_elem_def)
      with r st' show ?thesis by (intro normalI [of _ "Suc (Suc j)" "[]"]) (simp_all add: replicate_append_same)
    qed
  next
    case 3
    then obtain es' x where es: "es = es' @ [x]" by (metis rev_exhaust)
    with st have x: "x \<noteq> ''..''" "list_all path_elem es'" by (simp_all add: path_elem_def)
    from st(1) es have "st = x # rev (replicate k ''..'' @ es')" by (simp add: rev_swap)
    with 3 x have "rev (clean_elem r st e) = replicate k ''..'' @ es'" by (simp add: clean_elem_def)
    with x st(3) show ?thesis by (intro normalI) simp_all
  next
    case 4
    then have "clean_elem r st e = e # st" by (auto simp: clean_elem_def path_elem_def)
    with st 4 show ?thesis by (intro normalI [of _ k "es @ [e]"]) simp_all
  qed
qed

lemma Split_elems: "x \<in> set (Split c s) \<Longrightarrow> c \<notin> set x"
proof (induction s arbitrary: x)
  case (Cons y s)
  obtain p ps where "Split c s = p # ps" by (cases "Split c s") auto
  with Cons show ?case by (auto split: if_splits)
qed simp

lemma clean_fold_normal:
  "normal r (rev st) \<Longrightarrow> \<forall>e \<in> set es. slash \<notin> set e \<Longrightarrow> normal r (rev (foldl (clean_elem r) st es))"
  by (induction es arbitrary: st) (simp_all add: clean_elem_normal)

lemma clean_stack_normal: "normal (rooted p) (rev (clean_stack p))"
proof -
  have "normal (rooted p) (rev [])" by (simp add: normal_def)
  then show ?thesis unfolding clean_stack_def by (rule clean_fold_normal) (simp add: Split_elems)
qed

lemma clean_fold_dots: "foldl (clean_elem False) (replicate j ''..'') (replicate k ''..'') = replicate (k + j) ''..''"
proof (induction k arbitrary: j)
  case (Suc k)
  have "clean_elem False (replicate j ''..'') ''..'' = replicate (Suc j) ''..''"
    by (cases j) (simp_all add: clean_elem_def)
  with Suc.IH [of "Suc j"] show ?case by simp
qed simp

lemma clean_fold_elems: "list_all path_elem es \<Longrightarrow> foldl (clean_elem r) st es = rev es @ st"
  by (induction es arbitrary: st) (auto simp: clean_elem_def path_elem_def)

lemma clean_fold_normal_id: "normal r ws \<Longrightarrow> foldl (clean_elem r) [] ws = rev ws"
proof -
  assume "normal r ws"
  then obtain k es where ws: "ws = replicate k ''..'' @ es" "list_all path_elem es" "r \<longrightarrow> k = 0"
    by (auto simp: normal_def)
  with clean_fold_dots [of 0 k] show ?thesis
    by (cases r) (simp_all add: clean_fold_elems)
qed

lemma Split_strings_Join_slash:
  "ws \<noteq> [] \<Longrightarrow> \<forall>w \<in> set ws. slash \<notin> set w \<Longrightarrow> Split slash (strings_Join ws ''/'') = ws"
proof (induction ws rule: list_nonempty_induct)
  case (single x)
  then show ?case by (simp add: Split_no_sep)
next
  case (cons x xs)
  then obtain y ys where "xs = y # ys" by (cases xs) auto
  with cons show ?case by (auto simp: Split_append Split_no_sep)
qed

lemma strings_Join_ne: "ws \<noteq> [] \<Longrightarrow> \<forall>w \<in> set ws. w \<noteq> [] \<Longrightarrow>
    strings_Join ws sep \<noteq> [] \<and> hd (strings_Join ws sep) = hd (hd ws)"
  by (cases "(ws, sep)" rule: strings_Join.cases) auto

text \<open>A clean path, from its elements.\<close>

definition path_of :: "bool \<Rightarrow> string list \<Rightarrow> string" where
  "path_of r ws =
     (let out = strings_Join ws ''/'' in
      if r then slash # out else if out = [] then ''.'' else out)"

lemma Clean_path_of: "Clean p = path_of (rooted p) (rev (clean_stack p))"
  by (simp add: Clean_def path_of_def Let_def)

lemma path_of_rooted: "normal r ws \<Longrightarrow> rooted (path_of r ws) = r"
proof (cases "ws = []")
  case False
  assume n: "normal r ws"
  then have w: "\<forall>w \<in> set ws. w \<noteq> [] \<and> slash \<notin> set w" using normal_elems by blast
  with strings_Join_ne [OF False, of "''/''"] have
    "strings_Join ws ''/'' \<noteq> []" "hd (strings_Join ws ''/'') = hd (hd ws)" by auto
  moreover have "hd (hd ws) \<noteq> slash" using w False by (metis hd_in_set)
  ultimately show ?thesis by (auto simp: path_of_def rooted_def Let_def)
qed (simp add: path_of_def rooted_def)

lemma clean_stack_path_of:
  assumes "normal r ws"
  shows "clean_stack (path_of r ws) = rev ws"
proof (cases "ws = []")
  case True
  then show ?thesis by (cases r) (simp_all add: path_of_def clean_stack_def clean_elem_def rooted_def)
next
  case False
  have w: "\<forall>w \<in> set ws. slash \<notin> set w" "\<forall>w \<in> set ws. w \<noteq> []" using normal_elems [OF assms] by auto
  have "Split slash (path_of r ws) = (if r then [[]] else []) @ ws"
    using Split_strings_Join_slash [OF False w(1)] strings_Join_ne [OF False w(2), of "''/''"]
      Split_append [of slash "[]" "strings_Join ws ''/''"]
    by (simp add: path_of_def)
  then have "clean_stack (path_of r ws) = foldl (clean_elem r) [] ws"
    using path_of_rooted [OF assms] by (simp add: clean_stack_def clean_elem_def)
  with clean_fold_normal_id [OF assms] show ?thesis by simp
qed

lemma Clean_normal: "normal r ws \<Longrightarrow> Clean (path_of r ws) = path_of r ws"
  by (simp add: Clean_path_of path_of_rooted clean_stack_path_of)

lemma Clean_idem: "Clean (Clean p) = Clean p"
  using Clean_normal [OF clean_stack_normal [of p]] by (simp add: Clean_path_of [of p])

text \<open>A clean rooted path below a root directory.\<close>

lemma Clean_below:
  assumes "root \<noteq> []" "rooted p" "Clean p = p"
  shows "Clean (root @ slash # p) = path_of (rooted root) (rev (clean_stack root) @ rev (clean_stack p))"
proof -
  have n: "normal True (rev (clean_stack p))" using clean_stack_normal [of p] assms(2) by simp
  then have es: "list_all path_elem (rev (clean_stack p))" by (auto simp: normal_def)
  obtain q where q: "p = slash # q" using assms(2) by (cases p) (auto simp: rooted_def)
  have "foldl (clean_elem True) [] (Split slash q) = clean_stack p"
    using q assms(2) Split_append [of slash "[]" q] by (simp add: clean_stack_def clean_elem_def)
  have p: "p = path_of True (rev (clean_stack p))" using assms(2,3) Clean_path_of [of p] by simp
  have sp: "foldl (clean_elem r) st (Split slash q) = clean_stack p @ st" for r st
  proof (cases "clean_stack p = []")
    case True
    with p q have "q = []" by (simp add: path_of_def)
    with True show ?thesis by (simp add: clean_elem_def)
  next
    case False
    have "q = strings_Join (rev (clean_stack p)) ''/''" using p q by (simp add: path_of_def)
    then have "Split slash q = rev (clean_stack p)"
      using Split_strings_Join_slash [of "rev (clean_stack p)"] False es
      by (auto simp: path_elem_def list_all_iff)
    with clean_fold_elems [OF es] show ?thesis by simp
  qed
  have "rooted (root @ slash # p) = rooted root" using assms(1) by (simp add: rooted_def)
  moreover have "Split slash (root @ slash # p) = Split slash root @ [] # Split slash q"
    using q Split_append [of slash root p] Split_append [of slash "[]" q] by simp
  ultimately have "clean_stack (root @ slash # p) = clean_stack p @ clean_stack root"
    by (simp add: clean_stack_def clean_elem_def sp del: Split.simps)
  with \<open>rooted (root @ slash # p) = rooted root\<close> show ?thesis by (simp add: Clean_path_of)
qed

end
