(* ===== verification/Reader.thy ===== *)
theory Reader
  imports Prelude Paths
begin

text \<open>
  \<^verbatim>\<open>internal/reader\<close>: access to the file system and to commands.  The Go interface \<open>Reader\<close> is a
  record of its three methods, already applied to the context of the scrape: a value of the record is
  what the calls of one scrape return.  No collector reads a path or runs a command line twice in one
  scrape with the default paths, so a function of the path loses no behaviour: a file that changes or
  a deadline that passes between two reads is a different value of the record.

  A context is what \<open>ctx.Err()\<close> yields: \<open>None\<close> while it is live, \<open>Some e\<close> once it is done.
\<close>

type_synonym ctx = "go_error option"

record reader =
  ReadFile :: "string \<Rightarrow> string result"
  Glob :: "string \<Rightarrow> string list result"
  RunCommand :: "string \<Rightarrow> string list \<Rightarrow> string result"

section \<open>FakeReader\<close>

record fake_store =
  Files :: "string \<rightharpoonup> string"
  Globs :: "string \<rightharpoonup> string list"
  Commands :: "string \<rightharpoonup> string"
  FErrors :: "string \<rightharpoonup> go_error"

definition NewFakeReader :: fake_store where
  "NewFakeReader =
     \<lparr>Files = Map.empty, Globs = Map.empty, Commands = Map.empty, FErrors = Map.empty\<rparr>"

definition fake_ReadFile :: "fake_store \<Rightarrow> ctx \<Rightarrow> string \<Rightarrow> string result" where
  "fake_ReadFile r ctx path =
     (case ctx of
        Some err \<Rightarrow> Inl err
      | None \<Rightarrow>
          (case FErrors r path of
             Some err \<Rightarrow> Inl err
           | None \<Rightarrow>
               (case Files r path of
                  None \<Rightarrow> Inl (Errorf ''fake: file not found: %s: %w'' [ArgS path] [NotExist])
                | Some data \<Rightarrow> Inr data)))"

definition fake_Glob :: "fake_store \<Rightarrow> ctx \<Rightarrow> string \<Rightarrow> string list result" where
  "fake_Glob r ctx pattern =
     (case ctx of
        Some err \<Rightarrow> Inl err
      | None \<Rightarrow>
          (case FErrors r pattern of
             Some err \<Rightarrow> Inl err
           | None \<Rightarrow> (case Globs r pattern of None \<Rightarrow> Inr [] | Some matches \<Rightarrow> Inr matches)))"

definition fake_RunCommand :: "fake_store \<Rightarrow> ctx \<Rightarrow> string \<Rightarrow> string list \<Rightarrow> string result" where
  "fake_RunCommand r ctx cmd args =
     (let key = cmd @ '' '' @ strings_Join args '' '' in
      (case FErrors r key of
         Some err \<Rightarrow> Inl err
       | None \<Rightarrow>
           (case Commands r key of
              None \<Rightarrow> Inl (Errorf ''fake: command not found: %s'' [ArgS key] [])
            | Some data \<Rightarrow> Inr data)))"

definition fake_reader :: "fake_store \<Rightarrow> ctx \<Rightarrow> reader" where
  "fake_reader r ctx =
     \<lparr>ReadFile = fake_ReadFile r ctx, Glob = fake_Glob r ctx, RunCommand = fake_RunCommand r ctx\<rparr>"

section \<open>filepath.Rel\<close>

text \<open>The elements of a clean path; \<open>.\<close> is an element of a target but not of a base.\<close>

definition path_words :: "string \<Rightarrow> string list" where
  "path_words p =
     (let q = (if rooted p then tl p else p) in if q = [] then [] else Split slash q)"

text \<open>\<open>None\<close> when the base has a \<open>..\<close> that the target does not share.\<close>

fun rel_words :: "string list \<Rightarrow> string list \<Rightarrow> string list option" where
  "rel_words [] ts = Some ts"
| "rel_words (b # bs) [] = Some (map (\<lambda>_. ''..'') (b # bs))"
| "rel_words (b # bs) (t # ts) =
     (if b = t then rel_words bs ts
      else if b = ''..'' then None
      else Some (map (\<lambda>_. ''..'') (b # bs) @ t # ts))"

definition filepath_Rel :: "string \<Rightarrow> string \<Rightarrow> string result" where
  "filepath_Rel basepath targpath =
     (let base = Clean basepath; targ = Clean targpath in
      if targ = base then Inr ''.''
      else
        let base' = (if base = ''.'' then [] else base) in
        if rooted base' \<noteq> rooted targ
        then Inl (SourceError (''Rel: can't make '' @ targpath @ '' relative to '' @ basepath))
        else (case rel_words (path_words base') (path_words targ) of
                None \<Rightarrow> Inl (SourceError (''Rel: can't make '' @ targpath @ '' relative to '' @ basepath))
              | Some ws \<Rightarrow> Inr (strings_Join ws ''/'')))"

section \<open>FSReader\<close>

text \<open>
  The operating system below \<open>FSReader\<close> is a parameter: what \<open>os.ReadFile\<close>, \<open>filepath.Glob\<close> and
  \<open>Cmd.Output\<close> return for a resolved path, pattern or command line.  \<open>entry\<close> is \<open>ctx.Err()\<close> at the
  start of the call; \<open>race\<close> is \<open>Some e\<close> when the \<open>select\<close> takes the branch of the done context, and then
  the result of the read is dropped; \<open>cmd_ctx\<close> is \<open>Some e\<close> when the context is done before the command
  starts or kills it, and \<open>e\<close> is what \<open>Output\<close> returns then.
\<close>

record os_calls =
  os_ReadFile :: "string \<Rightarrow> string result"
  os_Glob :: "string \<Rightarrow> string list result"
  cmd_Output :: "string \<Rightarrow> string list \<Rightarrow> string result"

record fs_context =
  entry :: "string \<Rightarrow> ctx"
  race :: "string \<Rightarrow> ctx"
  cmd_ctx :: "string list \<Rightarrow> ctx"

definition no_root :: "string \<Rightarrow> bool" where
  "no_root root \<longleftrightarrow> root = [] \<or> root = ''/''"

definition resolvePath :: "string \<Rightarrow> string \<Rightarrow> string" where
  "resolvePath root path = (if no_root root then path else filepath_Join [root, path])"

definition fs_ReadFile :: "string \<Rightarrow> os_calls \<Rightarrow> fs_context \<Rightarrow> string \<Rightarrow> string result" where
  "fs_ReadFile root os c path =
     (case entry c path of
        Some err \<Rightarrow> Inl err
      | None \<Rightarrow>
          (case race c path of
             Some err \<Rightarrow> Inl err
           | None \<Rightarrow> os_ReadFile os (resolvePath root path)))"

definition unresolve :: "string \<Rightarrow> string \<Rightarrow> string" where
  "unresolve root m = (case filepath_Rel root m of Inl err \<Rightarrow> m | Inr rel \<Rightarrow> slash # rel)"

definition fs_Glob :: "string \<Rightarrow> os_calls \<Rightarrow> fs_context \<Rightarrow> string \<Rightarrow> string list result" where
  "fs_Glob root os c pattern =
     (case entry c pattern of
        Some err \<Rightarrow> Inl err
      | None \<Rightarrow>
          (case race c pattern of
             Some err \<Rightarrow> Inl err
           | None \<Rightarrow>
               bind_res (os_Glob os (resolvePath root pattern))
                 (\<lambda>matches. if no_root root then Inr matches else Inr (map (unresolve root) matches))))"

definition fs_RunCommand :: "os_calls \<Rightarrow> fs_context \<Rightarrow> string \<Rightarrow> string list \<Rightarrow> string result" where
  "fs_RunCommand os c cmd args =
     (case cmd_ctx c (cmd # args) of
        Some err \<Rightarrow> Inl err
      | None \<Rightarrow> cmd_Output os cmd args)"

definition fs_reader :: "string \<Rightarrow> os_calls \<Rightarrow> fs_context \<Rightarrow> reader" where
  "fs_reader root os c =
     \<lparr>ReadFile = fs_ReadFile root os c, Glob = fs_Glob root os c, RunCommand = fs_RunCommand os c\<rparr>"

section \<open>ReadFirstAvailable\<close>

text \<open>The loop, with the error of the last failed read.\<close>

fun read_loop :: "reader \<Rightarrow> go_error \<Rightarrow> string list \<Rightarrow> (string \<times> string) result" where
  "read_loop r lastErr [] = Inl lastErr"
| "read_loop r lastErr (p # ps) =
     (case ReadFile r p of
        Inl err \<Rightarrow> read_loop r err ps
      | Inr data \<Rightarrow> Inr (data, p))"

definition no_paths :: go_error where
  "no_paths = Errorf ''no paths provided'' [] []"

text \<open>\<open>lastErr\<close> starts as nil in the code; the loop sets it before it can be returned.\<close>

definition ReadFirstAvailable :: "reader \<Rightarrow> string list \<Rightarrow> (string \<times> string) result" where
  "ReadFirstAvailable r paths =
     (if paths = [] then Inl no_paths else read_loop r no_paths paths)"

lemma read_loop_Inr:
  "read_loop r e ps = Inr (data, p) \<longleftrightarrow>
     (\<exists>us vs. ps = us @ p # vs \<and> (\<forall>u \<in> set us. \<not> is_ok (ReadFile r u)) \<and> ReadFile r p = Inr data)"
proof (induction ps arbitrary: e)
  case (Cons q qs)
  show ?case
  proof (cases "ReadFile r q")
    case (Inl err)
    have "(\<exists>us vs. q # qs = us @ p # vs \<and> (\<forall>u \<in> set us. \<not> is_ok (ReadFile r u)) \<and>
              ReadFile r p = Inr data) \<longleftrightarrow>
          (\<exists>us vs. qs = us @ p # vs \<and> (\<forall>u \<in> set us. \<not> is_ok (ReadFile r u)) \<and>
              ReadFile r p = Inr data)" (is "?L = ?R")
    proof
      assume ?L
      then obtain us vs where "q # qs = us @ p # vs" "\<forall>u \<in> set us. \<not> is_ok (ReadFile r u)"
        "ReadFile r p = Inr data" by blast
      with Inl show ?R by (cases us) auto
    next
      assume ?R
      then obtain us vs where "qs = us @ p # vs" "\<forall>u \<in> set us. \<not> is_ok (ReadFile r u)"
        "ReadFile r p = Inr data" by blast
      with Inl show ?L by (intro exI [of _ "q # us"] exI [of _ vs]) simp
    qed
    with Inl Cons.IH show ?thesis by simp
  next
    case (Inr d)
    show ?thesis
    proof
      assume "read_loop r e (q # qs) = Inr (data, p)"
      with Inr show "\<exists>us vs. q # qs = us @ p # vs \<and> (\<forall>u \<in> set us. \<not> is_ok (ReadFile r u)) \<and>
              ReadFile r p = Inr data" by (intro exI [of _ "[]"] exI [of _ qs]) simp
    next
      assume "\<exists>us vs. q # qs = us @ p # vs \<and> (\<forall>u \<in> set us. \<not> is_ok (ReadFile r u)) \<and>
              ReadFile r p = Inr data"
      then obtain us vs where "q # qs = us @ p # vs" "\<forall>u \<in> set us. \<not> is_ok (ReadFile r u)"
        "ReadFile r p = Inr data" by blast
      with Inr show "read_loop r e (q # qs) = Inr (data, p)" by (cases us) auto
    qed
  qed
qed simp

lemma read_loop_Inl:
  "read_loop r e ps = Inl err \<longleftrightarrow>
     (\<forall>p \<in> set ps. \<not> is_ok (ReadFile r p)) \<and>
     (if ps = [] then err = e else ReadFile r (last ps) = Inl err)"
  by (induction ps arbitrary: e) (auto split: sum.splits)

lemma ReadFirstAvailable_Inr:
  "ReadFirstAvailable r ps = Inr (data, p) \<longleftrightarrow>
     (\<exists>us vs. ps = us @ p # vs \<and> (\<forall>u \<in> set us. \<not> is_ok (ReadFile r u)) \<and> ReadFile r p = Inr data)"
  by (auto simp: ReadFirstAvailable_def read_loop_Inr)

lemma ReadFirstAvailable_ok:
  "is_ok (ReadFirstAvailable r ps) \<longleftrightarrow> (\<exists>p \<in> set ps. is_ok (ReadFile r p))"
proof (cases "ReadFirstAvailable r ps")
  case (Inl err)
  then show ?thesis by (auto simp: ReadFirstAvailable_def read_loop_Inl split: if_splits)
next
  case (Inr dp)
  obtain data p where dp: "dp = (data, p)" by (cases dp)
  with Inr obtain us vs where "ps = us @ p # vs" "ReadFile r p = Inr data"
    by (auto simp: ReadFirstAvailable_Inr)
  with Inr show ?thesis by force
qed

section \<open>The interface of the readers\<close>

text \<open>
  What the collectors rely on when the context of a scrape is already done: every read and every glob
  fails with the error of the context.
\<close>

locale bounded_reader =
  fixes mk :: "ctx \<Rightarrow> reader"
  assumes done_read: "ReadFile (mk (Some e)) p = Inl e"
    and done_glob: "Glob (mk (Some e)) pat = Inl e"
begin

lemma done_first: "ps \<noteq> [] \<Longrightarrow> ReadFirstAvailable (mk (Some e)) ps = Inl e"
  by (simp add: ReadFirstAvailable_def read_loop_Inl done_read)

end

interpretation fake: bounded_reader "fake_reader s" for s
  by unfold_locales (simp_all add: fake_reader_def fake_ReadFile_def fake_Glob_def)

text \<open>
  A reader whose commands end with the context too.  The reader of the tests is not one: its
  \<open>RunCommand\<close> does not look at the context.
\<close>

locale bounded_commands = bounded_reader +
  assumes done_command: "RunCommand (mk (Some e)) cmd args = Inl e"

definition ctx_reader :: "string \<Rightarrow> os_calls \<Rightarrow> (string \<Rightarrow> ctx) \<Rightarrow> ctx \<Rightarrow> reader" where
  "ctx_reader root os rc ctx =
     fs_reader root os \<lparr>entry = \<lambda>_. ctx, race = rc, cmd_ctx = \<lambda>_. ctx\<rparr>"

interpretation fs: bounded_commands "ctx_reader root os rc" for root os rc
  by unfold_locales
     (simp_all add: ctx_reader_def fs_reader_def fs_ReadFile_def fs_Glob_def fs_RunCommand_def)

section \<open>Paths below a root file system\<close>

lemma path_words_path_of:
  assumes "normal r ws" "r \<or> ws \<noteq> []"
  shows "path_words (path_of r ws) = ws"
proof (cases "ws = []")
  case True
  with assms(2) show ?thesis by (simp add: path_words_def path_of_def rooted_def)
next
  case False
  have w: "\<forall>w \<in> set ws. slash \<notin> set w" "\<forall>w \<in> set ws. w \<noteq> []" using normal_elems [OF assms(1)] by auto
  note sp = Split_strings_Join_slash [OF False w(1)] strings_Join_ne [OF False w(2), of "''/''"]
  show ?thesis
    using sp path_of_rooted [OF assms(1)] by (cases r) (simp_all add: path_words_def path_of_def Let_def)
qed

lemma rel_words_append: "rel_words bs (bs @ ts) = Some ts"
  by (induction bs) simp_all

lemma path_of_dot:
  assumes "normal r ws" "r \<or> ws \<noteq> []"
  shows "path_of r ws \<noteq> ''.''"
proof
  assume "path_of r ws = ''.''"
  moreover have "path_words ''.'' = [''.'']" by (simp add: path_words_def rooted_def)
  ultimately have "ws = [''.'']" using path_words_path_of [OF assms] by simp
  with normal_elems [OF assms(1), of "''.''"] show False by simp
qed

lemma Rel_below:
  assumes n: "normal r (bs @ ts)" "normal r bs" and ts: "ts \<noteq> []"
    and base: "Clean root = path_of r bs"
  shows "filepath_Rel root (path_of r (bs @ ts)) = Inr (strings_Join ts ''/'')"
proof -
  let ?targ = "path_of r (bs @ ts)"
  have targ: "Clean ?targ = ?targ" "path_words ?targ = bs @ ts" "rooted ?targ = r" "?targ \<noteq> ''.''"
    using Clean_normal [OF n(1)] path_words_path_of [OF n(1)] path_of_rooted [OF n(1)]
      path_of_dot [OF n(1)] ts by simp_all
  show ?thesis
  proof (cases "r \<or> bs \<noteq> []")
    case True
    then have b: "path_words (path_of r bs) = bs" "path_of r bs \<noteq> ''.''" "rooted (path_of r bs) = r"
      using path_words_path_of [OF n(2)] path_of_dot [OF n(2)] path_of_rooted [OF n(2)] by auto
    moreover have "?targ \<noteq> path_of r bs" using b(1) targ(2) ts by auto
    ultimately show ?thesis by (simp add: filepath_Rel_def base targ rel_words_append)
  next
    case False
    then have "path_of r bs = ''.''" by (simp add: path_of_def)
    moreover have "path_words [] = []" "\<not> rooted []" by (simp_all add: path_words_def rooted_def)
    ultimately show ?thesis using targ False by (simp add: filepath_Rel_def base)
  qed
qed

lemma unresolve_resolve:
  assumes "\<not> no_root root" "rooted p" "Clean p = p" "p \<noteq> ''/''"
  shows "unresolve root (resolvePath root p) = p"
proof -
  let ?bs = "rev (clean_stack root)" and ?ts = "rev (clean_stack p)"
  have root: "root \<noteq> []" using assms(1) by (simp add: no_root_def)
  have p: "p = path_of True ?ts" using assms(2,3) Clean_path_of [of p] by simp
  have ts: "?ts \<noteq> []" using assms(4) p by (auto simp: path_of_def)
  have nts: "list_all path_elem ?ts" using clean_stack_normal [of p] assms(2) by (auto simp: normal_def)
  have nb: "normal (rooted root) ?bs" by (rule clean_stack_normal)
  then obtain k es where "?bs = replicate k ''..'' @ es" "list_all path_elem es" "rooted root \<longrightarrow> k = 0"
    by (auto simp: normal_def)
  then have n: "normal (rooted root) (?bs @ ?ts)"
    using nts by (intro normalI [of _ k "es @ ?ts"]) (simp_all del: rev_append)
  have "p \<noteq> []" using assms(2) by (simp add: rooted_def)
  then have "resolvePath root p = path_of (rooted root) (?bs @ ?ts)"
    using assms(1) root Clean_below [OF root assms(2,3)]
    by (simp add: resolvePath_def filepath_Join_def)
  with Rel_below [OF n nb ts Clean_path_of] have
    "unresolve root (resolvePath root p) = slash # strings_Join ?ts ''/''"
    by (simp add: unresolve_def)
  also have "\<dots> = p" by (subst (2) p) (simp add: path_of_def)
  finally show ?thesis .
qed

section \<open>Properties\<close>

text \<open>
  With any root file system, \<open>FSReader.Glob\<close> gives back the paths the collectors know: when the
  operating system finds the files of clean absolute paths below the root, the result is those
  paths without the root, so reading one of them reads the file that was found.
\<close>

lemma fs_glob_paths:
  assumes "os_Glob os (resolvePath root pat) = Inr (map (resolvePath root) ps)"
    and "list_all (\<lambda>p. rooted p \<and> Clean p = p \<and> p \<noteq> ''/'') ps"
    and "entry c pat = None" "race c pat = None"
  shows "Glob (fs_reader root os c) pat = Inr ps"
proof (cases "no_root root")
  case True
  then have "map (resolvePath root) ps = ps" by (simp add: resolvePath_def map_idI)
  with True assms show ?thesis by (simp add: fs_reader_def fs_Glob_def)
next
  case False
  then have "map (unresolve root) (map (resolvePath root) ps) = ps"
    using assms(2) by (auto simp: list_all_iff unresolve_resolve intro!: map_idI)
  with False assms show ?thesis by (simp add: fs_reader_def fs_Glob_def)
qed

definition demo_os :: os_calls where
  "demo_os =
     \<lparr>os_ReadFile = \<lambda>p. Inl NotExist,
      os_Glob = \<lambda>p. Inr [''/host/root/proc/fs/lustre/llite/a/stats''],
      cmd_Output = \<lambda>c args. Inl NotExist\<rparr>"

definition live_context :: fs_context where
  "live_context = \<lparr>entry = \<lambda>_. None, race = \<lambda>_. None, cmd_ctx = \<lambda>_. None\<rparr>"

lemma fs_glob_paths_witness:
  "Glob (fs_reader ''/host/x/../root/'' demo_os live_context) ''/proc/fs/lustre/llite/*/stats'' =
     Inr [''/proc/fs/lustre/llite/a/stats'']"
  by (rule fs_glob_paths)
     (simp_all add: demo_os_def live_context_def resolvePath_def no_root_def path_eval)

text \<open>
  \<open>ReadFirstAvailable\<close> returns the data and the path of the first path that can be read; it fails
  only when none can, with the error of the last one, or when there is no path.
\<close>

lemma read_first_available:
  "(ReadFirstAvailable r ps = Inr (data, p) \<longleftrightarrow>
      (\<exists>us vs. ps = us @ p # vs \<and> list_all (\<lambda>u. \<not> is_ok (ReadFile r u)) us \<and> ReadFile r p = Inr data)) \<and>
   (ReadFirstAvailable r ps = Inl err \<longleftrightarrow>
      (if ps = [] then err = no_paths
       else list_all (\<lambda>u. \<not> is_ok (ReadFile r u)) ps \<and> ReadFile r (last ps) = Inl err))"
proof
  show "ReadFirstAvailable r ps = Inr (data, p) \<longleftrightarrow>
      (\<exists>us vs. ps = us @ p # vs \<and> list_all (\<lambda>u. \<not> is_ok (ReadFile r u)) us \<and> ReadFile r p = Inr data)"
    by (simp add: ReadFirstAvailable_Inr list_all_iff)
  show "ReadFirstAvailable r ps = Inl err \<longleftrightarrow>
      (if ps = [] then err = no_paths
       else list_all (\<lambda>u. \<not> is_ok (ReadFile r u)) ps \<and> ReadFile r (last ps) = Inl err)"
    by (auto simp: ReadFirstAvailable_def read_loop_Inl list_all_iff)
qed

end
