(* ===== verification/Discovery.thy ===== *)
theory Discovery
  imports Reader
begin

text \<open>
  \<^verbatim>\<open>internal/discovery/discovery.go\<close>: the paths of the Lustre files and the discovery of the client
  targets, with the index that keeps one target per component and name.
\<close>

section \<open>Paths\<close>

record PathConfig =
  ProcFS :: string
  SysFS :: string
  DebugFS :: string

definition DefaultPathConfig :: PathConfig where
  "DefaultPathConfig = \<lparr>ProcFS = ''/proc'', SysFS = ''/sys'', DebugFS = ''/sys/kernel/debug''\<rparr>"

definition HealthPath :: "PathConfig \<Rightarrow> string" where
  "HealthPath cfg = filepath_Join [SysFS cfg, ''fs'', ''lustre'', ''health_check'']"

definition sptlrpcPath :: "PathConfig \<Rightarrow> string" where
  "sptlrpcPath cfg = filepath_Join [DebugFS cfg, ''lustre'', ''sptlrpc'', ''encrypt_page_pools'']"

definition SptlrpcPaths :: "PathConfig \<Rightarrow> string list" where
  "SptlrpcPaths cfg =
     [sptlrpcPath cfg,
      filepath_Join [ProcFS cfg, ''fs'', ''lustre'', ''sptlrpc'', ''encrypt_page_pools'']]"

definition LDLMCBDStatsPaths :: "PathConfig \<Rightarrow> string list" where
  "LDLMCBDStatsPaths cfg =
     [filepath_Join [DebugFS cfg, ''lustre'', ''ldlm'', ''services'', ''ldlm_cbd'', ''stats''],
      filepath_Join [ProcFS cfg, ''fs'', ''lustre'', ''ldlm'', ''services'', ''ldlm_cbd'', ''stats'']]"

datatype LNetSource = LNetSourceAuto | LNetSourceDebugFS | LNetSourceLNetCtl

definition lnetStatsPath :: "PathConfig \<Rightarrow> string" where
  "lnetStatsPath cfg = filepath_Join [ProcFS cfg, ''sys'', ''lnet'', ''stats'']"

definition LNetDebugFSStatsPath :: "PathConfig \<Rightarrow> string" where
  "LNetDebugFSStatsPath cfg = filepath_Join [DebugFS cfg, ''lnet'', ''stats'']"

definition LNetStatsPaths :: "PathConfig \<Rightarrow> string list" where
  "LNetStatsPaths cfg = [LNetDebugFSStatsPath cfg, lnetStatsPath cfg]"

definition LNetParamNames :: "string list" where
  "LNetParamNames =
     [''console_backoff'', ''console_max_delay_centisecs'', ''console_min_delay_centisecs'',
      ''console_ratelimit'', ''debug_mb'', ''panic_on_lbug'', ''watchdog_ratelimit'',
      ''catastrophe'', ''lnet_memused'', ''fail_err'', ''fail_val'']"

definition LNetParamPath :: "PathConfig \<Rightarrow> string \<Rightarrow> string" where
  "LNetParamPath cfg paramName = filepath_Join [ProcFS cfg, ''sys'', ''lnet'', paramName]"

definition LNetDebugFSParamPath :: "PathConfig \<Rightarrow> string \<Rightarrow> string" where
  "LNetDebugFSParamPath cfg paramName = filepath_Join [DebugFS cfg, ''lnet'', paramName]"

definition LNetParamPaths :: "PathConfig \<Rightarrow> string \<Rightarrow> string list" where
  "LNetParamPaths cfg paramName =
     (if paramName = ''fail_val'' then
        [LNetDebugFSParamPath cfg ''fail_val'', LNetParamPath cfg ''fail_val'',
         LNetDebugFSParamPath cfg ''fail_max'', LNetParamPath cfg ''fail_max'']
      else [LNetDebugFSParamPath cfg paramName, LNetParamPath cfg paramName])"

section \<open>Client targets\<close>

record ClientTarget =
  Component :: string
  TName :: string
  StatsPath :: string
  RpcStatsPath :: string
  BasePath :: string
  ParamRoots :: "string list"

definition clientParamRoots :: "PathConfig \<Rightarrow> string \<Rightarrow> string \<Rightarrow> string list" where
  "clientParamRoots cfg component nm =
     [filepath_Join [ProcFS cfg, ''fs'', ''lustre'', component, nm],
      filepath_Join [SysFS cfg, ''fs'', ''lustre'', component, nm]]"

definition clientStatsPatterns :: "PathConfig \<Rightarrow> string \<Rightarrow> string list" where
  "clientStatsPatterns cfg component =
     [filepath_Join [ProcFS cfg, ''fs'', ''lustre'', component, ''*'', ''stats''],
      filepath_Join [SysFS cfg, ''fs'', ''lustre'', component, ''*'', ''stats''],
      filepath_Join [DebugFS cfg, ''lustre'', component, ''*'', ''stats'']]"

definition clientRPCStatsPatterns :: "PathConfig \<Rightarrow> string \<Rightarrow> string list" where
  "clientRPCStatsPatterns cfg component =
     [filepath_Join [ProcFS cfg, ''fs'', ''lustre'', component, ''*'', ''rpc_stats''],
      filepath_Join [SysFS cfg, ''fs'', ''lustre'', component, ''*'', ''rpc_stats''],
      filepath_Join [DebugFS cfg, ''lustre'', component, ''*'', ''rpc_stats'']]"

definition newClientTarget :: "PathConfig \<Rightarrow> string \<Rightarrow> string \<Rightarrow> ClientTarget" where
  "newClientTarget cfg component nm =
     (let roots = clientParamRoots cfg component nm in
      \<lparr>Component = component, TName = nm, StatsPath = [], RpcStatsPath = [],
       BasePath = roots ! 0, ParamRoots = roots\<rparr>)"

section \<open>The index\<close>

record clientIndex =
  icfg :: PathConfig
  targets :: "ClientTarget list"
  seen :: "string \<rightharpoonup> nat"

definition target_name :: "string \<Rightarrow> string" where
  "target_name path = Base (Dir path)"

definition target_key :: "string \<Rightarrow> string \<Rightarrow> string" where
  "target_key component nm = component @ ''/'' @ nm"

definition add :: "string \<Rightarrow> ClientTarget \<Rightarrow> clientIndex \<Rightarrow> clientIndex" where
  "add key ct x = x\<lparr>seen := (seen x)(key \<mapsto> length (targets x)), targets := targets x @ [ct]\<rparr>"

definition addStats :: "string \<Rightarrow> string \<Rightarrow> clientIndex \<Rightarrow> clientIndex" where
  "addStats component statsPath x =
     (let nm = target_name statsPath; key = target_key component nm in
      (case seen x key of
         Some i \<Rightarrow> x
       | None \<Rightarrow> add key ((newClientTarget (icfg x) component nm)\<lparr>StatsPath := statsPath\<rparr>) x))"

definition addRPCStats :: "string \<Rightarrow> string \<Rightarrow> clientIndex \<Rightarrow> clientIndex" where
  "addRPCStats component rpcStatsPath x =
     (let nm = target_name rpcStatsPath; key = target_key component nm in
      (case seen x key of
         Some i \<Rightarrow>
           if RpcStatsPath (targets x ! i) = []
           then x\<lparr>targets := (targets x)[i := (targets x ! i)\<lparr>RpcStatsPath := rpcStatsPath\<rparr>]\<rparr>
           else x
       | None \<Rightarrow> add key ((newClientTarget (icfg x) component nm)\<lparr>RpcStatsPath := rpcStatsPath\<rparr>) x))"

definition globAll :: "reader \<Rightarrow> string list \<Rightarrow> string list" where
  "globAll r patterns = concat (map (\<lambda>p. or_empty (Glob r p)) patterns)"

definition empty_index :: "PathConfig \<Rightarrow> clientIndex" where
  "empty_index c = \<lparr>icfg = c, targets = [], seen = Map.empty\<rparr>"

definition add_all_stats :: "reader \<Rightarrow> PathConfig \<Rightarrow> clientIndex \<Rightarrow> string \<Rightarrow> clientIndex" where
  "add_all_stats r c x component =
     fold (addStats component) (globAll r (clientStatsPatterns c component)) x"

definition add_all_rpc_stats :: "reader \<Rightarrow> PathConfig \<Rightarrow> clientIndex \<Rightarrow> string \<Rightarrow> clientIndex" where
  "add_all_rpc_stats r c x component =
     fold (addRPCStats component) (globAll r (clientRPCStatsPatterns c component)) x"

definition discover_index :: "reader \<Rightarrow> PathConfig \<Rightarrow> clientIndex" where
  "discover_index r c =
     foldl (add_all_rpc_stats r c)
       (foldl (add_all_stats r c) (empty_index c) [''llite'', ''mdc'', ''osc'']) [''mdc'', ''osc'']"

text \<open>The error of \<open>DiscoverClients\<close> is always nil.\<close>

definition DiscoverClients :: "reader \<Rightarrow> PathConfig \<Rightarrow> ClientTarget list result" where
  "DiscoverClients r c = Inr (targets (discover_index r c))"

section \<open>The index as a map\<close>

definition key_of :: "ClientTarget \<Rightarrow> string" where
  "key_of t = target_key (Component t) (TName t)"

definition lookup_target :: "clientIndex \<Rightarrow> string \<Rightarrow> string \<Rightarrow> ClientTarget option" where
  "lookup_target x component nm =
     (case seen x (target_key component nm) of None \<Rightarrow> None | Some i \<Rightarrow> Some (targets x ! i))"

definition target_ok :: "PathConfig \<Rightarrow> ClientTarget \<Rightarrow> bool" where
  "target_ok c t \<longleftrightarrow>
     slash \<notin> set (Component t) \<and>
     ParamRoots t = clientParamRoots c (Component t) (TName t) \<and> BasePath t = ParamRoots t ! 0"

definition index_ok :: "clientIndex \<Rightarrow> bool" where
  "index_ok x \<longleftrightarrow>
     (\<forall>k i. seen x k = Some i \<longleftrightarrow> i < length (targets x) \<and> key_of (targets x ! i) = k) \<and>
     (\<forall>t \<in> set (targets x). target_ok (icfg x) t)"

lemma target_key_inj:
  assumes "slash \<notin> set c" "slash \<notin> set c'" "target_key c n = target_key c' n'"
  shows "c = c' \<and> n = n'"
proof -
  have "cut_first slash (target_key c n) = Some (c, n)"
    "cut_first slash (target_key c' n') = Some (c', n')"
    using assms(1,2) by (simp_all add: target_key_def cut_first_Some)
  with assms(3) have "Some (c, n) = Some (c', n')" by metis
  then show ?thesis by simp
qed

lemma index_seen:
  "index_ok x \<Longrightarrow> seen x k = Some i \<longleftrightarrow> i < length (targets x) \<and> key_of (targets x ! i) = k"
  by (simp add: index_ok_def)

lemma index_distinct: "index_ok x \<Longrightarrow> distinct (map key_of (targets x))"
proof -
  assume ok: "index_ok x"
  have "i = j" if "i < length (targets x)" "j < length (targets x)"
    "key_of (targets x ! i) = key_of (targets x ! j)" for i j
  proof -
    from that have "seen x (key_of (targets x ! i)) = Some i" "seen x (key_of (targets x ! i)) = Some j"
      by (simp_all only: index_seen [OF ok])
    then show ?thesis by simp
  qed
  then show ?thesis by (auto simp: distinct_conv_nth)
qed

lemma index_target: "index_ok x \<Longrightarrow> t \<in> set (targets x) \<Longrightarrow> target_ok (icfg x) t"
  by (simp add: index_ok_def)

lemma lookup_member:
  assumes "index_ok x" "t \<in> set (targets x)"
  shows "lookup_target x (Component t) (TName t) = Some t"
proof -
  from assms(2) obtain i where "i < length (targets x)" "targets x ! i = t"
    by (auto simp: in_set_conv_nth)
  then have "seen x (target_key (Component t) (TName t)) = Some i"
    by (simp only: index_seen [OF assms(1)] key_of_def)
  with \<open>targets x ! i = t\<close> show ?thesis by (simp add: lookup_target_def)
qed

lemma lookup_Some:
  assumes "index_ok x" "slash \<notin> set c" "lookup_target x c n = Some t"
  shows "t \<in> set (targets x) \<and> Component t = c \<and> TName t = n"
proof -
  from assms(3) obtain i where i: "seen x (target_key c n) = Some i" "t = targets x ! i"
    by (auto simp: lookup_target_def split: option.splits)
  with index_seen [OF assms(1)] have len: "i < length (targets x)" "key_of t = target_key c n" by auto
  then have mem: "t \<in> set (targets x)" using i by simp
  then have "slash \<notin> set (Component t)" using index_target [OF assms(1)] by (simp add: target_ok_def)
  from target_key_inj [OF this assms(2) len(2) [unfolded key_of_def]] mem show ?thesis by simp
qed

lemma empty_index_ok: "index_ok (empty_index c)"
  by (simp add: index_ok_def empty_index_def)

lemma lookup_empty [simp]: "lookup_target (empty_index c) cm n = None"
  by (simp add: lookup_target_def empty_index_def)

lemma add_ok:
  assumes ok: "index_ok x" and new: "seen x (key_of ct) = None" and t: "target_ok (icfg x) ct"
  shows "index_ok (add (key_of ct) ct x)"
proof -
  let ?x = "add (key_of ct) ct x" and ?n = "length (targets x)"
  have "seen ?x k = Some i \<longleftrightarrow> i < length (targets ?x) \<and> key_of (targets ?x ! i) = k" for k i
  proof (cases "k = key_of ct")
    case True
    have "key_of (targets x ! i) \<noteq> key_of ct" if "i < ?n"
      using that index_seen [OF ok, of "key_of ct" i] new by auto
    with True show ?thesis by (auto simp: add_def nth_append less_Suc_eq)
  next
    case False
    with index_seen [OF ok, of k i] show ?thesis by (auto simp: add_def nth_append less_Suc_eq)
  qed
  moreover have "\<forall>u \<in> set (targets ?x). target_ok (icfg ?x) u"
    using index_target [OF ok] t by (auto simp: add_def)
  ultimately show ?thesis unfolding index_ok_def by blast
qed

lemma lookup_add:
  assumes "index_ok x" "slash \<notin> set c" "slash \<notin> set (Component ct)"
  shows "lookup_target (add (key_of ct) ct x) c n =
     (if c = Component ct \<and> n = TName ct then Some ct else lookup_target x c n)"
proof (cases "target_key c n = key_of ct")
  case True
  then have "c = Component ct \<and> n = TName ct"
    using target_key_inj [OF assms(2,3)] by (simp add: key_of_def)
  with True show ?thesis by (simp add: lookup_target_def add_def)
next
  case False
  then have ne: "\<not> (c = Component ct \<and> n = TName ct)" by (auto simp: key_of_def)
  show ?thesis
  proof (cases "seen x (target_key c n)")
    case None
    with False ne show ?thesis by (auto simp: lookup_target_def add_def)
  next
    case (Some i)
    then have "i < length (targets x)" using index_seen [OF assms(1)] by blast
    with Some False ne show ?thesis by (auto simp: lookup_target_def add_def nth_append)
  qed
qed

lemma newClientTarget_sel [simp]:
  "Component (newClientTarget c component nm) = component" "TName (newClientTarget c component nm) = nm"
  "StatsPath (newClientTarget c component nm) = []" "RpcStatsPath (newClientTarget c component nm) = []"
  "ParamRoots (newClientTarget c component nm) = clientParamRoots c component nm"
  "BasePath (newClientTarget c component nm) = clientParamRoots c component nm ! 0"
  by (simp_all add: newClientTarget_def Let_def)

section \<open>Adding files one by one\<close>

text \<open>
  What the two phases of the discovery share: a step looks at one file, makes a value for a key that
  has none and updates the value of a key that has one, and leaves every other key alone.  The value
  of a key after the run is then the run over the files of that key.
\<close>

locale keyed_steps =
  fixes step :: "'p \<Rightarrow> 's \<Rightarrow> 's"
    and look :: "'s \<Rightarrow> 'k \<Rightarrow> 'v option"
    and key :: "'p \<Rightarrow> 'k"
    and make :: "'p \<Rightarrow> 'v"
    and update :: "'p \<Rightarrow> 'v \<Rightarrow> 'v"
    and inv :: "'s \<Rightarrow> bool"
    and wf :: "'k \<Rightarrow> bool"
  assumes inv_step: "inv s \<Longrightarrow> inv (step p s)"
    and look_step: "inv s \<Longrightarrow> wf k \<Longrightarrow> look (step p s) k =
          (if key p = k
           then Some (case look s k of None \<Rightarrow> make p | Some v \<Rightarrow> update p v)
           else look s k)"
begin

lemma inv_fold: "inv s \<Longrightarrow> inv (fold step ps s)"
  by (induction ps arbitrary: s) (simp_all add: inv_step)

lemma look_fold:
  "inv s \<Longrightarrow> wf k \<Longrightarrow> look (fold step ps s) k =
     fold (\<lambda>p v. Some (case v of None \<Rightarrow> make p | Some w \<Rightarrow> update p w))
       (filter (\<lambda>p. key p = k) ps) (look s k)"
  by (induction ps arbitrary: s) (simp_all add: inv_step look_step)

end

definition index_inv :: "PathConfig \<Rightarrow> string \<Rightarrow> clientIndex \<Rightarrow> bool" where
  "index_inv c component x \<longleftrightarrow> index_ok x \<and> icfg x = c \<and> slash \<notin> set component"

definition wf_key :: "string \<times> string \<Rightarrow> bool" where
  "wf_key k \<longleftrightarrow> slash \<notin> set (fst k)"

abbreviation look :: "clientIndex \<Rightarrow> string \<times> string \<Rightarrow> ClientTarget option" where
  "look x k \<equiv> lookup_target x (fst k) (snd k)"

lemma lookup_None: "lookup_target x c n = None \<longleftrightarrow> seen x (target_key c n) = None"
  by (simp add: lookup_target_def split: option.split)

lemma index_inv_add:
  assumes "index_inv c component x" "Component ct = component" "target_ok c ct"
    "seen x (key_of ct) = None"
  shows "index_inv c component (add (key_of ct) ct x)"
  using assms add_ok [of x ct] by (auto simp: index_inv_def add_def)

definition stats_target :: "PathConfig \<Rightarrow> string \<Rightarrow> string \<Rightarrow> ClientTarget" where
  "stats_target c component path =
     (newClientTarget c component (target_name path))\<lparr>StatsPath := path\<rparr>"

definition rpc_target :: "PathConfig \<Rightarrow> string \<Rightarrow> string \<Rightarrow> ClientTarget" where
  "rpc_target c component path =
     (newClientTarget c component (target_name path))\<lparr>RpcStatsPath := path\<rparr>"

definition set_rpc :: "string \<Rightarrow> ClientTarget \<Rightarrow> ClientTarget" where
  "set_rpc path t = (if RpcStatsPath t = [] then t\<lparr>RpcStatsPath := path\<rparr> else t)"

lemma target_sel [simp]:
  "Component (stats_target c component path) = component"
  "TName (stats_target c component path) = target_name path"
  "Component (rpc_target c component path) = component"
  "TName (rpc_target c component path) = target_name path"
  by (simp_all add: stats_target_def rpc_target_def)

lemma new_target_ok:
  "slash \<notin> set component \<Longrightarrow> target_ok c (stats_target c component path)"
  "slash \<notin> set component \<Longrightarrow> target_ok c (rpc_target c component path)"
  by (simp_all add: target_ok_def stats_target_def rpc_target_def)

lemma addStats_alt:
  "icfg x = c \<Longrightarrow> addStats component p x =
     (let ct = stats_target c component p in
      if seen x (key_of ct) = None then add (key_of ct) ct x else x)"
  by (simp add: addStats_def key_of_def stats_target_def Let_def split: option.split)

lemma addRPCStats_alt:
  "icfg x = c \<Longrightarrow> addRPCStats component p x =
     (let ct = rpc_target c component p in
      case seen x (key_of ct) of
        None \<Rightarrow> add (key_of ct) ct x
      | Some i \<Rightarrow> x\<lparr>targets := (targets x)[i := set_rpc p (targets x ! i)]\<rparr>)"
  by (auto simp: addRPCStats_def key_of_def rpc_target_def set_rpc_def Let_def split: option.split)

text \<open>Updating a target in place, without touching its key.\<close>

lemma set_target_ok:
  assumes "index_ok x" "key_of t = key_of (targets x ! i)" "target_ok (icfg x) t"
  shows "index_ok (x\<lparr>targets := (targets x)[i := t]\<rparr>)"
proof -
  have "key_of ((targets x)[i := t] ! j) = key_of (targets x ! j)" if "j < length (targets x)" for j
    using that assms(2) by (cases "i = j") simp_all
  then have "seen x k = Some j \<longleftrightarrow>
      j < length ((targets x)[i := t]) \<and> key_of ((targets x)[i := t] ! j) = k" for k j
    using index_seen [OF assms(1), of k j] by auto
  moreover have "\<forall>u \<in> set ((targets x)[i := t]). target_ok (icfg x) u"
    using index_target [OF assms(1)] assms(3) set_update_subset_insert [of "targets x" i t] by blast
  ultimately show ?thesis unfolding index_ok_def by simp
qed

lemma lookup_set_target:
  assumes "index_ok x" "seen x (target_key cm n) = Some i" "slash \<notin> set cm" "slash \<notin> set c'"
  shows "lookup_target (x\<lparr>targets := (targets x)[i := t]\<rparr>) c' n' =
     (if c' = cm \<and> n' = n then Some t else lookup_target x c' n')"
proof -
  have i: "i < length (targets x)" "key_of (targets x ! i) = target_key cm n"
    using assms(2) index_seen [OF assms(1)] by auto
  show ?thesis
  proof (cases "c' = cm \<and> n' = n")
    case True
    with i assms(2) show ?thesis by (simp add: lookup_target_def)
  next
    case False
    then have "target_key c' n' \<noteq> target_key cm n" using target_key_inj [OF assms(4,3)] by blast
    then have "seen x (target_key c' n') \<noteq> Some i" using index_seen [OF assms(1)] i by metis
    then show ?thesis using False by (auto simp: lookup_target_def split: option.split)
  qed
qed

interpretation stats_files: keyed_steps "addStats component" look "\<lambda>p. (component, target_name p)"
  "stats_target c component" "\<lambda>p t. t" "index_inv c component" wf_key for c component
proof unfold_locales
  fix x p
  let ?ct = "stats_target c component p"
  assume inv: "index_inv c component x"
  then show "index_inv c component (addStats component p x)"
    using index_inv_add [OF inv, of ?ct] new_target_ok(1)
    by (auto simp: addStats_alt [of x c] index_inv_def Let_def)
next
  fix x p and k :: "string \<times> string"
  let ?ct = "stats_target c component p"
  assume inv: "index_inv c component x" and k: "wf_key k"
  then have x: "index_ok x" "icfg x = c" "slash \<notin> set component" "slash \<notin> set (fst k)"
    by (auto simp: index_inv_def wf_key_def)
  note add = lookup_add [OF x(1) x(4), of ?ct "snd k"]
  show "look (addStats component p x) k =
      (if (component, target_name p) = k
       then Some (case look x k of None \<Rightarrow> ?ct | Some t \<Rightarrow> t) else look x k)"
  proof (cases "seen x (key_of ?ct)")
    case None
    with x add have "look (addStats component p x) k =
        (if fst k = component \<and> snd k = target_name p then Some ?ct else look x k)"
      by (simp add: addStats_alt Let_def)
    moreover from None have "lookup_target x component (target_name p) = None"
      by (simp add: lookup_None key_of_def)
    ultimately show ?thesis by (cases k) auto
  next
    case (Some i)
    with x have "addStats component p x = x" by (simp add: addStats_alt Let_def)
    moreover from Some have "lookup_target x component (target_name p) \<noteq> None"
      by (simp add: lookup_None key_of_def)
    ultimately show ?thesis by (cases k) auto
  qed
qed

lemma set_rpc_sel [simp]:
  "Component (set_rpc p t) = Component t" "TName (set_rpc p t) = TName t"
  "ParamRoots (set_rpc p t) = ParamRoots t" "BasePath (set_rpc p t) = BasePath t"
  "StatsPath (set_rpc p t) = StatsPath t"
  by (simp_all add: set_rpc_def)

interpretation rpc_files: keyed_steps "addRPCStats component" look "\<lambda>p. (component, target_name p)"
  "rpc_target c component" set_rpc "index_inv c component" wf_key for c component
proof unfold_locales
  fix x p
  let ?ct = "rpc_target c component p"
  assume inv: "index_inv c component x"
  then have x: "index_ok x" "icfg x = c" by (auto simp: index_inv_def)
  show "index_inv c component (addRPCStats component p x)"
  proof (cases "seen x (key_of ?ct)")
    case None
    with x index_inv_add [OF inv, of ?ct] new_target_ok(2) inv show ?thesis
      by (auto simp: addRPCStats_alt index_inv_def Let_def)
  next
    case (Some i)
    then have "i < length (targets x)" using index_seen [OF x(1)] by blast
    then have "target_ok c (targets x ! i)" using index_target [OF x(1)] x(2) by auto
    then have "index_ok (x\<lparr>targets := (targets x)[i := set_rpc p (targets x ! i)]\<rparr>)"
      using x by (intro set_target_ok) (simp_all add: key_of_def target_ok_def)
    with Some x inv show ?thesis by (simp add: addRPCStats_alt index_inv_def Let_def)
  qed
next
  fix x p and k :: "string \<times> string"
  let ?ct = "rpc_target c component p"
  assume inv: "index_inv c component x" and k: "wf_key k"
  then have x: "index_ok x" "icfg x = c" "slash \<notin> set component" "slash \<notin> set (fst k)"
    by (auto simp: index_inv_def wf_key_def)
  show "look (addRPCStats component p x) k =
      (if (component, target_name p) = k
       then Some (case look x k of None \<Rightarrow> ?ct | Some t \<Rightarrow> set_rpc p t) else look x k)"
  proof (cases "seen x (key_of ?ct)")
    case None
    with x lookup_add [OF x(1) x(4), of ?ct "snd k"]
    have "look (addRPCStats component p x) k =
        (if fst k = component \<and> snd k = target_name p then Some ?ct else look x k)"
      by (simp add: addRPCStats_alt Let_def)
    moreover from None have "lookup_target x component (target_name p) = None"
      by (simp add: lookup_None key_of_def)
    ultimately show ?thesis by (cases k) auto
  next
    case (Some i)
    then have seen: "seen x (target_key component (target_name p)) = Some i" by (simp add: key_of_def)
    then have "lookup_target x component (target_name p) = Some (targets x ! i)"
      by (simp add: lookup_target_def)
    moreover note lookup_set_target [OF x(1) seen x(3,4), of "set_rpc p (targets x ! i)" "snd k"]
    ultimately show ?thesis using Some x(2) by (cases k) (auto simp: addRPCStats_alt Let_def)
  qed
qed

section \<open>What is discovered\<close>

definition hd_or_empty :: "string list \<Rightarrow> string" where
  "hd_or_empty ps = (case ps of [] \<Rightarrow> [] | p # _ \<Rightarrow> p)"

text \<open>The files of one target, in the order in which they are found.\<close>

definition found_stats :: "reader \<Rightarrow> PathConfig \<Rightarrow> string \<Rightarrow> string \<Rightarrow> string list" where
  "found_stats r c component nm =
     filter (\<lambda>p. target_name p = nm) (globAll r (clientStatsPatterns c component))"

definition found_rpc_stats :: "reader \<Rightarrow> PathConfig \<Rightarrow> string \<Rightarrow> string \<Rightarrow> string list" where
  "found_rpc_stats r c component nm =
     filter (\<lambda>p. target_name p = nm) (globAll r (clientRPCStatsPatterns c component))"

lemma fold_stats:
  "fold (\<lambda>p v. Some (case v of None \<Rightarrow> stats_target c cm p | Some t \<Rightarrow> t)) ps v =
     (case v of Some t \<Rightarrow> Some t
      | None \<Rightarrow> (case ps of [] \<Rightarrow> None | p # _ \<Rightarrow> Some (stats_target c cm p)))"
proof -
  have "fold (\<lambda>p v. Some (case v of None \<Rightarrow> stats_target c cm p | Some t \<Rightarrow> t)) ps (Some t) = Some t" for t
    by (induction ps) simp_all
  then show ?thesis by (cases ps) (simp_all split: option.split)
qed

lemma fold_set_rpc:
  "fold (\<lambda>p v. Some (case v of None \<Rightarrow> rpc_target c cm p | Some t \<Rightarrow> set_rpc p t)) ps (Some t) =
     Some (t\<lparr>RpcStatsPath :=
        (if RpcStatsPath t = [] then hd_or_empty (filter (\<lambda>p. p \<noteq> []) ps) else RpcStatsPath t)\<rparr>)"
  by (induction ps arbitrary: t) (simp_all add: set_rpc_def hd_or_empty_def)

lemma fold_rpc:
  "fold (\<lambda>p v. Some (case v of None \<Rightarrow> rpc_target c cm p | Some t \<Rightarrow> set_rpc p t)) ps None =
     (case ps of [] \<Rightarrow> None
      | p # _ \<Rightarrow> Some ((rpc_target c cm p)\<lparr>RpcStatsPath := hd_or_empty (filter (\<lambda>p. p \<noteq> []) ps)\<rparr>))"
  by (cases ps) (auto simp: fold_set_rpc rpc_target_def hd_or_empty_def)

definition state_ok :: "PathConfig \<Rightarrow> clientIndex \<Rightarrow> bool" where
  "state_ok c x \<longleftrightarrow> index_ok x \<and> icfg x = c"

lemma stats_phase:
  assumes "state_ok c x" "slash \<notin> set cm"
  shows "state_ok c (add_all_stats r c x cm) \<and>
     (slash \<notin> set c' \<longrightarrow>
      lookup_target (add_all_stats r c x cm) c' n =
       (case lookup_target x c' n of
          Some t \<Rightarrow> Some t
        | None \<Rightarrow>
            if c' = cm
            then (case found_stats r c cm n of [] \<Rightarrow> None | p # _ \<Rightarrow> Some (stats_target c cm p))
            else None))"
proof -
  let ?ps = "globAll r (clientStatsPatterns c cm)"
  from assms have inv: "index_inv c cm x" by (simp add: index_inv_def state_ok_def)
  note look = stats_files.look_fold [OF inv, of "(c', n)" ?ps, unfolded fold_stats]
  then have "slash \<notin> set c' \<longrightarrow> lookup_target (add_all_stats r c x cm) c' n =
       (case lookup_target x c' n of
          Some t \<Rightarrow> Some t
        | None \<Rightarrow>
            if c' = cm
            then (case found_stats r c cm n of [] \<Rightarrow> None | p # _ \<Rightarrow> Some (stats_target c cm p))
            else None)"
    by (cases "c' = cm") (simp_all add: add_all_stats_def wf_key_def found_stats_def split: option.split)
  moreover from stats_files.inv_fold [OF inv, of ?ps]
  have "state_ok c (add_all_stats r c x cm)" by (simp add: add_all_stats_def index_inv_def state_ok_def)
  ultimately show ?thesis by blast
qed

lemma rpc_phase:
  assumes "state_ok c x" "slash \<notin> set cm"
  shows "state_ok c (add_all_rpc_stats r c x cm) \<and>
     (slash \<notin> set c' \<longrightarrow>
      lookup_target (add_all_rpc_stats r c x cm) c' n =
       (if c' = cm
        then fold (\<lambda>p v. Some (case v of None \<Rightarrow> rpc_target c cm p | Some t \<Rightarrow> set_rpc p t))
               (found_rpc_stats r c cm n) (lookup_target x c' n)
        else lookup_target x c' n))"
proof -
  let ?ps = "globAll r (clientRPCStatsPatterns c cm)"
  from assms have inv: "index_inv c cm x" by (simp add: index_inv_def state_ok_def)
  note look = rpc_files.look_fold [OF inv, of "(c', n)" ?ps]
  then have "slash \<notin> set c' \<longrightarrow> lookup_target (add_all_rpc_stats r c x cm) c' n =
       (if c' = cm
        then fold (\<lambda>p v. Some (case v of None \<Rightarrow> rpc_target c cm p | Some t \<Rightarrow> set_rpc p t))
               (found_rpc_stats r c cm n) (lookup_target x c' n)
        else lookup_target x c' n)"
    by (cases "c' = cm") (simp_all add: add_all_rpc_stats_def wf_key_def found_rpc_stats_def)
  moreover from rpc_files.inv_fold [OF inv, of ?ps]
  have "state_ok c (add_all_rpc_stats r c x cm)"
    by (simp add: add_all_rpc_stats_def index_inv_def state_ok_def)
  ultimately show ?thesis by blast
qed

definition client_components :: "string list" where
  "client_components = [''llite'', ''mdc'', ''osc'']"

text \<open>The target of one component and name, as a function of the files found for it.\<close>

definition expected_target :: "reader \<Rightarrow> PathConfig \<Rightarrow> string \<Rightarrow> string \<Rightarrow> ClientTarget option" where
  "expected_target r c cm nm =
     (let ss = (if cm \<in> set client_components then found_stats r c cm nm else []);
          rs = (if cm = ''mdc'' \<or> cm = ''osc'' then found_rpc_stats r c cm nm else []) in
      if ss = [] \<and> rs = [] then None
      else Some ((newClientTarget c cm nm)
             \<lparr>StatsPath := hd_or_empty ss, RpcStatsPath := hd_or_empty (filter (\<lambda>p. p \<noteq> []) rs)\<rparr>))"

lemma found_names:
  "found_stats r c cm n = p # ps \<Longrightarrow> target_name p = n"
  "found_rpc_stats r c cm n = p # ps \<Longrightarrow> target_name p = n"
  by (auto simp: found_stats_def found_rpc_stats_def filter_eq_Cons_iff)

lemma expected_of_phases:
  "fold (\<lambda>p v. Some (case v of None \<Rightarrow> rpc_target c cm p | Some t \<Rightarrow> set_rpc p t))
      (found_rpc_stats r c cm n)
      (case found_stats r c cm n of [] \<Rightarrow> None | p # _ \<Rightarrow> Some (stats_target c cm p)) =
   (let ss = found_stats r c cm n; rs = found_rpc_stats r c cm n in
    if ss = [] \<and> rs = [] then None
    else Some ((newClientTarget c cm n)
           \<lparr>StatsPath := hd_or_empty ss, RpcStatsPath := hd_or_empty (filter (\<lambda>p. p \<noteq> []) rs)\<rparr>))"
proof (cases "found_stats r c cm n")
  case Nil
  show ?thesis
  proof (cases "found_rpc_stats r c cm n")
    case (Cons p ps)
    with found_names(2) [OF Cons] show ?thesis
      by (simp add: Nil fold_rpc rpc_target_def newClientTarget_def Let_def hd_or_empty_def del: fold.simps)
  qed (simp add: Nil)
next
  case (Cons p ps)
  with found_names(1) [OF Cons] show ?thesis
    by (simp add: fold_set_rpc stats_target_def newClientTarget_def Let_def hd_or_empty_def)
qed

lemma discover_lookup:
  "state_ok c (discover_index r c) \<and>
   (slash \<notin> set cm \<longrightarrow> lookup_target (discover_index r c) cm n = expected_target r c cm n)"
proof -
  let ?x0 = "empty_index c"
  let ?x1 = "add_all_stats r c ?x0 ''llite''"
  let ?x2 = "add_all_stats r c ?x1 ''mdc''"
  let ?x3 = "add_all_stats r c ?x2 ''osc''"
  let ?x4 = "add_all_rpc_stats r c ?x3 ''mdc''"
  have s0: "state_ok c ?x0" by (simp add: state_ok_def empty_index_ok) (simp add: empty_index_def)
  have sl: "slash \<notin> set ''llite''" "slash \<notin> set ''mdc''" "slash \<notin> set ''osc''" by simp_all
  note p1 = stats_phase [OF s0 sl(1), of r]
  note s1 = p1 [THEN conjunct1]
  note p2 = stats_phase [OF s1 sl(2), of r]
  note s2 = p2 [THEN conjunct1]
  note p3 = stats_phase [OF s2 sl(3), of r]
  note s3 = p3 [THEN conjunct1]
  note p4 = rpc_phase [OF s3 sl(2), of r]
  note s4 = p4 [THEN conjunct1]
  note p5 = rpc_phase [OF s4 sl(3), of r]
  have idx: "discover_index r c = add_all_rpc_stats r c ?x4 ''osc''" by (simp add: discover_index_def)
  have "lookup_target (discover_index r c) cm n = expected_target r c cm n" if "slash \<notin> set cm"
  proof -
    have l3: "lookup_target ?x3 cm n =
        (if cm \<in> set client_components
         then (case found_stats r c cm n of [] \<Rightarrow> None | p # _ \<Rightarrow> Some (stats_target c cm p)) else None)"
      using that p1 p2 p3 by (auto simp: client_components_def split: list.split)
    have l5: "lookup_target (discover_index r c) cm n =
        (if cm = ''mdc'' \<or> cm = ''osc''
         then fold (\<lambda>p v. Some (case v of None \<Rightarrow> rpc_target c cm p | Some t \<Rightarrow> set_rpc p t))
               (found_rpc_stats r c cm n) (lookup_target ?x3 cm n)
         else lookup_target ?x3 cm n)"
      using that p4 p5 by (auto simp: idx)
    consider "cm = ''llite''" | "cm = ''mdc'' \<or> cm = ''osc''" | "cm \<notin> set client_components"
      by (auto simp: client_components_def)
    then show ?thesis
    proof cases
      case 1
      then show ?thesis using l5 l3 found_names(1) [of r c cm n]
        by (auto simp: expected_target_def client_components_def stats_target_def newClientTarget_def
            Let_def hd_or_empty_def split: list.split)
    next
      case 2
      then have "cm \<in> set client_components" by (auto simp: client_components_def)
      with 2 l5 show ?thesis
        by (simp add: l3 expected_of_phases expected_target_def)
    next
      case 3
      then have "\<not> (cm = ''mdc'' \<or> cm = ''osc'')" by (auto simp: client_components_def)
      with 3 l5 show ?thesis
        by (simp add: l3 expected_target_def)
    qed
  qed
  with p5 show ?thesis by (simp add: idx)
qed

lemma discovered_iff:
  "DiscoverClients r c = Inr ts \<Longrightarrow>
     t \<in> set ts \<longleftrightarrow> slash \<notin> set (Component t) \<and> expected_target r c (Component t) (TName t) = Some t"
proof -
  assume ts: "DiscoverClients r c = Inr ts"
  note d = discover_lookup [of c r]
  then have ok: "index_ok (discover_index r c)" by (simp add: state_ok_def)
  show ?thesis
  proof
    assume "t \<in> set ts"
    then have mem: "t \<in> set (targets (discover_index r c))" using ts by (simp add: DiscoverClients_def)
    then have "slash \<notin> set (Component t)" using index_target [OF ok] by (simp add: target_ok_def)
    with lookup_member [OF ok mem] d show "slash \<notin> set (Component t) \<and>
        expected_target r c (Component t) (TName t) = Some t" by metis
  next
    assume "slash \<notin> set (Component t) \<and> expected_target r c (Component t) (TName t) = Some t"
    with d lookup_Some [OF ok] have "t \<in> set (targets (discover_index r c))" by metis
    with ts show "t \<in> set ts" by (simp add: DiscoverClients_def)
  qed
qed

lemma discovered_distinct: "DiscoverClients r c = Inr ts \<Longrightarrow> distinct (map key_of ts)"
  using discover_lookup [of c r] by (auto simp: DiscoverClients_def state_ok_def intro: index_distinct)

lemma expected_shape:
  assumes "expected_target r c cm nm = Some t"
  shows "cm \<in> set client_components \<and> Component t = cm \<and> TName t = nm \<and>
     ParamRoots t = clientParamRoots c cm nm \<and> (cm = ''llite'' \<longrightarrow> RpcStatsPath t = [])"
  using assms
  by (auto simp: expected_target_def Let_def client_components_def newClientTarget_def hd_or_empty_def
      split: if_splits)

section \<open>Properties\<close>

text \<open>
  C17: The client targets are exactly those of the components \<open>llite\<close>, \<open>mdc\<close> and \<open>osc\<close> for which a
  stats file, or for \<open>mdc\<close> and \<open>osc\<close> an \<open>rpc_stats\<close> file, is found, one target for each component
  and name, with the first stats file and the first \<open>rpc_stats\<close> file found for it, wherever the
  other one was found; discovery never fails.
\<close>

theorem discovered_targets:
  "\<exists>ts. DiscoverClients r c = Inr ts \<and> distinct (map key_of ts) \<and>
     (\<forall>t. t \<in> set ts \<longleftrightarrow> expected_target r c (Component t) (TName t) = Some t)"
proof -
  obtain ts where ts: "DiscoverClients r c = Inr ts" by (simp add: DiscoverClients_def)
  have "t \<in> set ts \<longleftrightarrow> expected_target r c (Component t) (TName t) = Some t" for t
  proof -
    have "slash \<notin> set (Component t)" if "expected_target r c (Component t) (TName t) = Some t"
      using expected_shape [OF that] by (auto simp: client_components_def)
    with discovered_iff [OF ts, of t] show ?thesis by blast
  qed
  with ts discovered_distinct [OF ts] show ?thesis by blast
qed

text \<open>
  C33: Adding a stats file or an \<open>rpc_stats\<close> file keeps the index consistent: \<open>seen\<close> maps a key to
  \<open>i\<close> exactly when the target at \<open>i\<close> has that key, and every target keeps the parameter roots of
  its component and name.
\<close>

theorem index_invariant:
  assumes "index_ok x" "slash \<notin> set component"
  shows "index_ok (addStats component p x) \<and> index_ok (addRPCStats component p x)"
proof -
  have inv: "index_inv (icfg x) component x" using assms by (simp add: index_inv_def)
  from stats_files.inv_step [OF inv, of p] rpc_files.inv_step [OF inv, of p]
  show ?thesis by (simp add: index_inv_def)
qed

lemma index_invariant_witness:
  "index_ok (addStats ''mdc'' ''/proc/fs/lustre/mdc/a/stats'' (empty_index DefaultPathConfig)) \<and>
   index_ok (addRPCStats ''mdc'' ''/proc/fs/lustre/mdc/a/stats'' (empty_index DefaultPathConfig))"
  by (rule index_invariant) (simp_all add: empty_index_ok)

text \<open>
  The name of a target is the directory that holds its file, whatever the root it was found below.
\<close>

theorem target_name_of_file:
  assumes "path_elem nm" "slash \<notin> set f"
  shows "target_name (root @ ''/'' @ nm @ ''/'' @ f) = nm"
  using Base_Dir [OF assms, of root] by (simp add: target_name_def)

lemma target_name_of_file_witness:
  "target_name (''/sys/../proc//fs/lustre/osc'' @ ''/'' @ ''scratch-OST0000-osc-ffff0001'' @ ''/'' @ ''rpc_stats'')
     = ''scratch-OST0000-osc-ffff0001''"
  by (rule target_name_of_file) (simp_all add: path_elem_def)

end
