(* ===== verification/Emitter.thy ===== *)
theory Emitter
  imports Mapper Paths
begin

text \<open>
  \<^verbatim>\<open>internal/emitter/emitter.go\<close>: mapped observations become Prometheus metrics through a cache of
  descriptors that all collectors share.  \<open>prometheus.NewDesc\<close> and \<open>prometheus.NewConstMetric\<close> of
  the client library are the parameters \<open>mkd\<close> and \<open>mkm\<close>.  The collectors run concurrently, so between
  two critical sections of the cache's lock other goroutines may have added descriptors: each call of
  \<open>getDesc\<close> gets the changes made before its first look-up and between its two look-ups.
\<close>

datatype value_type = CounterValue | GaugeValue | UntypedValue

type_synonym 'd cache = "string \<rightharpoonup> 'd"
type_synonym 'd new_desc = "string \<Rightarrow> string \<Rightarrow> string list \<Rightarrow> 'd"
type_synonym ('d, 'm) new_metric = "'d \<Rightarrow> value_type \<Rightarrow> float64 \<Rightarrow> string list \<Rightarrow> 'm result"

record 'd interference =
  before :: "'d cache \<Rightarrow> 'd cache"
  between :: "'d cache \<Rightarrow> 'd cache"

definition separator :: char where
  "separator = CHR 0xFF"

definition desc_key :: "metric_def \<Rightarrow> string" where
  "desc_key d = Name d @ [separator] @ strings_Join (LabelKeys d) [separator]"

definition desc_of :: "'d new_desc \<Rightarrow> metric_def \<Rightarrow> 'd" where
  "desc_of mkd d = mkd (Name d) (Help d) (LabelKeys d)"

definition getDesc :: "'d new_desc \<Rightarrow> 'd interference \<Rightarrow> metric_def \<Rightarrow> 'd cache \<Rightarrow> 'd \<times> 'd cache" where
  "getDesc mkd others d cache =
     (let key = desc_key d; c0 = before others cache in
      (case c0 key of
         Some x \<Rightarrow> (x, c0)
       | None \<Rightarrow>
           (let c1 = between others c0 in
            (case c1 key of
               Some x \<Rightarrow> (x, c1)
             | None \<Rightarrow> (let x = desc_of mkd d in (x, c1(key \<mapsto> x)))))))"

definition vt_of :: "metric_type \<Rightarrow> value_type" where
  "vt_of t =
     (case t of Counter \<Rightarrow> CounterValue | Gauge \<Rightarrow> GaugeValue | Untyped \<Rightarrow> UntypedValue)"

definition emit_error :: "mapped_observation \<Rightarrow> go_error \<Rightarrow> go_error" where
  "emit_error m err = Errorf ''emit %s: %w'' [ArgS (Name (Def m))] [err]"

text \<open>\<open>sched n\<close> is the interference met by the observation that has \<open>n\<close> after it.\<close>

fun Emit ::
  "'d new_desc \<Rightarrow> ('d, 'm) new_metric \<Rightarrow> (nat \<Rightarrow> 'd interference) \<Rightarrow> 'd cache \<Rightarrow>
     mapped_observation list \<Rightarrow> 'm list result \<times> 'd cache" where
  "Emit mkd mkm sched cache [] = (Inr [], cache)"
| "Emit mkd mkm sched cache (m # ms) =
     (case getDesc mkd (sched (length ms)) (Def m) cache of
        (desc, cache1) \<Rightarrow>
          (case mkm desc (vt_of (Type (Def m))) (MValue m) (LabelVals m) of
             Inl err \<Rightarrow> (Inl (emit_error m err), cache1)
           | Inr metric \<Rightarrow>
               (case Emit mkd mkm sched cache1 ms of
                  (Inl err, cache2) \<Rightarrow> (Inl err, cache2)
                | (Inr metrics, cache2) \<Rightarrow> (Inr (metric # metrics), cache2))))"

text \<open>The last two steps of every collector: \<open>mapper.Map\<close> and \<open>emitter.Emit\<close>.\<close>

definition publish ::
  "'d new_desc \<Rightarrow> ('d, 'm) new_metric \<Rightarrow> (nat \<Rightarrow> 'd interference) \<Rightarrow> 'd cache \<Rightarrow>
     observation list \<Rightarrow> 'm list result \<times> 'd cache" where
  "publish mkd mkm sched cache os =
     (case Map os of
        Inl err \<Rightarrow> (Inl err, cache)
      | Inr ms \<Rightarrow> Emit mkd mkm sched cache ms)"

section \<open>Names of the contract\<close>

text \<open>
  The public name of a metric is its ID after \<open>lustre_\<close>, but for the three per-NID counters, which
  share the names of the global ones and differ from them by the label \<open>nid\<close>.
\<close>

definition nid_alias :: "(string \<times> string) list" where
  "nid_alias =
     [(''send_count_by_nid_total'', ''send_count_total''),
      (''receive_count_by_nid_total'', ''receive_count_total''),
      (''drop_count_by_nid_total'', ''drop_count_total'')]"

definition public_id :: "string \<Rightarrow> string" where
  "public_id i = (case map_of nid_alias i of None \<Rightarrow> i | Some j \<Rightarrow> j)"

lemma entry_names: "list_all (\<lambda>(i, d). Name d = ''lustre_'' @ public_id i) registry_entries"
  by (simp add: registry_defs metric_defs public_id_def nid_alias_def)

definition plain :: "string \<Rightarrow> bool" where
  "plain s \<longleftrightarrow> s \<noteq> [] \<and> separator \<notin> set s"

lemma entry_plain: "list_all (\<lambda>(i, d). plain (Name d) \<and> list_all plain (LabelKeys d)) registry_entries"
  by (simp add: registry_defs metric_defs plain_def separator_def)

lemma registered_name: "Registry i = Some d \<Longrightarrow> Name d = ''lustre_'' @ public_id i"
  using entry_names by (auto simp: list_all_iff Registry_Some_iff)

lemma registered_plain: "Registry i = Some d \<Longrightarrow> plain (Name d) \<and> list_all plain (LabelKeys d)"
  using entry_plain by (auto simp: list_all_iff Registry_Some_iff)

lemmas nid_metric_defs =
  m_send_count_by_nid_total_def m_receive_count_by_nid_total_def m_drop_count_by_nid_total_def
  m_send_count_total_def m_receive_count_total_def m_drop_count_total_def

lemma nid_label:
  "(i, j) \<in> set nid_alias \<Longrightarrow> Registry i = Some d \<Longrightarrow> ''nid'' \<in> set (LabelKeys d)"
  by (auto simp: nid_alias_def nid_metric_defs)

lemma no_nid_label:
  "(i, j) \<in> set nid_alias \<Longrightarrow> Registry j = Some d \<Longrightarrow> ''nid'' \<notin> set (LabelKeys d)"
  by (auto simp: nid_alias_def nid_metric_defs)

lemma nid_alias_inj: "(i, k) \<in> set nid_alias \<Longrightarrow> (j, k) \<in> set nid_alias \<Longrightarrow> i = j"
  by (auto simp: nid_alias_def)

text \<open>Two metric IDs never stand for the same name with the same label names.\<close>

lemma registered_unique:
  assumes "Registry i = Some d" "Registry j = Some e" "Name d = Name e" "LabelKeys d = LabelKeys e"
  shows "i = j"
proof -
  have cases: "public_id k = k \<or> (k, public_id k) \<in> set nid_alias" for k
    by (auto simp: public_id_def dest: map_of_SomeD split: option.split)
  have same: "public_id i = public_id j"
    using registered_name [OF assms(1)] registered_name [OF assms(2)] assms(3) by simp
  consider "public_id i = i" "public_id j = j" | "(i, j) \<in> set nid_alias" | "(j, i) \<in> set nid_alias"
    | "(i, public_id j) \<in> set nid_alias" "(j, public_id j) \<in> set nid_alias"
    using cases [of i] cases [of j] same by metis
  then show ?thesis
  proof cases
    case 1
    with same show ?thesis by simp
  next
    case 2
    from nid_label [OF 2 assms(1)] no_nid_label [OF 2 assms(2)] assms(4) show ?thesis by simp
  next
    case 3
    from nid_label [OF 3 assms(2)] no_nid_label [OF 3 assms(1)] assms(4) show ?thesis by simp
  next
    case 4
    then show ?thesis by (rule nid_alias_inj)
  qed
qed

lemma Split_strings_Join:
  "zs \<noteq> [] \<Longrightarrow> list_all plain zs \<Longrightarrow> Split separator (strings_Join zs [separator]) = zs"
proof (induction zs rule: list_nonempty_induct)
  case (single x)
  then show ?case by (simp add: Split_no_sep plain_def)
next
  case (cons x xs)
  then obtain y ys where "xs = y # ys" by (cases xs) auto
  with cons show ?case by (auto simp: Split_append Split_no_sep plain_def)
qed

lemma strings_Join_sep_inj:
  assumes "list_all plain xs" "list_all plain ys"
    "strings_Join xs [separator] = strings_Join ys [separator]"
  shows "xs = ys"
proof -
  have ne: "strings_Join zs [separator] \<noteq> []" if "zs \<noteq> []" "list_all plain zs" for zs
    using that by (cases "(zs, [separator])" rule: strings_Join.cases) (auto simp: plain_def)
  show ?thesis
  proof (cases "xs = [] \<or> ys = []")
    case True
    then show ?thesis
    proof
      assume "xs = []"
      with assms(3) have "strings_Join ys [separator] = []" by simp
      with ne [OF _ assms(2)] \<open>xs = []\<close> show ?thesis by blast
    next
      assume "ys = []"
      with assms(3) have "strings_Join xs [separator] = []" by simp
      with ne [OF _ assms(1)] \<open>ys = []\<close> show ?thesis by blast
    qed
  next
    case False
    then have "Split separator (strings_Join xs [separator]) = xs"
      "Split separator (strings_Join ys [separator]) = ys"
      using assms Split_strings_Join by blast+
    with assms(3) show ?thesis by metis
  qed
qed

lemma desc_key_inj:
  assumes "plain (Name d)" "plain (Name e)" "list_all plain (LabelKeys d)" "list_all plain (LabelKeys e)"
    and "desc_key d = desc_key e"
  shows "Name d = Name e \<and> LabelKeys d = LabelKeys e"
proof -
  have cut: "cut_first separator (desc_key x) =
      Some (Name x, strings_Join (LabelKeys x) [separator])" if "plain (Name x)" for x
    using that by (simp add: desc_key_def cut_first_Some plain_def)
  from cut [OF assms(1)] cut [OF assms(2)] assms(5)
  have "Name d = Name e" "strings_Join (LabelKeys d) [separator] = strings_Join (LabelKeys e) [separator]"
    by simp_all
  with strings_Join_sep_inj [OF assms(3,4)] show ?thesis by simp
qed

lemma registered_key_unique:
  assumes "Registry i = Some d" "Registry j = Some e" "desc_key d = desc_key e"
  shows "d = e"
proof -
  have "Name d = Name e \<and> LabelKeys d = LabelKeys e"
    using desc_key_inj [of d e] registered_plain [OF assms(1)] registered_plain [OF assms(2)] assms(3)
    by blast
  then have "i = j" using registered_unique assms(1,2) by blast
  with assms(1,2) show ?thesis by simp
qed

section \<open>The cache\<close>

text \<open>Every cached descriptor is the descriptor of a metric of the contract with that key.\<close>

definition cache_ok :: "'d new_desc \<Rightarrow> 'd cache \<Rightarrow> bool" where
  "cache_ok mkd cache \<longleftrightarrow>
     (\<forall>k x. cache k = Some x \<longrightarrow>
        (\<exists>i d. Registry i = Some d \<and> desc_key d = k \<and> x = desc_of mkd d))"

definition interference_ok :: "'d new_desc \<Rightarrow> 'd interference \<Rightarrow> bool" where
  "interference_ok mkd others \<longleftrightarrow>
     (\<forall>c. cache_ok mkd c \<longrightarrow> cache_ok mkd (before others c) \<and> cache_ok mkd (between others c))"

lemma cache_empty_ok: "cache_ok mkd Map.empty"
  by (simp add: cache_ok_def)

lemma cache_lookup:
  assumes "cache_ok mkd c" "Registry i = Some d" "c (desc_key d) = Some x"
  shows "x = desc_of mkd d"
proof -
  from assms(1,3) obtain j e where "Registry j = Some e" "desc_key e = desc_key d" "x = desc_of mkd e"
    unfolding cache_ok_def by blast
  with registered_key_unique [OF assms(2), of j e] show ?thesis by simp
qed

lemma cache_insert_ok:
  "cache_ok mkd c \<Longrightarrow> Registry i = Some d \<Longrightarrow> cache_ok mkd (c(desc_key d \<mapsto> desc_of mkd d))"
  unfolding cache_ok_def by (metis fun_upd_apply option.inject)

lemma getDesc_spec:
  assumes "cache_ok mkd c" "interference_ok mkd others" "Registry i = Some d"
  shows "fst (getDesc mkd others d c) = desc_of mkd d \<and> cache_ok mkd (snd (getDesc mkd others d c))"
proof -
  let ?c0 = "before others c" and ?c1 = "between others (before others c)"
  have ok: "cache_ok mkd ?c0" "cache_ok mkd ?c1" using assms(1,2) by (simp_all add: interference_ok_def)
  note look = cache_lookup [OF ok(1) assms(3)] cache_lookup [OF ok(2) assms(3)]
  show ?thesis
    using ok look cache_insert_ok [OF ok(2) assms(3)]
    by (auto simp: getDesc_def Let_def split: option.split)
qed

text \<open>The emitter without a cache.\<close>

definition emit_one :: "'d new_desc \<Rightarrow> ('d, 'm) new_metric \<Rightarrow> mapped_observation \<Rightarrow> 'm list result" where
  "emit_one mkd mkm m =
     bind_res
       (map_err (emit_error m)
          (mkm (desc_of mkd (Def m)) (vt_of (Type (Def m))) (MValue m) (LabelVals m)))
       (\<lambda>metric. Inr [metric])"

definition in_contract :: "mapped_observation \<Rightarrow> bool" where
  "in_contract m \<longleftrightarrow> (\<exists>i. Registry i = Some (Def m))"

lemma in_contractI: "Registry i = Some (Def m) \<Longrightarrow> in_contract m"
  unfolding in_contract_def by blast

lemma Emit_uncached:
  assumes "\<And>n. interference_ok mkd (sched n)" "cache_ok mkd c" "list_all in_contract ms"
  shows "fst (Emit mkd mkm sched c ms) = collect_all (emit_one mkd mkm) ms \<and>
         cache_ok mkd (snd (Emit mkd mkm sched c ms))"
  using assms(2,3)
proof (induction ms arbitrary: c)
  case (Cons m ms)
  from Cons.prems(2) obtain i where i: "Registry i = Some (Def m)" by (auto simp: in_contract_def)
  obtain x c1 where g: "getDesc mkd (sched (length ms)) (Def m) c = (x, c1)"
    by (cases "getDesc mkd (sched (length ms)) (Def m) c")
  with getDesc_spec [OF Cons.prems(1) assms(1) i, of "length ms"]
  have x: "x = desc_of mkd (Def m)" "cache_ok mkd c1" by auto
  from Cons.IH [OF x(2)] Cons.prems(2)
  have IH: "fst (Emit mkd mkm sched c1 ms) = collect_all (emit_one mkd mkm) ms"
    "cache_ok mkd (snd (Emit mkd mkm sched c1 ms))" by simp_all
  obtain r c2 where e: "Emit mkd mkm sched c1 ms = (r, c2)" by (cases "Emit mkd mkm sched c1 ms")
  have one: "emit_one mkd mkm m =
      bind_res (map_err (emit_error m) (mkm x (vt_of (Type (Def m))) (MValue m) (LabelVals m)))
        (\<lambda>metric. Inr [metric])"
    by (simp add: emit_one_def x)
  show ?case
  proof (cases "mkm x (vt_of (Type (Def m))) (MValue m) (LabelVals m)")
    case (Inl err)
    with g x(2) one show ?thesis by simp
  next
    case (Inr metric)
    with g e IH one show ?thesis by (cases r) (auto split: sum.split)
  qed
qed simp

lemma Map_in_contract: "Map os = Inr ms \<Longrightarrow> list_all in_contract ms"
proof -
  assume ms: "Map os = Inr ms"
  have one: "map_observation ob = Inr ys \<Longrightarrow> y \<in> set ys \<Longrightarrow> in_contract y" for ob ys y
    by (auto simp: map_observation_def in_contract_def split: option.splits)
  have "in_contract m" if "m \<in> set ms" for m
    by (rule collect_all_invariant [OF ms [unfolded Map_def] _ that]) (rule one)
  then show ?thesis by (simp add: list_all_iff)
qed

text \<open>What a collector publishes does not depend on the cache or on the other collectors.\<close>

definition published :: "'d new_desc \<Rightarrow> ('d, 'm) new_metric \<Rightarrow> observation list \<Rightarrow> 'm list result" where
  "published mkd mkm os = bind_res (Map os) (collect_all (emit_one mkd mkm))"

lemma publish_uncached:
  assumes "\<And>n. interference_ok mkd (sched n)" "cache_ok mkd c"
  shows "fst (publish mkd mkm sched c os) = published mkd mkm os \<and>
         cache_ok mkd (snd (publish mkd mkm sched c os))"
  using Emit_uncached [of mkd sched c] Map_in_contract [of os] assms
  by (auto simp: publish_def published_def split: sum.split)

section \<open>Properties\<close>

text \<open>A client library that keeps what it is given, to run the emitter on.\<close>

definition demo_desc :: "string \<Rightarrow> string \<Rightarrow> string list \<Rightarrow> string \<times> string \<times> string list" where
  "demo_desc n h ks = (n, h, ks)"

definition demo_metric ::
  "string \<times> string \<times> string list \<Rightarrow> value_type \<Rightarrow> float64 \<Rightarrow> string list \<Rightarrow>
     ((string \<times> string \<times> string list) \<times> value_type \<times> float64 \<times> string list) result" where
  "demo_metric d vt v ls =
     (if length ls = length (snd (snd d)) then Inr (d, vt, v, ls) else Inl (SourceError ''labels''))"

text \<open>Another goroutine that caches the descriptor of a metric between the two look-ups.\<close>

definition demo_others :: "(string \<times> string \<times> string list) interference" where
  "demo_others =
     \<lparr>before = \<lambda>c. c,
      between = \<lambda>c. c(desc_key m_send_count_total \<mapsto> desc_of demo_desc m_send_count_total)\<rparr>"

lemma demo_others_ok: "interference_ok demo_desc demo_others"
  using cache_insert_ok [of demo_desc _ "''send_count_total''" m_send_count_total]
  by (simp add: interference_ok_def demo_others_def)

text \<open>
  C28: The descriptor cache is invisible: with any other goroutines filling it at the same time, as long as
  they only cache descriptors of the contract, every metric is built with the descriptor of its own
  definition, and the cache keeps holding only such descriptors.
\<close>

theorem emit_ignores_cache:
  assumes "\<And>n. interference_ok mkd (sched n)" "cache_ok mkd cache" "list_all in_contract ms"
  shows "fst (Emit mkd mkm sched cache ms) = collect_all (emit_one mkd mkm) ms \<and>
         cache_ok mkd (snd (Emit mkd mkm sched cache ms))"
  by (rule Emit_uncached [OF assms])

lemma emit_ignores_cache_witness:
  "let ms = [\<lparr>Def = m_send_count_by_nid_total, LabelVals = [''lnet'', ''lnet'', ''10.0.0.1@tcp''], MValue = f_zero\<rparr>,
             \<lparr>Def = m_send_count_total, LabelVals = [''lnet'', ''lnet''], MValue = f_zero\<rparr>] in
   fst (Emit demo_desc demo_metric (\<lambda>_. demo_others) Map.empty ms) =
     collect_all (emit_one demo_desc demo_metric) ms \<and>
   cache_ok demo_desc (snd (Emit demo_desc demo_metric (\<lambda>_. demo_others) Map.empty ms))"
  unfolding Let_def
  by (rule emit_ignores_cache)
     (simp_all add: demo_others_ok cache_empty_ok in_contractI [of "''send_count_by_nid_total''"]
        in_contractI [of "''send_count_total''"])

text \<open>
  C29: The public contract is consistent: two entries with one public name have the same help text and the
  same type, as Prometheus requires, and they are told apart by their label names.
\<close>

theorem contract_consistent:
  assumes "Registry i = Some d" "Registry j = Some e" "Name d = Name e"
  shows "Help d = Help e \<and> Type d = Type e \<and> (LabelKeys d = LabelKeys e \<longleftrightarrow> i = j)"
proof -
  have same: "public_id i = public_id j"
    using registered_name [OF assms(1)] registered_name [OF assms(2)] assms(3) by simp
  have aliased: "Help f = Help g \<and> Type f = Type g"
    if "(k, l) \<in> set nid_alias" "Registry k = Some f" "Registry l = Some g" for k l f g
    using that by (auto simp: nid_alias_def nid_metric_defs)
  have cases: "public_id k = k \<or> (k, public_id k) \<in> set nid_alias" for k
    by (auto simp: public_id_def dest: map_of_SomeD split: option.split)
  consider "i = j" | "(i, j) \<in> set nid_alias" | "(j, i) \<in> set nid_alias"
    using cases [of i] cases [of j] same nid_alias_inj by metis
  then have "Help d = Help e \<and> Type d = Type e"
  proof cases
    case 1
    with assms(1,2) show ?thesis by simp
  next
    case 2
    from aliased [OF this assms(1,2)] show ?thesis .
  next
    case 3
    from aliased [OF this assms(2,1)] show ?thesis by simp
  qed
  moreover have "LabelKeys d = LabelKeys e \<longleftrightarrow> i = j"
    using registered_unique [OF assms] assms(1,2) by auto
  ultimately show ?thesis by blast
qed

lemma contract_consistent_witness:
  "Help m_drop_count_by_nid_total = Help m_drop_count_total \<and>
   Type m_drop_count_by_nid_total = Type m_drop_count_total \<and>
   (LabelKeys m_drop_count_by_nid_total = LabelKeys m_drop_count_total \<longleftrightarrow>
      ''drop_count_by_nid_total'' = ''drop_count_total'')"
  by (rule contract_consistent) (simp_all add: nid_metric_defs)

end
