(* ===== verification/Collector_Simple.thy ===== *)
theory Collector_Simple
  imports Parser_Basic Parser_LPCC Discovery Emitter
begin

text \<open>
  \<^verbatim>\<open>collector/health.go\<close>, \<^verbatim>\<open>collector/sptlrpc.go\<close> and \<^verbatim>\<open>collector/lpcc.go\<close>, and what all
  collectors share: gathering observations from a reader, then \<open>mapper.Map\<close> and \<open>emitter.Emit\<close>.
  Log output is not modelled.
\<close>

section \<open>Gathering and publishing\<close>

text \<open>The client library and the other goroutines, as the emitter sees them.\<close>

record ('d, 'm) prometheus =
  NewDesc :: "'d new_desc"
  NewConstMetric :: "('d, 'm) new_metric"
  others :: "nat \<Rightarrow> 'd interference"

definition prometheus_ok :: "('d, 'm) prometheus \<Rightarrow> bool" where
  "prometheus_ok prom \<longleftrightarrow> (\<forall>n. interference_ok (NewDesc prom) (others prom n))"

definition collect_metrics ::
  "('d, 'm) prometheus \<Rightarrow> 'd cache \<Rightarrow> observation list result \<Rightarrow> 'm list result \<times> 'd cache" where
  "collect_metrics prom cache r =
     (case r of
        Inl err \<Rightarrow> (Inl err, cache)
      | Inr os \<Rightarrow> publish (NewDesc prom) (NewConstMetric prom) (others prom) cache os)"

text \<open>What the metrics of a collector are, without the cache.\<close>

definition metrics_of :: "('d, 'm) prometheus \<Rightarrow> observation list result \<Rightarrow> 'm list result" where
  "metrics_of prom r = bind_res r (published (NewDesc prom) (NewConstMetric prom))"

lemma collect_metrics_uncached:
  "prometheus_ok prom \<Longrightarrow> cache_ok (NewDesc prom) cache \<Longrightarrow>
     fst (collect_metrics prom cache r) = metrics_of prom r \<and>
     cache_ok (NewDesc prom) (snd (collect_metrics prom cache r))"
  using publish_uncached [of "NewDesc prom" "others prom" cache "NewConstMetric prom"]
  by (auto simp: collect_metrics_def metrics_of_def prometheus_ok_def split: sum.split)

section \<open>Health\<close>

record HealthCollector =
  hreader :: reader
  hpathCfg :: PathConfig

definition NewHealthCollector :: "reader \<Rightarrow> PathConfig \<Rightarrow> HealthCollector" where
  [simp]: "NewHealthCollector r cfg = \<lparr>hreader = r, hpathCfg = cfg\<rparr>"

definition Health_Name :: "HealthCollector \<Rightarrow> string" where
  [simp]: "Health_Name c = ''health''"

definition Health_ScrapeSource :: "HealthCollector \<Rightarrow> string" where
  [simp]: "Health_ScrapeSource c = ''sysfs''"

definition health_observations :: "HealthCollector \<Rightarrow> observation list result" where
  "health_observations c =
     (let path = HealthPath (hpathCfg c) in
      bind_res (ReadFile (hreader c) path) (\<lambda>data. ParseHealth data path))"

definition Health_Collect ::
  "('d, 'm) prometheus \<Rightarrow> HealthCollector \<Rightarrow> 'd cache \<Rightarrow> 'm list result \<times> 'd cache" where
  "Health_Collect prom c cache = collect_metrics prom cache (health_observations c)"

lemma health_observations_conform: "health_observations c = Inr os \<Longrightarrow> all_conform os"
  by (auto simp: health_observations_def Let_def res_iff intro: health.conforming)

interpretation health_collector: observation_source health_observations
  by unfold_locales (rule health_observations_conform)

section \<open>Sptlrpc\<close>

record SptlrpcCollector =
  sreader :: reader
  spathCfg :: PathConfig

definition NewSptlrpcCollector :: "reader \<Rightarrow> PathConfig \<Rightarrow> SptlrpcCollector" where
  [simp]: "NewSptlrpcCollector r cfg = \<lparr>sreader = r, spathCfg = cfg\<rparr>"

definition Sptlrpc_Name :: "SptlrpcCollector \<Rightarrow> string" where
  [simp]: "Sptlrpc_Name c = ''sptlrpc''"

definition Sptlrpc_ScrapeSource :: "SptlrpcCollector \<Rightarrow> string" where
  [simp]: "Sptlrpc_ScrapeSource c = ''sys''"

definition sptlrpc_observations :: "SptlrpcCollector \<Rightarrow> observation list result" where
  "sptlrpc_observations c =
     bind_res (ReadFirstAvailable (sreader c) (SptlrpcPaths (spathCfg c)))
       (\<lambda>(data, path). ParseEncryptPagePools data path)"

definition Sptlrpc_Collect ::
  "('d, 'm) prometheus \<Rightarrow> SptlrpcCollector \<Rightarrow> 'd cache \<Rightarrow> 'm list result \<times> 'd cache" where
  "Sptlrpc_Collect prom c cache = collect_metrics prom cache (sptlrpc_observations c)"

lemma sptlrpc_observations_conform: "sptlrpc_observations c = Inr os \<Longrightarrow> all_conform os"
  by (auto simp: sptlrpc_observations_def res_iff intro: sptlrpc.conforming)

interpretation sptlrpc_collector: observation_source sptlrpc_observations
  by unfold_locales (rule sptlrpc_observations_conform)

section \<open>LPCC\<close>

text \<open>A command that fails is not an error of the collector: it returns no metrics.\<close>

record LpccCollector =
  lreader :: reader
  lpccBin :: string

definition NewLpccCollector :: "reader \<Rightarrow> string \<Rightarrow> LpccCollector" where
  [simp]: "NewLpccCollector r bin = \<lparr>lreader = r, lpccBin = bin\<rparr>"

definition Lpcc_Name :: "LpccCollector \<Rightarrow> string" where
  [simp]: "Lpcc_Name c = ''lpcc''"

definition Lpcc_ScrapeSource :: "LpccCollector \<Rightarrow> string" where
  [simp]: "Lpcc_ScrapeSource c = ''lpcc''"

definition lpcc_observations ::
  "(lpccStatusOutput \<Rightarrow> lpccStatusOutput) \<Rightarrow> string \<Rightarrow> observation list result" where
  "lpcc_observations order data = ParseLpccStatus order data ''lpcc status''"

definition Lpcc_Collect ::
  "('d, 'm) prometheus \<Rightarrow> (lpccStatusOutput \<Rightarrow> lpccStatusOutput) \<Rightarrow> LpccCollector \<Rightarrow> 'd cache \<Rightarrow>
     'm list result \<times> 'd cache" where
  "Lpcc_Collect prom order c cache =
     (case RunCommand (lreader c) (lpccBin c) [''status''] of
        Inl err \<Rightarrow> (Inr [], cache)
      | Inr data \<Rightarrow> collect_metrics prom cache (lpcc_observations order data))"

interpretation lpcc_collector: observation_source "lpcc_observations order" for order
  by unfold_locales (auto simp: lpcc_observations_def intro: lpcc.conforming)

end
