(* ===== verification/Collector_Client.thy ===== *)
theory Collector_Client
  imports Parser_Client Parser_RPC Collector_Simple
begin

text \<open>
  \<^verbatim>\<open>collector/client.go\<close>: the client collector, strict and not.  A function of the code that returns
  observations and an error is a function into a result; \<open>return nil, c.strictError(err, ...)\<close>
  is \<open>strictError strict err\<close>: the error in strict mode, nothing otherwise.
\<close>

definition lliteSingleFiles :: "string list" where
  "lliteSingleFiles =
     [''blocksize'', ''filesfree'', ''filestotal'',
      ''kbytesavail'', ''kbytesfree'', ''kbytestotal'',
      ''checksum_pages'', ''default_easize'', ''lazystatfs'',
      ''max_easize'', ''max_read_ahead_mb'', ''max_read_ahead_per_file_mb'',
      ''max_read_ahead_whole_mb'', ''statahead_agl'', ''statahead_max'', ''xattr_cache'']"

definition oscParamFiles :: "string list" where
  "oscParamFiles =
     [''cur_dirty_bytes'', ''max_dirty_mb'', ''max_pages_per_rpc'', ''max_rpcs_in_flight'',
      ''active'', ''state'']"

definition mdcParamFiles :: "string list" where
  "mdcParamFiles =
     [''max_rpcs_in_flight'', ''max_mod_rpcs_in_flight'', ''max_pages_per_rpc'', ''active'', ''state'']"

record ClientCollector =
  creader :: reader
  cpathCfg :: PathConfig
  strict :: bool

definition NewClientCollectorWithStrict :: "reader \<Rightarrow> PathConfig \<Rightarrow> bool \<Rightarrow> ClientCollector" where
  [simp]: "NewClientCollectorWithStrict r cfg st = \<lparr>creader = r, cpathCfg = cfg, strict = st\<rparr>"

definition NewClientCollector :: "reader \<Rightarrow> PathConfig \<Rightarrow> ClientCollector" where
  "NewClientCollector r cfg = NewClientCollectorWithStrict r cfg False"

definition Client_Name :: "ClientCollector \<Rightarrow> string" where
  [simp]: "Client_Name c = ''client''"

definition Client_ScrapeSource :: "ClientCollector \<Rightarrow> string" where
  [simp]: "Client_ScrapeSource c = ''procfs''"

section \<open>Reading one target\<close>

definition strictError :: "bool \<Rightarrow> go_error \<Rightarrow> observation list result" where
  "strictError st err = (if st then Inl err else Inr [])"

definition collectLDLMCBD :: "ClientCollector \<Rightarrow> observation list result" where
  "collectLDLMCBD c =
     (case ReadFirstAvailable (creader c) (LDLMCBDStatsPaths (cpathCfg c)) of
        Inl err \<Rightarrow> Inr []
      | Inr (data, path) \<Rightarrow> ParseLDLMCBDStats data path)"

text \<open>\<open>lastErr\<close> is nil after the loop exactly when there is no root.\<close>

definition readParamFile :: "reader \<Rightarrow> ClientTarget \<Rightarrow> string \<Rightarrow> (string \<times> string) result" where
  "readParamFile r t nm =
     read_loop r (Errorf ''param file %s not found'' [ArgS nm] [])
       (map (\<lambda>root. filepath_Join [root, nm]) (ParamRoots t))"

text \<open>One iteration of the loop over single-value files.\<close>

definition llite_single_file :: "ClientCollector \<Rightarrow> ClientTarget \<Rightarrow> string \<Rightarrow> observation list result" where
  "llite_single_file c t nm =
     (case readParamFile (creader c) t nm of
        Inl err \<Rightarrow> Inr []
      | Inr (data, path) \<Rightarrow>
          (case ParseLLiteSingleFile data path nm ''client'' (TName t) of
             Inl err \<Rightarrow> if strict c then Inl err else Inr []
           | Inr os \<Rightarrow> Inr os))"

definition collectLLite :: "ClientCollector \<Rightarrow> ClientTarget \<Rightarrow> observation list result" where
  "collectLLite c t =
     bind_res (ReadFile (creader c) (StatsPath t)) (\<lambda>data.
     bind_res (ParseLLiteStats data (StatsPath t) ''client'' (TName t)) (\<lambda>os.
     bind_res (collect_all (llite_single_file c t) lliteSingleFiles) (\<lambda>singles.
       Inr (os @ singles))))"

definition collectOBDStats :: "ClientCollector \<Rightarrow> ClientTarget \<Rightarrow> observation list result" where
  "collectOBDStats c t =
     (if StatsPath t = [] then Inr []
      else
        (case ReadFile (creader c) (StatsPath t) of
           Inl err \<Rightarrow> strictError (strict c) err
         | Inr data \<Rightarrow>
             (case ParseOBDStats data (StatsPath t) ''client'' (TName t) (Component t) of
                Inl err \<Rightarrow> strictError (strict c) err
              | Inr os \<Rightarrow> Inr os)))"

definition collectRPCStats :: "ClientCollector \<Rightarrow> ClientTarget \<Rightarrow> observation list result" where
  "collectRPCStats c t =
     (if RpcStatsPath t = [] then Inr []
      else
        (case ReadFile (creader c) (RpcStatsPath t) of
           Inl err \<Rightarrow> if is_not_exist err then Inr [] else strictError (strict c) err
         | Inr data \<Rightarrow>
             (case ParseRPCStats data (RpcStatsPath t) ''client'' (TName t) (Component t) of
                Inl err \<Rightarrow> strictError (strict c) err
              | Inr os \<Rightarrow> Inr os)))"

definition clientParamFiles :: "string \<Rightarrow> string list" where
  "clientParamFiles component = (if component = ''mdc'' then mdcParamFiles else oscParamFiles)"

definition parseClientParamFile ::
  "string \<Rightarrow> string \<Rightarrow> string \<Rightarrow> ClientTarget \<Rightarrow> observation list result" where
  "parseClientParamFile data path nm t =
     (if nm = ''state'' then ParseClientState data path ''client'' (TName t) (Component t)
      else ParseClientSingleFile data path nm ''client'' (TName t) (Component t))"

definition client_param_file :: "ClientCollector \<Rightarrow> ClientTarget \<Rightarrow> string \<Rightarrow> observation list result" where
  "client_param_file c t nm =
     (case readParamFile (creader c) t nm of
        Inl err \<Rightarrow> Inr []
      | Inr (data, path) \<Rightarrow>
          (case parseClientParamFile data path nm t of
             Inl err \<Rightarrow> if strict c then Inl err else Inr []
           | Inr os \<Rightarrow> Inr os))"

definition collectClientParams :: "ClientCollector \<Rightarrow> ClientTarget \<Rightarrow> observation list result" where
  "collectClientParams c t =
     collect_all (client_param_file c t) (clientParamFiles (Component t))"

definition collectRPC :: "ClientCollector \<Rightarrow> ClientTarget \<Rightarrow> observation list result" where
  "collectRPC c t =
     bind_res (collectOBDStats c t) (\<lambda>os1.
     bind_res (collectRPCStats c t) (\<lambda>os2.
     bind_res (collectClientParams c t) (\<lambda>os3. Inr (os1 @ os2 @ os3))))"

definition collectTarget :: "ClientCollector \<Rightarrow> ClientTarget \<Rightarrow> observation list result" where
  "collectTarget c t =
     (if Component t = ''llite'' then
        (case collectLLite c t of Inl err \<Rightarrow> strictError (strict c) err | Inr os \<Rightarrow> Inr os)
      else if Component t = ''mdc'' \<or> Component t = ''osc'' then
        (case collectRPC c t of Inl err \<Rightarrow> strictError (strict c) err | Inr os \<Rightarrow> Inr os)
      else Inr [])"

section \<open>Collect\<close>

definition client_observations :: "ClientCollector \<Rightarrow> observation list result" where
  "client_observations c =
     bind_res (DiscoverClients (creader c) (cpathCfg c)) (\<lambda>ts.
     bind_res
       (case collectLDLMCBD c of
          Inr os \<Rightarrow> Inr os
        | Inl err \<Rightarrow> if strict c then Inl err else Inr [])
       (\<lambda>ldlmObs.
     bind_res (collect_all (collectTarget c) ts) (\<lambda>os. Inr (ldlmObs @ os))))"

definition Client_Collect ::
  "('d, 'm) prometheus \<Rightarrow> ClientCollector \<Rightarrow> 'd cache \<Rightarrow> 'm list result \<times> 'd cache" where
  "Client_Collect prom c cache = collect_metrics prom cache (client_observations c)"

section \<open>The contract\<close>

lemma strictError_conform: "strictError st err = Inr os \<Longrightarrow> all_conform os"
  by (simp add: strictError_def split: if_splits)

lemma collectLDLMCBD_conform: "collectLDLMCBD c = Inr os \<Longrightarrow> all_conform os"
  by (auto simp: collectLDLMCBD_def ldlm.conforming split: sum.splits)

lemma llite_single_file_conform: "llite_single_file c t nm = Inr os \<Longrightarrow> all_conform os"
  by (auto simp: llite_single_file_def llite_single.conforming split: sum.splits if_splits)

lemma collectLLite_conform: "collectLLite c t = Inr os \<Longrightarrow> all_conform os"
  unfolding collectLLite_def bind_res_Inr_iff
  by (auto simp: llite.conforming all_conform_collect [OF _ llite_single_file_conform])

lemma collectOBDStats_conform: "collectOBDStats c t = Inr os \<Longrightarrow> all_conform os"
  by (auto simp: collectOBDStats_def obd.conforming strictError_conform split: sum.splits if_splits)

lemma collectRPCStats_conform: "collectRPCStats c t = Inr os \<Longrightarrow> all_conform os"
  by (auto simp: collectRPCStats_def rpc.conforming strictError_conform split: sum.splits if_splits)

lemma client_param_file_conform: "client_param_file c t nm = Inr os \<Longrightarrow> all_conform os"
  by (auto simp: client_param_file_def parseClientParamFile_def client_state.conforming
      client_single.conforming split: sum.splits if_splits)

lemma collectRPC_conform: "collectRPC c t = Inr os \<Longrightarrow> all_conform os"
  unfolding collectRPC_def collectClientParams_def bind_res_Inr_iff
  by (auto simp: collectOBDStats_conform collectRPCStats_conform
      all_conform_collect [OF _ client_param_file_conform])

lemma collectTarget_conform: "collectTarget c t = Inr os \<Longrightarrow> all_conform os"
  by (auto simp: collectTarget_def collectLLite_conform collectRPC_conform strictError_conform
      split: sum.splits if_splits)

lemma client_observations_conform: "client_observations c = Inr os \<Longrightarrow> all_conform os"
  unfolding client_observations_def bind_res_Inr_iff
  by (auto simp: collectLDLMCBD_conform all_conform_collect [OF _ collectTarget_conform]
      split: sum.splits if_splits)

interpretation client_collector: observation_source client_observations
  by unfold_locales (rule client_observations_conform)

section \<open>Strict and non-strict runs\<close>

text \<open>
  The contract of every stage of the collector that respects \<open>-collector.strict\<close>: it never fails when
  the mode is off, and where it succeeds with the mode on it yields what it yields with the mode off.
\<close>

locale lenient_stage =
  fixes run :: "bool \<Rightarrow> 'i \<Rightarrow> observation list result"
  assumes never_fails: "is_ok (run False i)"
    and strict_agrees: "run True i = Inr os \<Longrightarrow> run False i = Inr os"
begin

lemma all_never_fail: "is_ok (collect_all (run False) xs)"
  by (simp add: is_ok_collect_all never_fails)

lemma nonstrict_value: "run False i = Inr (or_empty (run False i))"
  using never_fails [of i] by (auto simp: is_ok_iff)

lemma all_value: "collect_all (run False) xs = Inr (concat (map (\<lambda>x. or_empty (run False x)) xs))"
  by (rule collect_all_ok) (rule nonstrict_value)

lemma all_agree:
  assumes "collect_all (run True) xs = Inr os"
  shows "collect_all (run False) xs = Inr os"
proof -
  have "or_empty (run True x) = or_empty (run False x)" if "is_ok (run True x)" for x
    using that strict_agrees [of x] by (auto simp: is_ok_iff)
  then have "concat (map (\<lambda>x. or_empty (run True x)) xs) = concat (map (\<lambda>x. or_empty (run False x)) xs)"
    if "\<forall>x \<in> set xs. is_ok (run True x)"
    using that by (intro arg_cong [where f = concat] map_cong) auto
  with assms show ?thesis by (simp add: res_iff never_fails)
qed

end

lemma strictError_simps [simp]: "strictError True err = Inl err" "strictError False err = Inr []"
  by (simp_all add: strictError_def)

interpretation single: lenient_stage "\<lambda>st. llite_single_file (c\<lparr>strict := st\<rparr>) t" for c t
  by unfold_locales (auto simp: llite_single_file_def split: sum.split)

interpretation obd_stats: lenient_stage "\<lambda>st. collectOBDStats (c\<lparr>strict := st\<rparr>)" for c
  by unfold_locales (auto simp: collectOBDStats_def split: sum.split if_splits)

interpretation rpc_stats: lenient_stage "\<lambda>st. collectRPCStats (c\<lparr>strict := st\<rparr>)" for c
  by unfold_locales (auto simp: collectRPCStats_def split: sum.split if_splits)

interpretation param: lenient_stage "\<lambda>st. client_param_file (c\<lparr>strict := st\<rparr>) t" for c t
  by unfold_locales (auto simp: client_param_file_def split: sum.split)

interpretation params: lenient_stage "\<lambda>st. collectClientParams (c\<lparr>strict := st\<rparr>)" for c
  by unfold_locales (simp_all add: collectClientParams_def param.all_never_fail param.all_agree)

lemma bind_ok: "is_ok r \<Longrightarrow> (\<And>x. is_ok (k x)) \<Longrightarrow> is_ok (bind_res r k)"
  by (auto simp: is_ok_iff)

interpretation rpc_target: lenient_stage "\<lambda>st. collectRPC (c\<lparr>strict := st\<rparr>)" for c
proof unfold_locales
  fix t
  show "is_ok (collectRPC (c\<lparr>strict := False\<rparr>) t)"
    by (simp add: collectRPC_def bind_ok obd_stats.never_fails rpc_stats.never_fails params.never_fails)
next
  fix t os
  assume "collectRPC (c\<lparr>strict := True\<rparr>) t = Inr os"
  then show "collectRPC (c\<lparr>strict := False\<rparr>) t = Inr os"
    by (auto simp: collectRPC_def bind_res_Inr_iff
        dest!: obd_stats.strict_agrees rpc_stats.strict_agrees params.strict_agrees)
qed

lemma collectLLite_agrees:
  "collectLLite (c\<lparr>strict := True\<rparr>) t = Inr os \<Longrightarrow> collectLLite (c\<lparr>strict := False\<rparr>) t = Inr os"
  by (auto simp: collectLLite_def bind_res_Inr_iff dest!: single.all_agree)

interpretation target: lenient_stage "\<lambda>st. collectTarget (c\<lparr>strict := st\<rparr>)" for c
proof unfold_locales
  fix t
  show "is_ok (collectTarget (c\<lparr>strict := False\<rparr>) t)"
    by (simp add: collectTarget_def split: sum.split)
next
  fix t os
  assume "collectTarget (c\<lparr>strict := True\<rparr>) t = Inr os"
  then show "collectTarget (c\<lparr>strict := False\<rparr>) t = Inr os"
    by (auto simp: collectTarget_def rpc_target.strict_agrees collectLLite_agrees
        split: sum.splits if_splits)
qed

lemma ldlm_strict [simp]: "collectLDLMCBD (c\<lparr>strict := st\<rparr>) = collectLDLMCBD c"
  by (simp add: collectLDLMCBD_def)

definition run_client :: "bool \<Rightarrow> ClientCollector \<Rightarrow> observation list result" where
  "run_client st c = client_observations (c\<lparr>strict := st\<rparr>)"

interpretation client_run: lenient_stage run_client
proof unfold_locales
  fix c
  show "is_ok (run_client False c)"
    by (simp add: run_client_def client_observations_def DiscoverClients_def bind_ok
        target.all_never_fail split: sum.split)
next
  fix c os
  assume "run_client True c = Inr os"
  then show "run_client False c = Inr os"
    by (auto simp: run_client_def client_observations_def bind_res_Inr_iff split: sum.splits
        dest!: target.all_agree)
qed

section \<open>When a strict run fails\<close>

text \<open>A source that can be read must parse.\<close>

definition parses :: "(string \<times> string) result \<Rightarrow> (string \<Rightarrow> string \<Rightarrow> observation list result) \<Rightarrow> bool" where
  "parses rd p = (case rd of Inl err \<Rightarrow> True | Inr (data, path) \<Rightarrow> is_ok (p data path))"

definition llite_sound :: "ClientCollector \<Rightarrow> ClientTarget \<Rightarrow> bool" where
  "llite_sound c t \<longleftrightarrow>
     is_ok (bind_res (ReadFile (creader c) (StatsPath t))
              (\<lambda>d. ParseLLiteStats d (StatsPath t) ''client'' (TName t))) \<and>
     list_all (\<lambda>nm. parses (readParamFile (creader c) t nm)
                      (\<lambda>d p. ParseLLiteSingleFile d p nm ''client'' (TName t))) lliteSingleFiles"

definition obd_sound :: "ClientCollector \<Rightarrow> ClientTarget \<Rightarrow> bool" where
  "obd_sound c t \<longleftrightarrow>
     StatsPath t = [] \<or>
     is_ok (bind_res (ReadFile (creader c) (StatsPath t))
              (\<lambda>d. ParseOBDStats d (StatsPath t) ''client'' (TName t) (Component t)))"

definition rpc_sound :: "ClientCollector \<Rightarrow> ClientTarget \<Rightarrow> bool" where
  "rpc_sound c t \<longleftrightarrow>
     RpcStatsPath t = [] \<or>
     (case ReadFile (creader c) (RpcStatsPath t) of
        Inl err \<Rightarrow> is_not_exist err
      | Inr d \<Rightarrow> is_ok (ParseRPCStats d (RpcStatsPath t) ''client'' (TName t) (Component t)))"

definition params_sound :: "ClientCollector \<Rightarrow> ClientTarget \<Rightarrow> bool" where
  "params_sound c t \<longleftrightarrow>
     list_all (\<lambda>nm. parses (readParamFile (creader c) t nm) (\<lambda>d p. parseClientParamFile d p nm t))
       (clientParamFiles (Component t))"

definition target_sound :: "ClientCollector \<Rightarrow> ClientTarget \<Rightarrow> bool" where
  "target_sound c t \<longleftrightarrow>
     (if Component t = ''llite'' then llite_sound c t
      else if Component t = ''mdc'' \<or> Component t = ''osc''
      then obd_sound c t \<and> rpc_sound c t \<and> params_sound c t
      else True)"

lemma is_ok_bind3:
  "is_ok (bind_res r (\<lambda>x. bind_res s (\<lambda>y. bind_res u (\<lambda>z. Inr (f x y z))))) \<longleftrightarrow>
     is_ok r \<and> is_ok s \<and> is_ok u"
  by (cases r; cases s; cases u) simp_all

lemma single_ok:
  "strict c \<Longrightarrow> is_ok (llite_single_file c t nm) =
     parses (readParamFile (creader c) t nm) (\<lambda>d p. ParseLLiteSingleFile d p nm ''client'' (TName t))"
  by (auto simp: llite_single_file_def parses_def split: sum.split)

lemma llite_ok: "strict c \<Longrightarrow> is_ok (collectLLite c t) = llite_sound c t"
proof -
  assume "strict c"
  then have singles: "is_ok (collect_all (llite_single_file c t) lliteSingleFiles) \<longleftrightarrow>
      list_all (\<lambda>nm. parses (readParamFile (creader c) t nm)
        (\<lambda>d p. ParseLLiteSingleFile d p nm ''client'' (TName t))) lliteSingleFiles"
    by (simp only: is_ok_collect_all single_ok list_all_iff)
  show ?thesis
    unfolding collectLLite_def llite_sound_def singles [symmetric]
    by (cases "ReadFile (creader c) (StatsPath t)";
        cases "collect_all (llite_single_file c t) lliteSingleFiles")
       (auto simp: is_ok_iff bind_res_Inr_iff)
qed

lemma obd_ok: "strict c \<Longrightarrow> is_ok (collectOBDStats c t) = obd_sound c t"
  by (auto simp: collectOBDStats_def obd_sound_def split: sum.split)

lemma rpc_ok: "strict c \<Longrightarrow> is_ok (collectRPCStats c t) = rpc_sound c t"
  by (auto simp: collectRPCStats_def rpc_sound_def split: sum.split)

lemma param_ok:
  "strict c \<Longrightarrow> is_ok (client_param_file c t nm) =
     parses (readParamFile (creader c) t nm) (\<lambda>d p. parseClientParamFile d p nm t)"
  by (auto simp: client_param_file_def parses_def split: sum.split)

lemma params_ok: "strict c \<Longrightarrow> is_ok (collectClientParams c t) = params_sound c t"
  by (simp add: collectClientParams_def params_sound_def is_ok_collect_all param_ok list_all_iff)

lemma is_ok_case:
  "strict c \<Longrightarrow> is_ok (case r of Inl e \<Rightarrow> strictError (strict c) e | Inr x \<Rightarrow> Inr x) = is_ok r"
  by (simp split: sum.split)

lemma rpc_target_ok:
  "strict c \<Longrightarrow> is_ok (collectRPC c t) \<longleftrightarrow> obd_sound c t \<and> rpc_sound c t \<and> params_sound c t"
  by (simp only: collectRPC_def is_ok_bind3 obd_ok rpc_ok params_ok)

lemma target_ok_strict: "strict c \<Longrightarrow> is_ok (collectTarget c t) = target_sound c t"
  by (simp add: collectTarget_def target_sound_def is_ok_case llite_ok rpc_target_ok del: sum.case)

lemma target_sound_strict [simp]: "target_sound (c\<lparr>strict := st\<rparr>) t = target_sound c t"
  by (simp add: target_sound_def llite_sound_def obd_sound_def rpc_sound_def params_sound_def)

lemma run_client_ok:
  assumes "DiscoverClients (creader c) (cpathCfg c) = Inr ts"
  shows "is_ok (run_client True c) \<longleftrightarrow> is_ok (collectLDLMCBD c) \<and> list_all (target_sound c) ts"
proof -
  have ts: "is_ok (collect_all (collectTarget (c\<lparr>strict := True\<rparr>)) ts) \<longleftrightarrow> list_all (target_sound c) ts"
    by (simp add: is_ok_collect_all target_ok_strict list_all_iff)
  then show ?thesis
    by (cases "collectLDLMCBD c"; cases "collect_all (collectTarget (c\<lparr>strict := True\<rparr>)) ts")
       (simp_all add: run_client_def client_observations_def assms)
qed

section \<open>A non-strict run, source by source\<close>

text \<open>What one source contributes: its observations if it can be read and parsed, nothing otherwise.\<close>

definition source_obs :: "(string \<times> string) result \<Rightarrow> (string \<Rightarrow> string \<Rightarrow> observation list result) \<Rightarrow>
    observation list" where
  "source_obs rd p = (case rd of Inl err \<Rightarrow> [] | Inr (data, path) \<Rightarrow> or_empty (p data path))"

definition read_at :: "reader \<Rightarrow> string \<Rightarrow> (string \<times> string) result" where
  "read_at r path = (if path = [] then Inl NotExist else bind_res (ReadFile r path) (\<lambda>d. Inr (d, path)))"

definition rpc_target_obs :: "ClientCollector \<Rightarrow> ClientTarget \<Rightarrow> observation list" where
  "rpc_target_obs c t =
     source_obs (read_at (creader c) (StatsPath t))
       (\<lambda>d p. ParseOBDStats d p ''client'' (TName t) (Component t)) @
     source_obs (read_at (creader c) (RpcStatsPath t))
       (\<lambda>d p. ParseRPCStats d p ''client'' (TName t) (Component t)) @
     concat (map (\<lambda>nm. source_obs (readParamFile (creader c) t nm) (\<lambda>d p. parseClientParamFile d p nm t))
       (clientParamFiles (Component t)))"

lemma obd_value:
  "or_empty (collectOBDStats (c\<lparr>strict := False\<rparr>) t) =
     source_obs (read_at (creader c) (StatsPath t))
       (\<lambda>d p. ParseOBDStats d p ''client'' (TName t) (Component t))"
  by (auto simp: collectOBDStats_def source_obs_def read_at_def split: sum.split)

lemma rpc_value:
  "or_empty (collectRPCStats (c\<lparr>strict := False\<rparr>) t) =
     source_obs (read_at (creader c) (RpcStatsPath t))
       (\<lambda>d p. ParseRPCStats d p ''client'' (TName t) (Component t))"
  by (auto simp: collectRPCStats_def source_obs_def read_at_def split: sum.split)

lemma param_value:
  "or_empty (client_param_file (c\<lparr>strict := False\<rparr>) t nm) =
     source_obs (readParamFile (creader c) t nm) (\<lambda>d p. parseClientParamFile d p nm t)"
  by (auto simp: client_param_file_def source_obs_def split: sum.split)

lemma rpc_target_value: "collectRPC (c\<lparr>strict := False\<rparr>) t = Inr (rpc_target_obs c t)"
  using obd_stats.nonstrict_value [of c t] rpc_stats.nonstrict_value [of c t]
  by (simp add: collectRPC_def collectClientParams_def param.all_value param_value obd_value rpc_value
      rpc_target_obs_def)

section \<open>A context that is done\<close>

context bounded_reader begin

lemma client_done:
  assumes "creader c = mk (Some e)"
  shows "client_observations c = Inr []"
proof -
  have globs: "globAll (mk (Some e)) pats = []" for pats
    by (induction pats) (simp_all add: globAll_def done_glob)
  have "targets (discover_index (mk (Some e)) cfg) = []" for cfg
    by (simp add: discover_index_def add_all_stats_def add_all_rpc_stats_def globs empty_index_def)
  moreover have "collectLDLMCBD c = Inr []"
    by (simp add: collectLDLMCBD_def assms done_first LDLMCBDStatsPaths_def)
  ultimately show ?thesis by (simp add: client_observations_def DiscoverClients_def assms)
qed

end

end
