(* ===== verification/Parser_LNet.thy ===== *)
theory Parser_LNet
  imports Mapper Json
begin

text \<open>
  \<^verbatim>\<open>internal/parser/lnet.go\<close>: the LNet stats file, the LNet parameter files, and the output of
  \<open>lnetctl\<close>.  The decoder \<open>yaml\<close> of \<open>lnetctl\<close> output is a parameter, \<open>yaml.Unmarshal\<close> of
  \<^verbatim>\<open>gopkg.in/yaml.v3\<close>: it takes the bytes and the destination and yields an error, if any, and the
  destination as it leaves it.  The decoders for the JSON fallback come from the tags of the structs.
\<close>

section \<open>Stats and parameter files\<close>

definition lnetStatsFields :: "(string \<times> metric_type) list" where
  "lnetStatsFields =
     [(''allocated'', Gauge),
      (''maximum'', Gauge),
      (''errors_total'', Counter),
      (''send_count_total'', Counter),
      (''receive_count_total'', Counter),
      (''route_count_total'', Counter),
      (''drop_count_total'', Counter),
      (''send_bytes_total'', Counter),
      (''receive_bytes_total'', Counter),
      (''route_bytes_total'', Counter),
      (''drop_bytes_total'', Counter)]"

definition lnetBaseLabels :: "string \<rightharpoonup> string" where
  "lnetBaseLabels = [''component'' \<mapsto> ''lnet'', ''target'' \<mapsto> ''lnet'']"

definition lnet_stats_field :: "string \<Rightarrow> nat \<times> string \<Rightarrow> observation list result" where
  "lnet_stats_field source ifd =
     (case ifd of (i, f) \<Rightarrow>
        bind_res
          (map_err (\<lambda>e. Errorf ''lnet stats field %d: %w'' [ArgN i] [e]) (ParseFloat f))
          (\<lambda>val. Inr [obs ''lnet'' source (fst (lnetStatsFields ! i)) (snd (lnetStatsFields ! i))
                            lnetBaseLabels val]))"

definition ParseLNetStats :: "string \<Rightarrow> string \<Rightarrow> observation list result" where
  "ParseLNetStats data source =
     (let line = TrimSpace data in
      if line = [] then Inr []
      else
        let fs = Fields line in
        if length fs \<noteq> length lnetStatsFields
        then Inl (Errorf ''lnet stats: expected %d fields, got %d''
                    [ArgN (length lnetStatsFields), ArgN (length fs)] [])
        else collect_all (lnet_stats_field source) (enumerate 0 fs))"

definition lnet_params :: "(string \<times> string \<times> metric_type) list" where
  "lnet_params =
     [(''console_backoff'', ''console_backoff_enabled'', Gauge),
      (''console_max_delay_centisecs'', ''console_max_delay_centiseconds'', Gauge),
      (''console_min_delay_centisecs'', ''console_min_delay_centiseconds'', Gauge),
      (''console_ratelimit'', ''console_ratelimit_enabled'', Gauge),
      (''debug_mb'', ''debug_megabytes'', Gauge),
      (''panic_on_lbug'', ''panic_on_lbug_enabled'', Gauge),
      (''watchdog_ratelimit'', ''watchdog_ratelimit_enabled'', Gauge),
      (''catastrophe'', ''catastrophe_enabled'', Gauge),
      (''lnet_memused'', ''lnet_memory_used_bytes'', Gauge),
      (''fail_err'', ''fail_error_total'', Counter),
      (''fail_val'', ''fail_maximum'', Gauge),
      (''fail_max'', ''fail_maximum'', Gauge)]"

definition lnetParamMap :: "string \<rightharpoonup> string \<times> metric_type" where
  "lnetParamMap = map_of lnet_params"

definition ParseLNetParam :: "string \<Rightarrow> string \<Rightarrow> string \<Rightarrow> observation list result" where
  "ParseLNetParam data source paramName =
     (case lnetParamMap paramName of
        None \<Rightarrow> Inr []
      | Some (metricID, metricType) \<Rightarrow>
          bind_res
            (map_err (\<lambda>e. Errorf ''lnet param %q: %w'' [ArgS paramName] [e]) (ParseFloat (TrimSpace data)))
            (\<lambda>val. Inr [obs ''lnet'' source metricID metricType lnetBaseLabels val]))"

section \<open>Output of lnetctl\<close>

record lnetctl_stats =
  MsgsAlloc :: float64
  MsgsMax :: float64
  Errors :: float64
  SendCount :: float64
  RecvCount :: float64
  RouteCount :: float64
  DropCount :: float64
  SendLength :: float64
  RecvLength :: float64
  RouteLength :: float64
  DropLength :: float64

definition lnetctl_stats_zero :: lnetctl_stats where
  "lnetctl_stats_zero =
     \<lparr>MsgsAlloc = f_zero, MsgsMax = f_zero, Errors = f_zero, SendCount = f_zero, RecvCount = f_zero,
      RouteCount = f_zero, DropCount = f_zero, SendLength = f_zero, RecvLength = f_zero,
      RouteLength = f_zero, DropLength = f_zero\<rparr>"

text \<open>One local interface of \<open>net show\<close>, as \<open>lnetCtlNetShow\<close> and as \<open>lnetCtlNetNIShow\<close> decode it.\<close>

record local_ni =
  NID :: string
  NISendCount :: float64
  NIRecvCount :: float64
  NIDropCount :: float64

record health_stats =
  HealthValue :: float64
  Interrupts :: float64
  Dropped :: float64
  Aborted :: float64
  NoRoute :: float64
  Timeouts :: float64
  Error :: float64

record local_ni_health =
  HNID :: string
  Status :: string
  HealthStats :: "health_stats option"

type_synonym 'ni net_show = "'ni list list"

type_synonym 'a unmarshal = "string \<Rightarrow> 'a \<Rightarrow> go_error option \<times> 'a"

definition unmarshalJSONOrYAML ::
  "'a unmarshal \<Rightarrow> 'a unmarshal \<Rightarrow> string \<Rightarrow> 'a \<Rightarrow> string \<Rightarrow> 'a result" where
  "unmarshalJSONOrYAML yaml json data dest label =
     (case yaml data dest of
        (None, v) \<Rightarrow> Inr v
      | (Some err, v) \<Rightarrow>
          (case json data v of
             (None, w) \<Rightarrow> Inr w
           | (Some jsonErr, w) \<Rightarrow>
               Inl (Errorf ''%s: failed to parse as YAML (%w) or JSON (%w)'' [ArgS label] [err, jsonErr])))"

text \<open>The decoders of the structs for \<open>encoding/json\<close>; \<open>healthStats\<close> has no tags for it.\<close>

definition zero_local_ni :: local_ni where
  "zero_local_ni = \<lparr>NID = [], NISendCount = f_zero, NIRecvCount = f_zero, NIDropCount = f_zero\<rparr>"

definition zero_health_stats :: health_stats where
  "zero_health_stats =
     \<lparr>HealthValue = f_zero, Interrupts = f_zero, Dropped = f_zero, Aborted = f_zero, NoRoute = f_zero,
      Timeouts = f_zero, Error = f_zero\<rparr>"

definition zero_local_ni_health :: local_ni_health where
  "zero_local_ni_health = \<lparr>HNID = [], Status = [], HealthStats = None\<rparr>"

definition decode_lnetctl_stats :: "lnetctl_stats decoder" where
  "decode_lnetctl_stats = decode_struct
     [(''statistics'', decode_struct
        [(''msgs_alloc'', struct_field decode_float MsgsAlloc MsgsAlloc_update),
         (''msgs_max'', struct_field decode_float MsgsMax MsgsMax_update),
         (''errors'', struct_field decode_float Errors Errors_update),
         (''send_count'', struct_field decode_float SendCount SendCount_update),
         (''recv_count'', struct_field decode_float RecvCount RecvCount_update),
         (''route_count'', struct_field decode_float RouteCount RouteCount_update),
         (''drop_count'', struct_field decode_float DropCount DropCount_update),
         (''send_length'', struct_field decode_float SendLength SendLength_update),
         (''recv_length'', struct_field decode_float RecvLength RecvLength_update),
         (''route_length'', struct_field decode_float RouteLength RouteLength_update),
         (''drop_length'', struct_field decode_float DropLength DropLength_update)])]"

definition decode_local_ni :: "local_ni decoder" where
  "decode_local_ni = decode_struct
     [(''nid'', struct_field decode_string NID NID_update),
      (''statistics'', decode_struct
        [(''send_count'', struct_field decode_float NISendCount NISendCount_update),
         (''recv_count'', struct_field decode_float NIRecvCount NIRecvCount_update),
         (''drop_count'', struct_field decode_float NIDropCount NIDropCount_update)])]"

definition decode_health_stats :: "health_stats decoder" where
  "decode_health_stats = decode_struct
     [(''HealthValue'', struct_field decode_float HealthValue HealthValue_update),
      (''Interrupts'', struct_field decode_float Interrupts Interrupts_update),
      (''Dropped'', struct_field decode_float Dropped Dropped_update),
      (''Aborted'', struct_field decode_float Aborted Aborted_update),
      (''NoRoute'', struct_field decode_float NoRoute NoRoute_update),
      (''Timeouts'', struct_field decode_float Timeouts Timeouts_update),
      (''Error'', struct_field decode_float Error Error_update)]"

definition decode_local_ni_health :: "local_ni_health decoder" where
  "decode_local_ni_health = decode_struct
     [(''nid'', struct_field decode_string HNID HNID_update),
      (''status'', struct_field decode_string Status Status_update),
      (''health stats'',
         struct_field (decode_pointer zero_health_stats decode_health_stats) HealthStats HealthStats_update)]"

text \<open>Both shapes of \<open>lnetctl net show\<close>: nets with their local interfaces.\<close>

definition decode_net_show :: "'ni \<Rightarrow> 'ni decoder \<Rightarrow> 'ni net_show decoder" where
  "decode_net_show zero d = decode_struct
     [(''net'', decode_slice [] (decode_struct [(''local NI(s)'', decode_slice zero d)]))]"

definition lnetctl_observations :: "string \<Rightarrow> lnetctl_stats \<Rightarrow> observation list" where
  "lnetctl_observations source s =
     [obs ''lnet'' source ''allocated'' Gauge lnetBaseLabels (MsgsAlloc s),
      obs ''lnet'' source ''maximum'' Gauge lnetBaseLabels (MsgsMax s),
      obs ''lnet'' source ''errors_total'' Counter lnetBaseLabels (Errors s),
      obs ''lnet'' source ''send_count_total'' Counter lnetBaseLabels (SendCount s),
      obs ''lnet'' source ''receive_count_total'' Counter lnetBaseLabels (RecvCount s),
      obs ''lnet'' source ''route_count_total'' Counter lnetBaseLabels (RouteCount s),
      obs ''lnet'' source ''drop_count_total'' Counter lnetBaseLabels (DropCount s),
      obs ''lnet'' source ''send_bytes_total'' Counter lnetBaseLabels (SendLength s),
      obs ''lnet'' source ''receive_bytes_total'' Counter lnetBaseLabels (RecvLength s),
      obs ''lnet'' source ''route_bytes_total'' Counter lnetBaseLabels (RouteLength s),
      obs ''lnet'' source ''drop_bytes_total'' Counter lnetBaseLabels (DropLength s)]"

definition ParseLNetCtlStats ::
  "lnetctl_stats unmarshal \<Rightarrow> string \<Rightarrow> string \<Rightarrow> observation list result" where
  "ParseLNetCtlStats yaml data source =
     bind_res (unmarshalJSONOrYAML yaml (json_unmarshal decode_lnetctl_stats) data lnetctl_stats_zero ''lnetctl stats'')
       (\<lambda>s. Inr (lnetctl_observations source s))"

definition nid_labels :: "string \<Rightarrow> (string \<rightharpoonup> string)" where
  "nid_labels nid = lnetBaseLabels(''nid'' \<mapsto> nid)"

definition ni_count_observations :: "string \<Rightarrow> local_ni \<Rightarrow> observation list" where
  "ni_count_observations source ni =
     (if NID ni = [] then []
      else
        [obs ''lnet'' source ''send_count_by_nid_total'' Counter (nid_labels (NID ni)) (NISendCount ni),
         obs ''lnet'' source ''receive_count_by_nid_total'' Counter (nid_labels (NID ni)) (NIRecvCount ni),
         obs ''lnet'' source ''drop_count_by_nid_total'' Counter (nid_labels (NID ni)) (NIDropCount ni)])"

definition ParseLNetCtlNetStats ::
  "local_ni net_show unmarshal \<Rightarrow> string \<Rightarrow> string \<Rightarrow> observation list result" where
  "ParseLNetCtlNetStats yaml data source =
     bind_res (unmarshalJSONOrYAML yaml (json_unmarshal (decode_net_show zero_local_ni decode_local_ni))
        data [] ''lnetctl net show'')
       (\<lambda>nets. Inr (concat (map (\<lambda>nis. concat (map (ni_count_observations source) nis)) nets)))"

definition lnetNIObservations :: "string \<Rightarrow> string \<Rightarrow> string \<Rightarrow> health_stats option \<Rightarrow> observation list" where
  "lnetNIObservations source nid status hs =
     (let labels = nid_labels nid;
          up = (if status = ''up'' \<or> status = ''UP'' then f_of_int 1 else f_of_int 0);
          observations = (if status \<noteq> [] then [obs ''lnet'' source ''lnet_ni_up'' Gauge labels up] else [])
      in (case hs of
            None \<Rightarrow> observations
          | Some h \<Rightarrow>
              observations @
              [obs ''lnet'' source ''lnet_ni_health'' Gauge labels (HealthValue h),
               obs ''lnet'' source ''lnet_ni_health_interrupts_total'' Counter labels (Interrupts h),
               obs ''lnet'' source ''lnet_ni_health_dropped_total'' Counter labels (Dropped h),
               obs ''lnet'' source ''lnet_ni_health_aborted_total'' Counter labels (Aborted h),
               obs ''lnet'' source ''lnet_ni_health_no_route_total'' Counter labels (NoRoute h),
               obs ''lnet'' source ''lnet_ni_health_timeouts_total'' Counter labels (Timeouts h),
               obs ''lnet'' source ''lnet_ni_health_errors_total'' Counter labels (Error h)]))"

definition ParseLNetCtlNetNI ::
  "local_ni_health net_show unmarshal \<Rightarrow> string \<Rightarrow> string \<Rightarrow> observation list result" where
  "ParseLNetCtlNetNI yaml data source =
     bind_res
       (unmarshalJSONOrYAML yaml (json_unmarshal (decode_net_show zero_local_ni_health decode_local_ni_health))
          data [] ''lnetctl net show NI'')
       (\<lambda>nets. Inr (concat (map (\<lambda>nis. concat (map (\<lambda>ni.
           if HNID ni = [] then []
           else lnetNIObservations source (HNID ni) (Status ni) (HealthStats ni)) nis)) nets)))"

section \<open>The contract of the LNet parsers\<close>

lemmas lnet_metric_defs =
  m_allocated_def m_maximum_def m_errors_total_def m_send_count_total_def m_receive_count_total_def
  m_route_count_total_def m_drop_count_total_def m_send_bytes_total_def m_receive_bytes_total_def
  m_route_bytes_total_def m_drop_bytes_total_def m_send_count_by_nid_total_def
  m_receive_count_by_nid_total_def m_drop_count_by_nid_total_def m_lnet_ni_up_def m_lnet_ni_health_def
  m_lnet_ni_health_interrupts_total_def m_lnet_ni_health_dropped_total_def
  m_lnet_ni_health_aborted_total_def m_lnet_ni_health_no_route_total_def
  m_lnet_ni_health_timeouts_total_def m_lnet_ni_health_errors_total_def

lemma lnet_base_dom: "dom lnetBaseLabels = {''component'', ''target''}"
  by (auto simp: lnetBaseLabels_def)

lemma nid_dom: "dom (nid_labels nid) = {''component'', ''target'', ''nid''}"
  by (auto simp: nid_labels_def lnet_base_dom)

lemma lnetStatsFields_registered:
  "list_all (\<lambda>(i, t). case Registry i of None \<Rightarrow> False
      | Some d \<Rightarrow> Type d = t \<and> LabelKeys d = [''component'', ''target'']) lnetStatsFields"
  by (simp add: lnetStatsFields_def lnet_metric_defs)

lemma lnet_stats_field_conforms:
  assumes "i < length lnetStatsFields" "lnet_stats_field source (i, f) = Inr os"
  shows "all_conform os"
proof -
  obtain k t where kt: "lnetStatsFields ! i = (k, t)" by (cases "lnetStatsFields ! i")
  with lnetStatsFields_registered assms(1)
  obtain d where "Registry k = Some d" "LabelKeys d = [''component'', ''target'']"
    by (fastforce simp: list_all_length split: option.splits)
  with assms(2) show ?thesis by (auto simp: lnet_stats_field_def kt res_iff lnet_base_dom)
qed

lemma ParseLNetStats_conforms: "ParseLNetStats d source = Inr os \<Longrightarrow> all_conform os"
  by (auto simp: ParseLNetStats_def Let_def in_set_enumerate_eq split: if_splits
      elim!: all_conform_collect intro: lnet_stats_field_conforms)

interpretation lnet_stats: observation_source "\<lambda>d. ParseLNetStats d source" for source
  by unfold_locales (rule ParseLNetStats_conforms)

lemma lnet_params_registered:
  "list_all (\<lambda>(k, i, t). case Registry i of None \<Rightarrow> False
      | Some d \<Rightarrow> Type d = t \<and> LabelKeys d = [''component'', ''target'']) lnet_params"
  by (simp add: lnet_params_def m_console_backoff_enabled_def m_console_max_delay_centiseconds_def
      m_console_min_delay_centiseconds_def m_console_ratelimit_enabled_def m_debug_megabytes_def
      m_panic_on_lbug_enabled_def m_watchdog_ratelimit_enabled_def m_catastrophe_enabled_def
      m_lnet_memory_used_bytes_def m_fail_error_total_def m_fail_maximum_def)

lemma lnetParamMap_registered:
  assumes "lnetParamMap k = Some (i, t)"
  shows "\<exists>d. Registry i = Some d \<and> Type d = t \<and> LabelKeys d = [''component'', ''target'']"
proof -
  from assms have "(k, i, t) \<in> set lnet_params" by (auto simp: lnetParamMap_def dest: map_of_SomeD)
  with lnet_params_registered show ?thesis by (fastforce simp: list_all_iff split: option.splits)
qed

lemma ParseLNetParam_conforms: "ParseLNetParam d source p = Inr os \<Longrightarrow> all_conform os"
  by (auto simp: ParseLNetParam_def res_iff lnet_base_dom dest!: lnetParamMap_registered
      split: option.splits)

interpretation lnet_param: observation_source "\<lambda>d. ParseLNetParam d source p" for source p
  by unfold_locales (rule ParseLNetParam_conforms)

lemma ParseLNetCtlStats_conforms: "ParseLNetCtlStats yaml d source = Inr os \<Longrightarrow> all_conform os"
  by (auto simp: ParseLNetCtlStats_def res_iff lnetctl_observations_def lnet_metric_defs lnet_base_dom)

interpretation lnetctl_stats: observation_source "\<lambda>d. ParseLNetCtlStats yaml d source"
  for yaml source
  by unfold_locales (rule ParseLNetCtlStats_conforms)

lemma ni_count_conforms: "all_conform (ni_count_observations source ni)"
  by (auto simp: ni_count_observations_def lnet_metric_defs nid_dom)

lemma ParseLNetCtlNetStats_conforms:
  "ParseLNetCtlNetStats yaml d source = Inr os \<Longrightarrow> all_conform os"
  by (auto simp: ParseLNetCtlNetStats_def res_iff all_conform_concat ni_count_conforms)

interpretation lnetctl_net: observation_source "\<lambda>d. ParseLNetCtlNetStats yaml d source"
  for yaml source
  by unfold_locales (rule ParseLNetCtlNetStats_conforms)

lemma lnetNIObservations_conforms: "all_conform (lnetNIObservations source nid status hs)"
  by (auto simp: lnetNIObservations_def Let_def lnet_metric_defs nid_dom split: option.split)

lemma ParseLNetCtlNetNI_conforms: "ParseLNetCtlNetNI yaml d source = Inr os \<Longrightarrow> all_conform os"
  by (auto simp: ParseLNetCtlNetNI_def res_iff all_conform_concat lnetNIObservations_conforms)

interpretation lnetctl_ni: observation_source "\<lambda>d. ParseLNetCtlNetNI yaml d source"
  for yaml source
  by unfold_locales (rule ParseLNetCtlNetNI_conforms)

section \<open>Properties\<close>

definition lnet_stats_text :: "nat list \<Rightarrow> string" where
  "lnet_stats_text ns = unlines [unwords (map decimal ns)]"

definition lnet_stats_obs :: "string \<Rightarrow> (string \<times> metric_type) \<times> nat \<Rightarrow> observation" where
  "lnet_stats_obs source x =
     (case x of ((i, t), n) \<Rightarrow>
        obs ''lnet'' source i t [''component'' \<mapsto> ''lnet'', ''target'' \<mapsto> ''lnet''] (f_of_int (int n)))"

lemma lnet_stats_words:
  assumes "ns \<noteq> []"
  shows "TrimSpace (lnet_stats_text ns) = unwords (map decimal ns) \<and>
     Fields (unwords (map decimal ns)) = map decimal ns \<and> unwords (map decimal ns) \<noteq> []"
proof -
  have t: "list_all token (map decimal ns)" by (simp add: list_all_iff token_decimal)
  have p: "printed (unwords (map decimal ns))" by (rule printed_unwords) (use assms t in simp_all)
  have "TrimSpace (lnet_stats_text ns) = unwords (map decimal ns)"
    unfolding lnet_stats_text_def using p by (subst TrimSpace_unlines) simp_all
  with Fields_unwords [OF t] p show ?thesis by (simp add: printed_def)
qed

lemma lnet_fields_meaning:
  assumes "length ns = length lnetStatsFields" "list_all (\<lambda>n. n < 2 ^ 53) ns"
  shows "collect_all (lnet_stats_field source) (enumerate 0 (map decimal ns)) =
     Inr (map (lnet_stats_obs source) (zip lnetStatsFields ns))"
proof -
  let ?g = "\<lambda>x. [lnet_stats_obs source (lnetStatsFields ! fst x, ns ! fst x)]"
  have "collect_all (lnet_stats_field source) (enumerate 0 (map decimal ns)) =
      Inr (concat (map ?g (enumerate 0 (map decimal ns))))"
  proof (rule collect_all_ok)
    fix x
    assume "x \<in> set (enumerate 0 (map decimal ns))"
    then have x: "fst x < length ns" "snd x = decimal (ns ! fst x)"
      by (auto simp: in_set_enumerate_eq)
    with assms(2) have "ParseFloat (snd x) = Inr (f_of_int (int (ns ! fst x)))"
      by (simp add: ParseFloat_small list_all_length)
    then show "lnet_stats_field source x = Inr (?g x)"
      by (simp add: lnet_stats_field_def lnet_stats_obs_def lnetBaseLabels_def split_beta)
  qed
  also have "concat (map ?g (enumerate 0 (map decimal ns))) =
      map (lnet_stats_obs source) (zip lnetStatsFields ns)"
    using assms(1)
    by (simp add: concat_map_singleton list_eq_iff_nth_eq nth_enumerate_eq)
  finally show ?thesis .
qed

text \<open>
  A stats file of LNet with eleven numbers below 2^53 gives the eleven metrics of LNet with those
  numbers, in their order; with any other number of fields it is an error, and no observation.
\<close>

lemma lnet_stats_meaning:
  assumes "ns \<noteq> []" "list_all (\<lambda>n. n < 2 ^ 53) ns"
  shows "ParseLNetStats (lnet_stats_text ns) source =
     (if length ns = 11 then Inr (map (lnet_stats_obs source) (zip lnetStatsFields ns))
      else Inl (Errorf ''lnet stats: expected %d fields, got %d'' [ArgN 11, ArgN (length ns)] []))"
proof -
  have len: "length lnetStatsFields = 11" by (simp add: lnetStatsFields_def)
  show ?thesis
    using lnet_stats_words [OF assms(1)] lnet_fields_meaning [OF _ assms(2)]
    by (simp add: ParseLNetStats_def Let_def len)
qed

lemma lnet_stats_meaning_witness:
  "ParseLNetStats (lnet_stats_text [3, 10, 0, 100, 200, 0, 5, 4096, 8192, 0, 77]) ''p'' =
     (if length [3, 10, 0, 100, 200, 0, 5, 4096, 8192, 0, 77 :: nat] = 11
      then Inr (map (lnet_stats_obs ''p'') (zip lnetStatsFields [3, 10, 0, 100, 200, 0, 5, 4096, 8192, 0, 77]))
      else Inl (Errorf ''lnet stats: expected %d fields, got %d''
             [ArgN 11, ArgN (length [3, 10, 0, 100, 200, 0, 5, 4096, 8192, 0, 77 :: nat])] []))"
  by (rule lnet_stats_meaning) simp_all

end
