(* ===== verification/Collector_LNet.thy ===== *)
theory Collector_LNet
  imports Parser_LNet Collector_Simple
begin

text \<open>
  \<^verbatim>\<open>collector/lnet.go\<close>: the LNet collector, its three sources and the fallback between them.  The
  YAML decoders of \<open>lnetctl\<close> output are a record of parameters, one for each destination type.  The
  calls of \<open>recordScrapeSource\<close> are the list of the sources recorded, in their order.
\<close>

record lnetctl_decoders =
  yaml_stats :: "lnetctl_stats unmarshal"
  yaml_net :: "local_ni net_show unmarshal"
  yaml_ni :: "local_ni_health net_show unmarshal"

record LNetCollector =
  nreader :: reader
  npathCfg :: PathConfig
  lnet_source :: LNetSource
  lnetctlBin :: string

definition NewLNetCollector :: "reader \<Rightarrow> PathConfig \<Rightarrow> LNetSource \<Rightarrow> string \<Rightarrow> LNetCollector" where
  [simp]: "NewLNetCollector r cfg source bin =
     \<lparr>nreader = r, npathCfg = cfg, lnet_source = source, lnetctlBin = bin\<rparr>"

definition LNet_Name :: "LNetCollector \<Rightarrow> string" where
  [simp]: "LNet_Name c = ''lnet''"

definition LNet_ScrapeSource :: "LNetCollector \<Rightarrow> string" where
  "LNet_ScrapeSource c = (if lnet_source c = LNetSourceLNetCtl then ''lctl'' else ''sys'')"

definition collectFromDebugFS :: "LNetCollector \<Rightarrow> observation list result" where
  "collectFromDebugFS c =
     bind_res (ReadFirstAvailable (nreader c) (LNetStatsPaths (npathCfg c)))
       (\<lambda>(data, path). ParseLNetStats data path)"

definition dropped_ids :: "string list" where
  "dropped_ids = [''send_count_total'', ''receive_count_total'', ''drop_count_total'']"

definition dropGlobalLNetCountStats :: "observation list \<Rightarrow> observation list" where
  "dropGlobalLNetCountStats os = filter (\<lambda>ob. MetricID ob \<notin> set dropped_ids) os"

text \<open>\<open>lnetctl net show\<close>, first with details, then without.\<close>

definition net_show_data :: "LNetCollector \<Rightarrow> string result" where
  "net_show_data c =
     (case RunCommand (nreader c) (lnetctlBin c) [''net'', ''show'', ''-v'', ''3''] of
        Inr netData \<Rightarrow> Inr netData
      | Inl err \<Rightarrow> RunCommand (nreader c) (lnetctlBin c) [''net'', ''show''])"

definition parse_net_ni :: "lnetctl_decoders \<Rightarrow> string \<Rightarrow> observation list result" where
  "parse_net_ni dec netData =
     ParseLNetCtlNetNI (yaml_ni dec) netData ''lnetctl net show''"

text \<open>The second half of \<open>collectFromLNetCtl\<close>: the per-NID counts replace the global ones.\<close>

definition add_net_show :: "lnetctl_decoders \<Rightarrow> observation list \<Rightarrow> string \<Rightarrow> observation list" where
  "add_net_show dec os netData =
     (case ParseLNetCtlNetStats (yaml_net dec) netData ''lnetctl net show'' of
        Inl err \<Rightarrow> os
      | Inr countObs \<Rightarrow>
          let niObs = or_empty (parse_net_ni dec netData);
              os' = (if length countObs > 0 then dropGlobalLNetCountStats os @ countObs else os)
          in os' @ niObs)"

definition collectFromLNetCtl :: "lnetctl_decoders \<Rightarrow> LNetCollector \<Rightarrow> observation list result" where
  "collectFromLNetCtl dec c =
     bind_res (RunCommand (nreader c) (lnetctlBin c) [''stats'', ''show'']) (\<lambda>data.
     bind_res (ParseLNetCtlStats (yaml_stats dec) data ''lnetctl stats show'') (\<lambda>os.
       (case net_show_data c of
          Inl err \<Rightarrow> Inr os
        | Inr netData \<Rightarrow> Inr (add_net_show dec os netData))))"

definition collectSupplementalNetNI :: "lnetctl_decoders \<Rightarrow> LNetCollector \<Rightarrow> observation list" where
  "collectSupplementalNetNI dec c =
     (case net_show_data c of
        Inl err \<Rightarrow> []
      | Inr netData \<Rightarrow> or_empty (parse_net_ni dec netData))"

definition collectParam :: "LNetCollector \<Rightarrow> string \<Rightarrow> observation list" where
  "collectParam c paramName =
     (case ReadFirstAvailable (nreader c) (LNetParamPaths (npathCfg c) paramName) of
        Inl err \<Rightarrow> []
      | Inr (data, path) \<Rightarrow> or_empty (ParseLNetParam data path paramName))"

definition collectParams :: "LNetCollector \<Rightarrow> observation list" where
  "collectParams c = concat (map (collectParam c) LNetParamNames)"

text \<open>The \<open>switch\<close> of \<open>Collect\<close>: the sources recorded and the observations.\<close>

definition lnet_stats_observations ::
  "lnetctl_decoders \<Rightarrow> LNetCollector \<Rightarrow> string list \<times> observation list result" where
  "lnet_stats_observations dec c =
     (case lnet_source c of
        LNetSourceLNetCtl \<Rightarrow> ([''lctl''], collectFromLNetCtl dec c)
      | LNetSourceDebugFS \<Rightarrow> ([''sys''], collectFromDebugFS c)
      | LNetSourceAuto \<Rightarrow>
          (case collectFromDebugFS c of
             Inl err \<Rightarrow> ([''sys'', ''lctl''], collectFromLNetCtl dec c)
           | Inr os \<Rightarrow> ([''sys''], Inr (os @ collectSupplementalNetNI dec c))))"

definition lnet_observations :: "lnetctl_decoders \<Rightarrow> LNetCollector \<Rightarrow> observation list result" where
  "lnet_observations dec c =
     bind_res (snd (lnet_stats_observations dec c)) (\<lambda>os. Inr (os @ collectParams c))"

definition LNet_Collect ::
  "('d, 'm) prometheus \<Rightarrow> lnetctl_decoders \<Rightarrow> LNetCollector \<Rightarrow> 'd cache \<Rightarrow> 'm list result \<times> 'd cache" where
  "LNet_Collect prom dec c cache = collect_metrics prom cache (lnet_observations dec c)"

section \<open>The contract\<close>

lemma or_empty_conform: "(\<And>os. r = Inr os \<Longrightarrow> all_conform os) \<Longrightarrow> all_conform (or_empty r)"
  by (cases r) simp_all

lemma parse_net_ni_conform: "all_conform (or_empty (parse_net_ni dec d))"
  by (rule or_empty_conform) (simp add: parse_net_ni_def lnetctl_ni.conforming)

lemma collectFromDebugFS_conform: "collectFromDebugFS c = Inr os \<Longrightarrow> all_conform os"
  by (auto simp: collectFromDebugFS_def res_iff intro: lnet_stats.conforming)

lemma add_net_show_conform: "all_conform os \<Longrightarrow> all_conform (add_net_show dec os d)"
  by (auto simp: add_net_show_def Let_def dropGlobalLNetCountStats_def parse_net_ni_conform
      all_conform_filter lnetctl_net.conforming split: sum.split)

lemma collectFromLNetCtl_conform: "collectFromLNetCtl dec c = Inr os \<Longrightarrow> all_conform os"
  by (cases "net_show_data c")
     (auto simp: collectFromLNetCtl_def res_iff intro: lnetctl_stats.conforming add_net_show_conform)

lemma collectParams_conform: "all_conform (collectParams c)"
  by (auto simp: collectParams_def collectParam_def all_conform_concat split: sum.split
      intro!: or_empty_conform intro: lnet_param.conforming)

lemma supplemental_conform: "all_conform (collectSupplementalNetNI dec c)"
  by (simp add: collectSupplementalNetNI_def parse_net_ni_conform split: sum.split)

lemma lnet_observations_conform: "lnet_observations dec c = Inr os \<Longrightarrow> all_conform os"
  by (auto simp: lnet_observations_def lnet_stats_observations_def res_iff collectParams_conform
      supplemental_conform collectFromDebugFS_conform collectFromLNetCtl_conform
      split: LNetSource.splits sum.splits)

interpretation lnet_collector: observation_source "lnet_observations dec" for dec
  by unfold_locales (rule lnet_observations_conform)

section \<open>Global and per-NID counters\<close>

definition is_global :: "observation \<Rightarrow> bool" where
  "is_global ob \<longleftrightarrow> MetricID ob \<in> set dropped_ids"

definition is_by_nid :: "observation \<Rightarrow> bool" where
  "is_by_nid ob \<longleftrightarrow> MetricID ob \<in> set (map fst nid_alias)"

text \<open>Free of per-NID counters, and free of both.\<close>

definition no_by_nid :: "observation list \<Rightarrow> bool" where
  "no_by_nid os \<longleftrightarrow> list_all (\<lambda>ob. \<not> is_by_nid ob) os"

definition no_global :: "observation list \<Rightarrow> bool" where
  "no_global os \<longleftrightarrow> list_all (\<lambda>ob. \<not> is_global ob) os"

lemmas count_defs = is_global_def is_by_nid_def no_by_nid_def no_global_def dropped_ids_def nid_alias_def

lemma counts_append [simp]:
  "no_by_nid (xs @ ys) \<longleftrightarrow> no_by_nid xs \<and> no_by_nid ys"
  "no_global (xs @ ys) \<longleftrightarrow> no_global xs \<and> no_global ys"
  "no_by_nid []" "no_global []"
  by (auto simp: no_by_nid_def no_global_def)

lemma counts_concat:
  "no_by_nid (concat xss) \<longleftrightarrow> list_all no_by_nid xss" "no_global (concat xss) \<longleftrightarrow> list_all no_global xss"
  by (induction xss) simp_all

lemma lnet_stats_field_counts:
  assumes "i < length lnetStatsFields" "lnet_stats_field source (i, f) = Inr os"
  shows "no_by_nid os"
proof -
  have "list_all (\<lambda>x. fst x \<notin> set (map fst nid_alias)) lnetStatsFields"
    by (simp add: lnetStatsFields_def nid_alias_def)
  then have "fst (lnetStatsFields ! i) \<notin> set (map fst nid_alias)"
    using assms(1) unfolding list_all_length by blast
  with assms(2) show ?thesis
    by (auto simp: lnet_stats_field_def res_iff no_by_nid_def is_by_nid_def simp del: set_map)
qed

lemma ParseLNetStats_counts: "ParseLNetStats d source = Inr os \<Longrightarrow> no_by_nid os"
proof -
  assume "ParseLNetStats d source = Inr os"
  then consider "os = []" | fs where "length fs = length lnetStatsFields"
      "collect_all (lnet_stats_field source) (enumerate 0 fs) = Inr os"
    by (auto simp: ParseLNetStats_def Let_def split: if_splits)
  then show ?thesis
  proof cases
    case 2
    have "\<not> is_by_nid ob" if ob: "ob \<in> set os" for ob
    proof (rule collect_all_invariant [OF 2(2) _ ob])
      fix x ys y
      assume x: "x \<in> set (enumerate 0 fs)" "lnet_stats_field source x = Inr ys" "y \<in> set ys"
      obtain i f where "x = (i, f)" by (cases x)
      with x 2(1) lnet_stats_field_counts [of i source f ys] show "\<not> is_by_nid y"
        by (auto simp: in_set_enumerate_eq no_by_nid_def list_all_iff)
    qed
    then show ?thesis by (simp add: no_by_nid_def list_all_iff)
  qed simp
qed

lemma lnetctl_counts: "no_by_nid (lnetctl_observations source s)"
  by (simp add: lnetctl_observations_def count_defs)

lemma ni_counts: "no_global (ni_count_observations source ni)"
  by (simp add: ni_count_observations_def count_defs)

lemma lnetNI_counts: "no_by_nid (lnetNIObservations source nid status hs) \<and>
    no_global (lnetNIObservations source nid status hs)"
  by (simp add: lnetNIObservations_def Let_def count_defs split: option.split)

lemma parse_net_ni_counts:
  "no_by_nid (or_empty (parse_net_ni dec d)) \<and> no_global (or_empty (parse_net_ni dec d))"
proof (cases "parse_net_ni dec d")
  case (Inr os)
  then obtain nets :: "local_ni_health net_show" where os: "os = concat (map (\<lambda>nis. concat (map (\<lambda>ni.
        if HNID ni = [] then []
        else lnetNIObservations ''lnetctl net show'' (HNID ni) (Status ni) (HealthStats ni)) nis)) nets)"
    unfolding parse_net_ni_def ParseLNetCtlNetNI_def bind_res_Inr_iff sum.inject by blast
  show ?thesis unfolding Inr or_empty_simps os
    by (auto simp: counts_concat list_all_iff lnetNI_counts)
qed simp

lemma param_counts: "no_by_nid (collectParams c) \<and> no_global (collectParams c)"
proof -
  have ids: "list_all (\<lambda>x. fst (snd x) \<notin> set (map fst nid_alias) \<and> fst (snd x) \<notin> set dropped_ids) lnet_params"
    by (simp add: lnet_params_def nid_alias_def dropped_ids_def)
  have "no_by_nid os \<and> no_global os" if "ParseLNetParam d p nm = Inr os" for d p nm os
  proof (cases "lnetParamMap nm")
    case (Some it)
    then have "(nm, it) \<in> set lnet_params" by (simp add: lnetParamMap_def map_of_SomeD)
    with ids have "fst it \<notin> set (map fst nid_alias)" "fst it \<notin> set dropped_ids"
      by (simp_all only: list_all_iff Ball_def) (metis fst_conv snd_conv)+
    with that Some show ?thesis
      by (cases it) (auto simp: ParseLNetParam_def res_iff no_by_nid_def no_global_def is_by_nid_def
          is_global_def simp del: set_map)
  qed (use that in \<open>simp add: ParseLNetParam_def\<close>)
  then have "no_by_nid (or_empty (ParseLNetParam d p nm)) \<and> no_global (or_empty (ParseLNetParam d p nm))"
    for d p nm by (cases "ParseLNetParam d p nm") simp_all
  then have "no_by_nid (collectParam c nm) \<and> no_global (collectParam c nm)" for nm
    by (simp add: collectParam_def split: sum.split)
  then show ?thesis by (simp add: collectParams_def counts_concat list_all_iff)
qed

lemma drop_counts:
  "no_global (dropGlobalLNetCountStats os)" "no_by_nid os \<Longrightarrow> no_by_nid (dropGlobalLNetCountStats os)"
  by (auto simp: dropGlobalLNetCountStats_def no_global_def no_by_nid_def is_global_def list_all_iff)

lemma add_net_show_counts:
  assumes "no_by_nid os"
  shows "no_by_nid (add_net_show dec os d) \<or> no_global (add_net_show dec os d)"
proof (cases "ParseLNetCtlNetStats (yaml_net dec) d ''lnetctl net show''")
  case (Inr countObs)
  then have "no_global countObs"
    by (auto simp: ParseLNetCtlNetStats_def bind_res_Inr_iff counts_concat list_all_iff ni_counts)
  with Inr assms show ?thesis
    by (simp add: add_net_show_def Let_def parse_net_ni_counts drop_counts)
qed (simp add: add_net_show_def assms)

lemma lnet_stats_counts:
  assumes "snd (lnet_stats_observations dec c) = Inr os"
  shows "no_by_nid os \<or> no_global os"
proof -
  have debugfs: "no_by_nid os" if "collectFromDebugFS c = Inr os" for os
    using that by (auto simp: collectFromDebugFS_def bind_res_Inr_iff ParseLNetStats_counts)
  have lnetctl: "no_by_nid os \<or> no_global os" if "collectFromLNetCtl dec c = Inr os" for os
    using that add_net_show_counts [OF lnetctl_counts]
    by (cases "net_show_data c")
       (auto simp: collectFromLNetCtl_def bind_res_Inr_iff ParseLNetCtlStats_def lnetctl_counts)
  have ni: "no_by_nid (collectSupplementalNetNI dec c)"
    by (simp add: collectSupplementalNetNI_def parse_net_ni_counts split: sum.split)
  show ?thesis
    using assms debugfs lnetctl ni
    by (auto simp: lnet_stats_observations_def split: LNetSource.splits sum.splits)
qed

section \<open>Properties\<close>

text \<open>
  C15: A scrape of LNet never exposes a global message count together with a per-NID one of the same
  public name: whatever the source, the observations hold no per-NID counter or no global one.
\<close>

theorem lnet_counts_exclusive:
  assumes "lnet_observations dec c = Inr os"
  shows "(if list_ex is_by_nid os then list_all (\<lambda>ob. \<not> is_global ob) os else True)"
proof -
  from assms obtain os' where "snd (lnet_stats_observations dec c) = Inr os'" "os = os' @ collectParams c"
    by (auto simp: lnet_observations_def res_iff)
  with lnet_stats_counts param_counts have "no_by_nid os \<or> no_global os" by fastforce
  then show ?thesis by (auto simp: no_by_nid_def no_global_def list_ex_iff list_all_iff)
qed

text \<open>A machine without LNet files, with \<open>lnetctl\<close> and one interface.\<close>

definition demo_lnetctl :: reader where
  "demo_lnetctl =
     \<lparr>ReadFile = \<lambda>p. Inl NotExist, Glob = \<lambda>p. Inr [],
      RunCommand = \<lambda>b args. Inr (if args = [''stats'', ''show''] then ''stats'' else ''net'')\<rparr>"

definition demo_ni :: local_ni where
  "demo_ni = \<lparr>NID = ''10.0.0.1@tcp'', NISendCount = f_of_int 7, NIRecvCount = f_of_int 8, NIDropCount = f_zero\<rparr>"

definition demo_decoders :: lnetctl_decoders where
  "demo_decoders =
     \<lparr>yaml_stats = \<lambda>d v. (None, v),
      yaml_net = \<lambda>d v. (None, [[demo_ni]]),
      yaml_ni = \<lambda>d v. (None, [[\<lparr>HNID = ''10.0.0.1@tcp'', Status = ''up'', HealthStats = None\<rparr>]])\<rparr>"

definition demo_lnet :: "LNetSource \<Rightarrow> LNetCollector" where
  "demo_lnet src =
     \<lparr>nreader = demo_lnetctl, npathCfg = DefaultPathConfig, lnet_source = src, lnetctlBin = ''lnetctl''\<rparr>"

lemma demo_first: "ReadFirstAvailable demo_lnetctl ps = Inl (if ps = [] then no_paths else NotExist)"
  by (cases ps rule: rev_cases)
     (simp_all add: ReadFirstAvailable_def read_loop_Inl demo_lnetctl_def)

lemma demo_debugfs: "collectFromDebugFS (demo_lnet src) = Inl NotExist"
  by (simp add: collectFromDebugFS_def demo_lnet_def demo_first LNetStatsPaths_def)

lemma demo_params: "collectParams (demo_lnet src) = []"
  by (simp add: collectParams_def collectParam_def demo_lnet_def demo_first)

lemma demo_commands:
  "RunCommand demo_lnetctl b args = Inr (if args = [''stats'', ''show''] then ''stats'' else ''net'')"
  by (simp add: demo_lnetctl_def)

lemma demo_lnetctl_run:
  "collectFromLNetCtl demo_decoders (demo_lnet src) =
     Inr (dropGlobalLNetCountStats (lnetctl_observations ''lnetctl stats show'' lnetctl_stats_zero) @
          ni_count_observations ''lnetctl net show'' demo_ni @
          lnetNIObservations ''lnetctl net show'' ''10.0.0.1@tcp'' ''up'' None)"
  by (simp add: collectFromLNetCtl_def demo_lnet_def demo_commands net_show_data_def add_net_show_def
      ParseLNetCtlStats_def ParseLNetCtlNetStats_def parse_net_ni_def ParseLNetCtlNetNI_def
      unmarshalJSONOrYAML_def demo_decoders_def Let_def demo_ni_def ni_count_observations_def)

lemma demo_lnet_observations:
  "lnet_observations demo_decoders (demo_lnet LNetSourceAuto) =
     Inr (dropGlobalLNetCountStats (lnetctl_observations ''lnetctl stats show'' lnetctl_stats_zero) @
          ni_count_observations ''lnetctl net show'' demo_ni @
          lnetNIObservations ''lnetctl net show'' ''10.0.0.1@tcp'' ''up'' None)"
proof -
  have "lnet_source (demo_lnet LNetSourceAuto) = LNetSourceAuto" by (simp add: demo_lnet_def)
  then show ?thesis
    by (simp add: lnet_observations_def lnet_stats_observations_def demo_debugfs demo_params demo_lnetctl_run)
qed

lemma lnet_counts_exclusive_witness:
  "let os = dropGlobalLNetCountStats (lnetctl_observations ''lnetctl stats show'' lnetctl_stats_zero) @
          ni_count_observations ''lnetctl net show'' demo_ni @
          lnetNIObservations ''lnetctl net show'' ''10.0.0.1@tcp'' ''up'' None in
   (if list_ex is_by_nid os then list_all (\<lambda>ob. \<not> is_global ob) os else True)"
  unfolding Let_def by (rule lnet_counts_exclusive [OF demo_lnet_observations])



text \<open>
  With \<open>debugfs\<close> as its source the collector runs no command: its observations are the same whatever
  commands would return.
\<close>

theorem lnet_debugfs_no_command:
  assumes "lnet_source c = LNetSourceDebugFS"
  shows "lnet_observations dec (c\<lparr>nreader := (nreader c)\<lparr>RunCommand := f\<rparr>\<rparr>) = lnet_observations dec c"
proof -
  have loop: "read_loop ((nreader c)\<lparr>RunCommand := f\<rparr>) e ps = read_loop (nreader c) e ps" for e ps
    by (induction ps arbitrary: e) (simp_all split: sum.split)
  let ?c = "c\<lparr>nreader := (nreader c)\<lparr>RunCommand := f\<rparr>\<rparr>"
  have first: "ReadFirstAvailable (nreader ?c) ps = ReadFirstAvailable (nreader c) ps" for ps
    by (simp add: ReadFirstAvailable_def loop)
  have cfg: "npathCfg ?c = npathCfg c" by simp
  have "collectParam ?c = collectParam c"
    by (rule ext) (simp only: collectParam_def first cfg)
  then have "collectParams ?c = collectParams c" by (simp only: collectParams_def)
  moreover have "collectFromDebugFS ?c = collectFromDebugFS c"
    by (simp only: collectFromDebugFS_def first cfg)
  ultimately show ?thesis
    using assms by (simp add: lnet_observations_def lnet_stats_observations_def)
qed

lemma lnet_debugfs_no_command_witness:
  "lnet_observations demo_decoders ((demo_lnet LNetSourceDebugFS)
       \<lparr>nreader := (nreader (demo_lnet LNetSourceDebugFS))\<lparr>RunCommand := \<lambda>b args. Inl Canceled\<rparr>\<rparr>) =
     lnet_observations demo_decoders (demo_lnet LNetSourceDebugFS)"
  by (rule lnet_debugfs_no_command) (simp add: demo_lnet_def)

end
