(* ===== verification/Scrape.thy ===== *)
theory Scrape
  imports Float64 Prelude "HOL-Library.AList" "HOL-Library.List_Lexorder" "HOL-Library.Char_ord"
    "HOL-Library.Word" "HOL-Library.Multiset"
begin

text \<open>
  \<^verbatim>\<open>collector/collector.go\<close>: one scrape of the registry.  Every collector runs in a goroutine of its
  own; the goroutines send to one channel and add to one map of durations under a lock.  A scrape is
  a run of a step relation in which any goroutine may move at any time; the receiver of the channel
  always takes the next message.  What \<open>Collect\<close> of a collector returns, how long it took and which
  sources it recorded are given for each goroutine.
\<close>

section \<open>Keys of the scrape durations\<close>

datatype scrapeDurationKey = Key (key_source: string) (key_result: string)

text \<open>The order of \<open>sort.Slice\<close>: by source, then by result.\<close>

definition key_before :: "scrapeDurationKey \<Rightarrow> scrapeDurationKey \<Rightarrow> bool" where
  "key_before a b =
     (if key_source a = key_source b then key_result a < key_result b
      else key_source a < key_source b)"

instantiation scrapeDurationKey :: linorder
begin

definition less_scrapeDurationKey :: "scrapeDurationKey \<Rightarrow> scrapeDurationKey \<Rightarrow> bool" where
  "less_scrapeDurationKey a b = key_before a b"

definition less_eq_scrapeDurationKey :: "scrapeDurationKey \<Rightarrow> scrapeDurationKey \<Rightarrow> bool" where
  "less_eq_scrapeDurationKey a b \<longleftrightarrow> a = b \<or> a < b"

instance
  by intro_classes
     (auto simp: less_scrapeDurationKey_def less_eq_scrapeDurationKey_def key_before_def
        scrapeDurationKey.expand split: if_splits intro: scrapeDurationKey.expand)

end

section \<open>What a goroutine does\<close>

text \<open>The metrics sent on the channel: those of a collector and those of the registry itself.\<close>

datatype 'm metric =
    Collected 'm
  | InvalidMetric go_error
  | SuccessMetric string float64
  | DurationMetric string float64
  | SummaryMetric "64 word" float64 string string

text \<open>
  The descriptors of the registry's own metrics, and the descriptor and label values that each of them is
  made of: \<open>MustNewConstMetric\<close> and \<open>MustNewConstSummary\<close> panic when the client library does not accept these.
\<close>

record own_desc =
  fqName :: string
  own_help :: string
  variableLabels :: "string list"

definition scrapeSuccessDesc :: own_desc where
  "scrapeSuccessDesc =
     \<lparr>fqName = ''lustre_scrape_collector_success'',
      own_help = ''Whether the collector succeeded (1) or failed (0).'',
      variableLabels = [''collector'']\<rparr>"

definition scrapeDurationDesc :: own_desc where
  "scrapeDurationDesc =
     \<lparr>fqName = ''lustre_scrape_collector_duration_seconds'',
      own_help = ''Duration of the collector scrape in seconds.'',
      variableLabels = [''collector'']\<rparr>"

definition exporterScrapeDurationDesc :: own_desc where
  "exporterScrapeDurationDesc =
     \<lparr>fqName = ''lustre_exporter_scrape_duration_seconds'',
      own_help = ''lustre_exporter: Duration of a scrape job.'',
      variableLabels = [''source'', ''result'']\<rparr>"

text \<open>What \<open>Describe\<close> sends.\<close>

definition Describe :: "own_desc list" where
  "Describe = [scrapeSuccessDesc, scrapeDurationDesc, exporterScrapeDurationDesc]"

fun own_call :: "'m metric \<Rightarrow> (own_desc \<times> string list) option" where
  "own_call (SuccessMetric c v) = Some (scrapeSuccessDesc, [c])"
| "own_call (DurationMetric c v) = Some (scrapeDurationDesc, [c])"
| "own_call (SummaryMetric n v s r) = Some (exporterScrapeDurationDesc, [s, r])"
| "own_call (Collected m) = None"
| "own_call (InvalidMetric e) = None"

text \<open>A collector that was run: its name, its \<open>ScrapeSource\<close> if it has one, what \<open>Collect\<close>
  recorded, returned and took.\<close>

record 'm collector_run =
  cname :: string
  scrape_source :: "string option"
  recorded :: "string list"
  outcome :: "'m list result"
  duration :: float64

definition scrapeSourceName :: "'m collector_run \<Rightarrow> string" where
  "scrapeSourceName c = (case scrape_source c of Some s \<Rightarrow> s | None \<Rightarrow> cname c)"

text \<open>The recorder keeps the last source that is not empty.\<close>

definition record_source :: "string \<Rightarrow> string \<Rightarrow> string" where
  "record_source s src = (if src \<noteq> [] then src else s)"

text \<open>A context may have no recorder; the ones that a scrape derives have.\<close>

definition recordScrapeSource :: "(string \<Rightarrow> string \<Rightarrow> string) option \<Rightarrow> string \<Rightarrow> string \<Rightarrow> string" where
  "recordScrapeSource recorder s src = (case recorder of Some f \<Rightarrow> f s src | None \<Rightarrow> s)"

definition final_source :: "'m collector_run \<Rightarrow> string" where
  "final_source c = foldl (recordScrapeSource (Some record_source)) (scrapeSourceName c) (recorded c)"

lemma recordScrapeSource_Some [simp]: "recordScrapeSource (Some f) = f"
  by (intro ext) (simp add: recordScrapeSource_def)

definition goroutine_sends :: "bool \<Rightarrow> 'm collector_run \<Rightarrow> 'm metric list" where
  "goroutine_sends strict c =
     (case outcome c of
        Inl err \<Rightarrow>
          (if strict then [InvalidMetric (Errorf ''%s collector failed: %w'' [ArgS (cname c)] [err])] else []) @
          [SuccessMetric (cname c) (f_of_int 0)]
      | Inr metrics \<Rightarrow> map Collected metrics @ [SuccessMetric (cname c) (f_of_int 1)]) @
     [DurationMetric (cname c) (duration c)]"

definition duration_key :: "'m collector_run \<Rightarrow> scrapeDurationKey" where
  "duration_key c =
     Key (final_source c) (case outcome c of Inl err \<Rightarrow> ''error'' | Inr ms \<Rightarrow> ''success'')"

type_synonym scrape_durations = "(scrapeDurationKey \<times> float64) list"

text \<open>\<open>scrapeDurations[key] += duration\<close>.\<close>

definition add_duration :: "scrapeDurationKey \<Rightarrow> float64 \<Rightarrow> scrape_durations \<Rightarrow> scrape_durations" where
  "add_duration k d ds =
     AList.update k (f_add (case map_of ds k of None \<Rightarrow> f_zero | Some v \<Rightarrow> v) d) ds"

section \<open>Interleaving\<close>

record 'm goroutine =
  to_send :: "'m metric list"
  finished :: bool

text \<open>
  \<open>channel\<close> holds what was sent, each with the goroutine that sent it; the number is not part of the
  message.
\<close>

record 'm scrape_state =
  goroutines :: "'m goroutine list"
  channel :: "(nat \<times> 'm metric) list"
  durations :: scrape_durations

definition start :: "bool \<Rightarrow> 'm collector_run list \<Rightarrow> 'm scrape_state" where
  "start strict cs =
     \<lparr>goroutines = map (\<lambda>c. \<lparr>to_send = goroutine_sends strict c, finished = False\<rparr>) cs,
      channel = [], durations = []\<rparr>"

text \<open>The next action of goroutine \<open>i\<close>: a send, or adding its duration.\<close>

definition act :: "'m collector_run list \<Rightarrow> nat \<Rightarrow> 'm scrape_state \<Rightarrow> 'm scrape_state option" where
  "act cs i s =
     (if i < length (goroutines s) then
        let g = goroutines s ! i in
        (case to_send g of
           m # ms \<Rightarrow>
             Some (s\<lparr>goroutines := (goroutines s)[i := g\<lparr>to_send := ms\<rparr>],
                     channel := channel s @ [(i, m)]\<rparr>)
         | [] \<Rightarrow>
             if finished g then None
             else Some (s\<lparr>goroutines := (goroutines s)[i := g\<lparr>finished := True\<rparr>],
                          durations := add_duration (duration_key (cs ! i)) (duration (cs ! i))
                                         (durations s)\<rparr>))
      else None)"

inductive reachable :: "bool \<Rightarrow> 'm collector_run list \<Rightarrow> 'm scrape_state \<Rightarrow> bool"
  for strict cs where
    reach_start: "reachable strict cs (start strict cs)"
  | reach_act: "reachable strict cs s \<Longrightarrow> act cs i s = Some s' \<Longrightarrow> reachable strict cs s'"

inductive_cases reachableE: "reachable strict cs s"

text \<open>\<open>wg.Wait()\<close> returns.\<close>

definition all_done :: "'m scrape_state \<Rightarrow> bool" where
  "all_done s \<longleftrightarrow> list_all finished (goroutines s)"

section \<open>Summaries\<close>

record scrape_total =
  count :: "64 word"
  total_sum :: float64

type_synonym totals = "scrapeDurationKey \<rightharpoonup> scrape_total"

definition zero_total :: scrape_total where
  "zero_total = \<lparr>count = 0, total_sum = f_zero\<rparr>"

text \<open>
  A summary is the key and the total that \<open>MustNewConstSummary\<close> is called with.  The first list holds
  \<open>scrapeDurations\<close>, the second the keys left to observe.
\<close>

type_synonym summaries = "(scrapeDurationKey \<times> scrape_total) list"

fun observe_keys :: "scrape_durations \<Rightarrow> scrapeDurationKey list \<Rightarrow> totals \<Rightarrow> summaries \<times> totals" where
  "observe_keys ds [] r = ([], r)"
| "observe_keys ds (k # ks) r =
     (let t = (case r k of None \<Rightarrow> zero_total | Some t \<Rightarrow> t);
          d = (case map_of ds k of None \<Rightarrow> f_zero | Some d \<Rightarrow> d);
          t' = \<lparr>count = count t + 1, total_sum = f_add (total_sum t) d\<rparr>;
          (ms, r') = observe_keys ds ks (r(k \<mapsto> t'))
      in ((k, t') # ms, r'))"

text \<open>The keys of a map come in no fixed order; they are sorted before they are used.\<close>

definition observeScrapeDurations :: "scrape_durations \<Rightarrow> totals \<Rightarrow> summaries \<times> totals" where
  "observeScrapeDurations ds r = observe_keys ds (sort (map fst ds)) r"

definition summary_metric :: "scrapeDurationKey \<times> scrape_total \<Rightarrow> 'm metric" where
  "summary_metric kt =
     (case kt of (k, t) \<Rightarrow> SummaryMetric (count t) (total_sum t) (key_source k) (key_result k))"

text \<open>Everything a scrape sends once its goroutines are done, and the totals it leaves.\<close>

definition Registry_Collect :: "'m scrape_state \<Rightarrow> totals \<Rightarrow> 'm metric list \<times> totals" where
  "Registry_Collect s r =
     (let (ms, r') = observeScrapeDurations (durations s) r
      in (map snd (channel s) @ map summary_metric ms, r'))"

section \<open>The invariant of a scrape\<close>

definition sent_by :: "nat \<Rightarrow> 'm scrape_state \<Rightarrow> 'm metric list" where
  "sent_by i s = map snd (filter (\<lambda>x. fst x = i) (channel s))"

definition add_run :: "'m collector_run list \<Rightarrow> scrape_durations \<Rightarrow> nat \<Rightarrow> scrape_durations" where
  "add_run cs ds i = add_duration (duration_key (cs ! i)) (duration (cs ! i)) ds"

text \<open>
  Goroutine \<open>i\<close> has sent a prefix of its messages, in order, and has the rest to send; the durations
  are those of the goroutines that finished, added in the order in which they finished.
\<close>

definition scrape_inv :: "bool \<Rightarrow> 'm collector_run list \<Rightarrow> 'm scrape_state \<Rightarrow> bool" where
  "scrape_inv strict cs s \<longleftrightarrow>
     length (goroutines s) = length cs \<and>
     (\<forall>i < length cs.
        sent_by i s @ to_send (goroutines s ! i) = goroutine_sends strict (cs ! i) \<and>
        (finished (goroutines s ! i) \<longrightarrow> to_send (goroutines s ! i) = [])) \<and>
     (\<forall>x \<in> set (channel s). fst x < length cs) \<and>
     (\<exists>order. distinct order \<and>
        set order = {i. i < length cs \<and> finished (goroutines s ! i)} \<and>
        durations s = foldl (add_run cs) [] order)"

lemma scrape_invI:
  assumes "length (goroutines s) = length cs"
    and "\<And>i. i < length cs \<Longrightarrow>
           sent_by i s @ to_send (goroutines s ! i) = goroutine_sends strict (cs ! i) \<and>
           (finished (goroutines s ! i) \<longrightarrow> to_send (goroutines s ! i) = [])"
    and "\<forall>x \<in> set (channel s). fst x < length cs"
    and "distinct order" "set order = {i. i < length cs \<and> finished (goroutines s ! i)}"
      "durations s = foldl (add_run cs) [] order"
  shows "scrape_inv strict cs s"
  using assms unfolding scrape_inv_def by blast

lemma start_inv: "scrape_inv strict cs (start strict cs)"
  by (rule scrape_invI [of _ _ _ "[]"]) (simp_all add: start_def sent_by_def)

lemma sent_by_append [simp]:
  "sent_by i (s\<lparr>goroutines := gs, channel := channel s @ [(j, m)]\<rparr>) =
     sent_by i s @ (if i = j then [m] else [])"
  "sent_by i (s\<lparr>goroutines := gs, durations := ds\<rparr>) = sent_by i s"
  by (simp_all add: sent_by_def)

lemma act_cases:
  assumes "act cs i s = Some s'"
  obtains (send) m ms where "i < length (goroutines s)" "to_send (goroutines s ! i) = m # ms"
      "s' = s\<lparr>goroutines := (goroutines s)[i := (goroutines s ! i)\<lparr>to_send := ms\<rparr>],
              channel := channel s @ [(i, m)]\<rparr>"
    | (finish) "i < length (goroutines s)" "to_send (goroutines s ! i) = []"
      "\<not> finished (goroutines s ! i)"
      "s' = s\<lparr>goroutines := (goroutines s)[i := (goroutines s ! i)\<lparr>finished := True\<rparr>],
              durations := add_run cs (durations s) i\<rparr>"
  using assms by (auto simp: act_def Let_def add_run_def split: if_splits list.splits)

lemma act_inv:
  assumes inv: "scrape_inv strict cs s" and step: "act cs i s = Some s'"
  shows "scrape_inv strict cs s'"
proof -
  have len: "length (goroutines s) = length cs" using inv by (simp add: scrape_inv_def)
  from inv obtain order where order: "distinct order"
    "set order = {i. i < length cs \<and> finished (goroutines s ! i)}"
    "durations s = foldl (add_run cs) [] order"
    unfolding scrape_inv_def by blast
  from step show ?thesis
  proof (cases rule: act_cases)
    case (send m ms)
    have nf: "\<not> finished (goroutines s ! i)" using inv send len by (auto simp: scrape_inv_def)
    have "sent_by j s' @ to_send (goroutines s' ! j) = goroutine_sends strict (cs ! j) \<and>
        (finished (goroutines s' ! j) \<longrightarrow> to_send (goroutines s' ! j) = [])" if "j < length cs" for j
      using inv that send len nf by (cases "i = j") (auto simp: scrape_inv_def)
    moreover have "\<forall>x \<in> set (channel s'). fst x < length cs"
      using inv send len by (auto simp: scrape_inv_def)
    moreover have "set order = {i. i < length cs \<and> finished (goroutines s' ! i)}"
      using order(2) send len nf by (auto simp: nth_list_update)
    moreover have "length (goroutines s') = length cs" "durations s' = foldl (add_run cs) [] order"
      using send len order(3) by simp_all
    ultimately show ?thesis using order(1) by (intro scrape_invI)
  next
    case finish
    have "sent_by j s' @ to_send (goroutines s' ! j) = goroutine_sends strict (cs ! j) \<and>
        (finished (goroutines s' ! j) \<longrightarrow> to_send (goroutines s' ! j) = [])" if "j < length cs" for j
      using inv that finish len by (cases "i = j") (auto simp: scrape_inv_def)
    moreover have "\<forall>x \<in> set (channel s'). fst x < length cs"
      using inv finish by (auto simp: scrape_inv_def)
    moreover have "distinct (order @ [i])" using order finish by auto
    moreover have "set (order @ [i]) = {i. i < length cs \<and> finished (goroutines s' ! i)}"
      using order(2) finish len by (auto simp: nth_list_update)
    moreover have "durations s' = foldl (add_run cs) [] (order @ [i])"
      using order(3) finish by simp
    moreover have "length (goroutines s') = length cs" using finish len by simp
    ultimately show ?thesis by (intro scrape_invI)
  qed
qed

lemma reachable_inv: "reachable strict cs s \<Longrightarrow> scrape_inv strict cs s"
  by (induction rule: reachable.induct) (auto intro: start_inv act_inv)

section \<open>Progress and termination\<close>

definition pending :: "'m scrape_state \<Rightarrow> nat" where
  "pending s = sum_list (map (\<lambda>g. length (to_send g) + (if finished g then 0 else 1)) (goroutines s))"

lemma sum_list_update_less:
  fixes f :: "'a \<Rightarrow> nat"
  assumes "i < length xs" "f y < f (xs ! i)"
  shows "sum_list (map f (xs[i := y])) < sum_list (map f xs)"
  using assms
proof (induction xs arbitrary: i)
  case (Cons x xs)
  then show ?case by (cases i) auto
qed simp

text \<open>Every action uses up one of the finitely many a scrape has.\<close>

lemma act_pending: "act cs i s = Some s' \<Longrightarrow> pending s' < pending s"
  by (erule act_cases) (auto simp: pending_def intro!: sum_list_update_less)

text \<open>A scrape that is not done can always go on: no goroutine waits for another.\<close>

lemma act_progress:
  assumes "\<not> all_done s"
  shows "\<exists>i s'. act cs i s = Some s'"
proof -
  from assms obtain i where "i < length (goroutines s)" "\<not> finished (goroutines s ! i)"
    by (auto simp: all_done_def list_all_length)
  then have "act cs i s \<noteq> None" by (simp add: act_def Let_def split: list.split)
  then show ?thesis by auto
qed

lemma reach_done: "reachable strict cs s \<Longrightarrow> \<exists>s'. reachable strict cs s' \<and> all_done s'"
proof (induction "pending s" arbitrary: s rule: less_induct)
  case less
  show ?case
  proof (cases "all_done s")
    case False
    then obtain i s' where "act cs i s = Some s'" using act_progress by blast
    with less show ?thesis using act_pending reach_act by blast
  qed (use less in blast)
qed

section \<open>A finished scrape\<close>

lemma done_sent:
  assumes "reachable strict cs s" "all_done s" "i < length cs"
  shows "sent_by i s = goroutine_sends strict (cs ! i)"
proof -
  from reachable_inv [OF assms(1)] assms(3) have i: "i < length (goroutines s)"
    "sent_by i s @ to_send (goroutines s ! i) = goroutine_sends strict (cs ! i)"
    "finished (goroutines s ! i) \<longrightarrow> to_send (goroutines s ! i) = []"
    by (auto simp: scrape_inv_def)
  with assms(2) show ?thesis by (simp add: all_done_def list_all_length)
qed

lemma done_durations:
  assumes "reachable strict cs s" "all_done s"
  shows "\<exists>order. distinct order \<and> set order = {..<length cs} \<and>
           durations s = foldl (add_run cs) [] order"
proof -
  from reachable_inv [OF assms(1)] obtain order where "distinct order"
    "set order = {i. i < length cs \<and> finished (goroutines s ! i)}"
    "durations s = foldl (add_run cs) [] order" "length (goroutines s) = length cs"
    unfolding scrape_inv_def by blast
  moreover from calculation(2,4) assms(2) have "set order = {..<length cs}"
    by (auto simp: all_done_def list_all_length)
  ultimately show ?thesis by blast
qed

lemma add_duration_keys:
  "distinct (map fst ds) \<Longrightarrow> distinct (map fst (add_duration k d ds))"
  "set (map fst (add_duration k d ds)) = insert k (set (map fst ds))"
  by (auto simp: add_duration_def AList.distinct_update AList.update_keys)

lemma add_duration_lookup:
  "map_of (add_duration k d ds) k' =
     (if k' = k then Some (f_add (case map_of ds k of None \<Rightarrow> f_zero | Some v \<Rightarrow> v) d) else map_of ds k')"
  by (simp add: add_duration_def AList.update_conv')

section \<open>The durations of a scrape\<close>

text \<open>The durations of the runs with one key, in a given order.\<close>

definition key_durations :: "'m collector_run list \<Rightarrow> scrapeDurationKey \<Rightarrow> nat list \<Rightarrow> float64 list" where
  "key_durations cs k order =
     map (\<lambda>i. duration (cs ! i)) (filter (\<lambda>i. duration_key (cs ! i) = k) order)"

lemma durations_keys:
  "distinct (map fst (foldl (add_run cs) [] order)) \<and>
   set (map fst (foldl (add_run cs) [] order)) = (\<lambda>i. duration_key (cs ! i)) ` set order"
  by (induction order rule: rev_induct) (simp_all add: add_run_def add_duration_keys del: set_map)

lemma durations_lookup:
  "map_of (foldl (add_run cs) [] order) k =
     (if key_durations cs k order = [] then None
      else Some (foldl f_add f_zero (key_durations cs k order)))"
  by (induction order rule: rev_induct)
     (auto simp: add_run_def add_duration_lookup key_durations_def split: if_splits)

lemma done_keys:
  assumes "reachable strict cs s" "all_done s"
  shows "distinct (map fst (durations s)) \<and> set (map fst (durations s)) = duration_key ` set cs"
proof -
  from done_durations [OF assms] obtain order where "set order = {..<length cs}"
    "durations s = foldl (add_run cs) [] order" by blast
  moreover have "(\<lambda>i. duration_key (cs ! i)) ` {..<length cs} = duration_key ` set cs"
    by (auto simp: set_conv_nth)
  ultimately show ?thesis using durations_keys [of cs order] by simp
qed

section \<open>What observing does\<close>

definition next_total :: "totals \<Rightarrow> scrapeDurationKey \<Rightarrow> float64 \<Rightarrow> scrape_total" where
  "next_total r k d =
     (let t = (case r k of None \<Rightarrow> zero_total | Some t \<Rightarrow> t)
      in \<lparr>count = count t + 1, total_sum = f_add (total_sum t) d\<rparr>)"

lemma next_total_upd: "j \<noteq> k \<Longrightarrow> next_total (r(k \<mapsto> t)) j d = next_total r j d"
  by (simp add: next_total_def)

lemma observe_keys_spec:
  "distinct ks \<Longrightarrow> set ks \<subseteq> dom (map_of ds) \<Longrightarrow>
     observe_keys ds ks r =
       (map (\<lambda>k. (k, next_total r k (the (map_of ds k)))) ks,
        \<lambda>k. if k \<in> set ks then Some (next_total r k (the (map_of ds k))) else r k)"
proof (induction ks arbitrary: r)
  case (Cons k ks)
  obtain d where d: "map_of ds k = Some d" using Cons.prems by auto
  have ne: "j \<noteq> k" if "j \<in> set ks" for j using that Cons.prems(1) by auto
  have "observe_keys ds (k # ks) r =
      (case observe_keys ds ks (r(k \<mapsto> next_total r k d)) of
         (ms, r') \<Rightarrow> ((k, next_total r k d) # ms, r'))"
    by (simp add: d next_total_def Let_def)
  also have "\<dots> = ((k, next_total r k d) # map (\<lambda>k. (k, next_total r k (the (map_of ds k)))) ks,
      \<lambda>j. if j \<in> set (k # ks) then Some (next_total r j (the (map_of ds j))) else r j)"
    using Cons.prems ne
    by (auto simp: Cons.IH next_total_upd d fun_eq_iff simp del: fun_upd_apply) simp_all
  finally show ?case by (simp add: d)
qed auto

lemma observe_spec:
  assumes "distinct (map fst ds)"
  shows "observeScrapeDurations ds r =
           (map (\<lambda>k. (k, next_total r k (the (map_of ds k)))) (sort (map fst ds)),
            \<lambda>k. case map_of ds k of None \<Rightarrow> r k | Some d \<Rightarrow> Some (next_total r k d))"
proof -
  have "distinct (sort (map fst ds))" "set (sort (map fst ds)) \<subseteq> dom (map_of ds)"
    using assms by (simp_all add: dom_map_of_conv_image_fst)
  note spec = observe_keys_spec [OF this, of r]
  have "(if k \<in> set (sort (map fst ds)) then Some (next_total r k (the (map_of ds k))) else r k) =
      (case map_of ds k of None \<Rightarrow> r k | Some d \<Rightarrow> Some (next_total r k d))" for k
  proof -
    have "k \<in> set (sort (map fst ds)) \<longleftrightarrow> map_of ds k \<noteq> None" by (simp add: map_of_eq_None_iff)
    then show ?thesis by (cases "map_of ds k") simp_all
  qed
  with spec show ?thesis by (simp add: observeScrapeDurations_def)
qed

text \<open>Nothing depends on the order in which the map is iterated.\<close>

lemma observe_order:
  assumes "distinct (map fst ds)" "distinct (map fst ds')" "map_of ds = map_of ds'"
  shows "observeScrapeDurations ds r = observeScrapeDurations ds' r"
proof -
  have "set (map fst ds) = set (map fst ds')"
    using assms(3) by (metis dom_map_of_conv_image_fst set_map)
  then have "sort (map fst ds) = sort (map fst ds')"
    using assms(1,2) by (metis sorted_list_of_set_sort_remdups distinct_remdups_id)
  with assms show ?thesis by (simp add: observe_spec)
qed

text \<open>The totals after a series of scrapes, given the durations of each.\<close>

definition observe_series :: "scrape_durations list \<Rightarrow> totals \<Rightarrow> totals" where
  "observe_series dss r =
     foldl (\<lambda>r ds. snd (observeScrapeDurations ds r)) r dss"

definition count_of :: "totals \<Rightarrow> scrapeDurationKey \<Rightarrow> 64 word" where
  "count_of r k = (case r k of None \<Rightarrow> 0 | Some t \<Rightarrow> count t)"

section \<open>Schedules\<close>

text \<open>A scrape under a schedule: the goroutines that act, in their order.\<close>

fun run_schedule :: "'m collector_run list \<Rightarrow> nat list \<Rightarrow> 'm scrape_state \<Rightarrow> 'm scrape_state option" where
  "run_schedule cs [] s = Some s"
| "run_schedule cs (i # is) s =
     (case act cs i s of None \<Rightarrow> None | Some s' \<Rightarrow> run_schedule cs is s')"

lemma schedule_reachable:
  "reachable strict cs s \<Longrightarrow> run_schedule cs is s = Some s' \<Longrightarrow> reachable strict cs s'"
  by (induction "is" arbitrary: s) (auto split: option.splits intro: reach_act)






lemma mset_by_key:
  "list_all (\<lambda>x. fst x < (n :: nat)) xs \<Longrightarrow>
     mset (map snd xs) = (\<Sum>i<n. mset (map snd (filter (\<lambda>x. fst x = i) xs)))"
proof (induction xs)
  case (Cons x xs)
  then have "fst x < n" by simp
  then have "(\<Sum>i<n. mset (map snd (filter (\<lambda>y. fst y = i) (x # xs)))) =
      (\<Sum>i<n. (if i = fst x then {#snd x#} else {#}) + mset (map snd (filter (\<lambda>y. fst y = i) xs)))"
    by (intro sum.cong) auto
  also have "\<dots> = {#snd x#} + (\<Sum>i<n. mset (map snd (filter (\<lambda>y. fst y = i) xs)))"
    using \<open>fst x < n\<close> by (simp add: sum.distrib)
  finally show ?case using Cons by simp
qed simp

lemma done_messages:
  assumes "reachable strict cs s" "all_done s"
  shows "mset (map snd (channel s)) = mset (concat (map (goroutine_sends strict) cs))"
proof -
  have "list_all (\<lambda>x. fst x < length cs) (channel s)"
    using reachable_inv [OF assms(1)] by (auto simp: scrape_inv_def list_all_iff)
  then have "mset (map snd (channel s)) = (\<Sum>i<length cs. mset (sent_by i s))"
    unfolding sent_by_def by (rule mset_by_key)
  also have "\<dots> = (\<Sum>i<length cs. mset (goroutine_sends strict (cs ! i)))"
    by (intro sum.cong) (auto simp: done_sent [OF assms])
  also have "\<dots> = sum_list (map (\<lambda>c. mset (goroutine_sends strict c)) cs)"
    by (simp add: sum_list_sum_nth atLeast0LessThan)
  also have "\<dots> = mset (concat (map (goroutine_sends strict) cs))"
    by (simp add: mset_concat comp_def)
  finally show ?thesis .
qed

text \<open>
  C1: When \<open>wg.Wait()\<close> returns, whatever the schedule of the goroutines was, the channel has received from
  each collector exactly the messages of that collector, in its order, and nothing else.
\<close>

theorem scrape_messages:
  assumes "run_schedule cs sched (start strict cs) = Some s" "all_done s" "i < length cs"
  shows "sent_by i s = goroutine_sends strict (cs ! i) \<and>
     mset (map snd (channel s)) = mset (concat (map (goroutine_sends strict) cs))"
  using schedule_reachable [OF reach_start assms(1)] assms(2,3) done_sent done_messages by blast

text \<open>Two collectors, one of which fails, in a strict scrape.\<close>

definition demo_runs :: "string collector_run list" where
  "demo_runs =
     [\<lparr>cname = ''health'', scrape_source = Some ''sysfs'', recorded = [], outcome = Inl NotExist,
       duration = f_zero\<rparr>,
      \<lparr>cname = ''lnet'', scrape_source = Some ''sys'', recorded = [''sys'', ''lctl''],
       outcome = Inr [''m1'', ''m2''], duration = f_zero\<rparr>]"

definition demo_schedule :: "nat list" where
  "demo_schedule = [1, 0, 1, 0, 0, 1, 0, 1, 1]"

lemma demo_scrape:
  "run_schedule demo_runs demo_schedule (start True demo_runs) =
     Some \<lparr>goroutines = [\<lparr>to_send = [], finished = True\<rparr>, \<lparr>to_send = [], finished = True\<rparr>],
           channel =
             [(1, Collected ''m1''),
              (0, InvalidMetric (Errorf ''%s collector failed: %w'' [ArgS ''health''] [NotExist])),
              (1, Collected ''m2''), (0, SuccessMetric ''health'' (f_of_int 0)),
              (0, DurationMetric ''health'' f_zero), (1, SuccessMetric ''lnet'' (f_of_int 1)),
              (1, DurationMetric ''lnet'' f_zero)],
           durations =
             [(Key ''sysfs'' ''error'', f_add f_zero f_zero), (Key ''lctl'' ''success'', f_add f_zero f_zero)]\<rparr>"
  by (simp add: demo_schedule_def demo_runs_def start_def act_def goroutine_sends_def duration_key_def
      final_source_def record_source_def scrapeSourceName_def add_duration_def)

lemma scrape_messages_witness:
  "\<exists>s. sent_by 1 s =
     [Collected ''m1'', Collected ''m2'', SuccessMetric ''lnet'' (f_of_int 1), DurationMetric ''lnet'' f_zero]"
  using scrape_messages [OF demo_scrape, of 1]
  by (auto simp: demo_runs_def goroutine_sends_def all_done_def)



section \<open>What a scrape reports\<close>

fun is_invalid :: "'m metric \<Rightarrow> bool" where
  "is_invalid (InvalidMetric e) = True"
| "is_invalid _ = False"

fun is_success :: "'m metric \<Rightarrow> bool" where
  "is_success (SuccessMetric c v) = True"
| "is_success _ = False"

fun collected :: "'m metric \<Rightarrow> 'm list" where
  "collected (Collected m) = [m]"
| "collected _ = []"

definition success_of :: "'m collector_run \<Rightarrow> 'm metric" where
  "success_of c = SuccessMetric (cname c) (f_of_int (if is_ok (outcome c) then 1 else 0))"

definition invalid_of :: "'m collector_run \<Rightarrow> 'm metric list" where
  "invalid_of c =
     (case outcome c of
        Inl err \<Rightarrow> [InvalidMetric (Errorf ''%s collector failed: %w'' [ArgS (cname c)] [err])]
      | Inr ms \<Rightarrow> [])"

lemma concat_map_Nil: "(\<And>x. x \<in> set xs \<Longrightarrow> f x = []) \<Longrightarrow> concat (map f xs) = []"
  by (induction xs) auto

lemma sends_success: "filter is_success (goroutine_sends strict c) = [success_of c]"
  by (auto simp: goroutine_sends_def success_of_def filter_map comp_def split: sum.split)

lemma sends_invalid: "filter is_invalid (goroutine_sends strict c) = (if strict then invalid_of c else [])"
  by (auto simp: goroutine_sends_def invalid_of_def filter_map comp_def split: sum.split)

lemma concat_map_singleton: "concat (map (\<lambda>x. [x]) xs) = xs"
  by (induction xs) simp_all

lemma sends_collected: "concat (map collected (goroutine_sends strict c)) = or_empty (outcome c)"
  by (auto simp: goroutine_sends_def comp_def concat_map_singleton split: sum.split)

lemma summaries_plain:
  "filter is_success (map summary_metric ms) = []" "filter is_invalid (map summary_metric ms) = []"
  "concat (map collected (map summary_metric ms)) = []"
  by (induction ms) (auto simp: summary_metric_def)

lemma filter_concat_map: "filter P (concat (map f xs)) = concat (map (\<lambda>x. filter P (f x)) xs)"
  by (induction xs) simp_all

lemma concat_map_concat: "concat (map f (concat xss)) = concat (map (\<lambda>xs. concat (map f xs)) xss)"
  by (induction xss) simp_all

text \<open>
  C3: A scrape reports every collector: exactly one success gauge for each, 1 if it succeeded and 0 if it
  failed; the metrics of the collectors that succeeded, whatever the others did; and an invalid
  metric, which makes the client library fail the scrape, for each failed collector in strict mode
  and for none otherwise.
\<close>

theorem scrape_reports:
  assumes "run_schedule cs sched (start strict cs) = Some s" "all_done s"
  shows "mset (filter is_success (fst (Registry_Collect s r))) = mset (map success_of cs) \<and>
     mset (concat (map collected (fst (Registry_Collect s r)))) =
       mset (concat (map (\<lambda>c. or_empty (outcome c)) cs)) \<and>
     mset (filter is_invalid (fst (Registry_Collect s r))) =
       mset (if strict then concat (map invalid_of cs) else [])"
proof -
  note sent = done_messages [OF schedule_reachable [OF reach_start assms(1)] assms(2)]
  obtain ms r' where obs: "observeScrapeDurations (durations s) r = (ms, r')" by fastforce
  then have out: "fst (Registry_Collect s r) = map snd (channel s) @ map summary_metric ms"
    by (simp add: Registry_Collect_def)
  have filt: "mset (filter P (map snd (channel s))) =
      mset (concat (map (\<lambda>c. filter P (goroutine_sends strict c)) cs))" for P
    unfolding filter_concat_map [symmetric] mset_filter sent ..
  have "mset (concat (map collected (map snd (channel s)))) =
      mset (concat (map (\<lambda>c. or_empty (outcome c)) cs))"
    unfolding mset_concat_map_cong [OF sent] concat_map_concat by (simp add: comp_def sends_collected)
  then have "mset (concat (map collected (fst (Registry_Collect s r)))) =
      mset (concat (map (\<lambda>c. or_empty (outcome c)) cs))"
    unfolding out map_append concat_append mset_append summaries_plain by simp
  moreover have "mset (filter is_success (fst (Registry_Collect s r))) = mset (map success_of cs)"
    unfolding out filter_append mset_append summaries_plain filt sends_success
    by (induction cs) simp_all
  moreover have "mset (filter is_invalid (fst (Registry_Collect s r))) =
      mset (if strict then concat (map invalid_of cs) else [])"
    unfolding out filter_append mset_append summaries_plain filt sends_invalid
    by (simp add: concat_map_Nil)
  ultimately show ?thesis by blast
qed

lemma scrape_reports_witness:
  "mset (concat (map invalid_of demo_runs)) =
     {#InvalidMetric (Errorf ''%s collector failed: %w'' [ArgS ''health''] [NotExist])#} \<and>
   (\<exists>out. mset (filter is_invalid out) = mset (concat (map invalid_of demo_runs)))"
  using scrape_reports [OF demo_scrape]
  by (auto simp: all_done_def demo_runs_def invalid_of_def)

section \<open>Durations do not depend on the schedule\<close>

text \<open>A duration measured by a monotonic clock is a float of the format that is not negative.\<close>

fun nonneg_float :: "float64 \<Rightarrow> bool" where
  "nonneg_float (F_Fin s m e) = (\<not> s \<and> f_wf (F_Fin s m e))"
| "nonneg_float _ = False"

lemma f_add_zero:
  assumes "nonneg_float d"
  shows "f_add f_zero d = d"
proof (cases d)
  case (F_Fin s m e)
  with assms have wf: "\<not> s" "f_wf (F_Fin s m e)" by auto
  then have e: "min min_exp e = min_exp" "nat (min_exp - min_exp) = 0" "min_exp \<le> e" "0 \<le> m" by auto
  show ?thesis
  proof (cases "m = 0")
    case True
    with wf have "e = min_exp" by auto
    with True wf F_Fin show ?thesis by (simp add: f_zero_def Float64.signed_def)
  next
    case False
    let ?n = "m * 2 ^ nat (e - min_exp)"
    have "(2::real) ^ nat (e - min_exp) = 2 powi (e - min_exp)"
      using e(3) by (simp add: power_int_def)
    then have scaled: "real_of_int ?n * 2 powi min_exp = real_of_int m * 2 powi e"
      by (simp add: power_int_diff)
    have val: "real_of_int (scale_num ?n (- min_exp)) / real_of_int (scale_den 1 (- min_exp)) =
        real_of_int m * 2 powi e"
      using scale_ratio [of 1 ?n "- min_exp"] scaled by simp
    have "round_ratio False (scale_num ?n (- min_exp)) (scale_den 1 (- min_exp)) = F_Fin False m e"
      by (rule round_ratio_exact [OF _ _ _ val]) (use wf e in \<open>simp_all add: scale_pos\<close>)
    moreover have "\<not> ?n < 0" using e by (simp add: mult_less_0_iff not_less)
    ultimately show ?thesis using F_Fin wf e False by (simp add: f_zero_def Float64.signed_def Let_def)
  qed
qed (use assms in auto)

lemma f_add_commute: "f_add x y = f_add y x"
  by (cases x; cases y) (auto simp: Let_def add.commute min.commute)

text \<open>What the runs with one key add up to, when there are at most two of them.\<close>

fun sum_of_two :: "float64 list \<Rightarrow> float64 option" where
  "sum_of_two [] = None"
| "sum_of_two [d] = Some d"
| "sum_of_two (d # e # _) = Some (f_add d e)"

lemma mset_short: "mset xs = mset ys \<Longrightarrow> length ys \<le> 2 \<Longrightarrow> ys = xs \<or> ys = rev xs"
proof -
  assume m: "mset xs = mset ys" and l: "length ys \<le> 2"
  then have "length xs = length ys" by (metis size_mset)
  with m l show ?thesis
    by (cases xs; cases "tl xs"; cases ys; cases "tl ys") (auto simp: add_eq_conv_ex)
qed

lemma sum_of_two_foldl:
  assumes "mset xs = mset ys" "length ys \<le> 2" "list_all nonneg_float ys"
  shows "(if xs = [] then None else Some (foldl f_add f_zero xs)) = sum_of_two ys"
proof -
  have "sum_of_two (rev zs) = sum_of_two zs" if "length zs \<le> 2" for zs
    using that by (cases zs rule: sum_of_two.cases) (auto simp: f_add_commute)
  moreover have "(if zs = [] then None else Some (foldl f_add f_zero zs)) = sum_of_two zs"
    if "length zs \<le> 2" "list_all nonneg_float zs" for zs
    using that by (cases zs rule: sum_of_two.cases) (auto simp: f_add_zero)
  moreover from mset_short [OF assms(1,2)] have "ys = xs \<or> ys = rev xs" .
  then have "length xs \<le> 2" "list_all nonneg_float xs" "ys = xs \<or> ys = rev xs"
    using assms(2,3) by (auto simp: list_all_iff)
  ultimately show ?thesis by metis
qed

lemma key_durations_mset:
  assumes "distinct order" "set order = {..<length cs}"
  shows "mset (key_durations cs k order) =
           mset (map duration (filter (\<lambda>c. duration_key c = k) cs))"
proof -
  have "mset order = mset [0..<length cs]"
    using assms by (intro set_eq_iff_mset_eq_distinct [THEN iffD1]) (auto simp: atLeast0LessThan)
  then have "mset (key_durations cs k order) = mset (key_durations cs k [0..<length cs])"
    by (simp add: key_durations_def)
  also have "map (\<lambda>i. duration (cs ! i)) (filter (\<lambda>i. duration_key (cs ! i) = k) [0..<length cs]) =
      map duration (filter (\<lambda>c. duration_key c = k) (map ((!) cs) [0..<length cs]))"
    by (simp add: filter_map comp_def)
  then have "key_durations cs k [0..<length cs] =
      map duration (filter (\<lambda>c. duration_key c = k) cs)"
    by (simp add: key_durations_def map_nth)
  finally show ?thesis .
qed

lemma durations_sum:
  assumes "run_schedule cs sched (start strict cs) = Some s" "all_done s"
    and "length (filter (\<lambda>c. duration_key c = k) cs) \<le> 2"
    and "list_all (\<lambda>c. nonneg_float (duration c)) cs"
  shows "map_of (durations s) k = sum_of_two (map duration (filter (\<lambda>c. duration_key c = k) cs))"
proof -
  from done_durations [OF schedule_reachable [OF reach_start assms(1)] assms(2)] obtain order where
    order: "distinct order" "set order = {..<length cs}" "durations s = foldl (add_run cs) [] order"
    by blast
  have "list_all nonneg_float (map duration (filter (\<lambda>c. duration_key c = k) cs))"
    using assms(4) by (auto simp: list_all_iff)
  then show ?thesis
    using sum_of_two_foldl [OF key_durations_mset [OF order(1,2)]] assms(3)
    by (simp add: order(3) durations_lookup)
qed

section \<open>Totals across scrapes\<close>

text \<open>
  Go iterates over the map of durations in no fixed order, but neither the summaries nor the totals depend
  on it: the keys are observed once each, sorted by source and then by result.
\<close>

theorem observe_any_order:
  assumes "distinct (map fst ds)" "mset ds = mset ds'"
  shows "observeScrapeDurations ds' r = observeScrapeDurations ds r \<and>
     map fst (fst (observeScrapeDurations ds r)) = sorted_list_of_set (fst ` set ds)"
proof -
  have keys: "mset (map fst ds) = mset (map fst ds')" using assms(2) by simp
  then have d': "distinct (map fst ds')" using assms(1) mset_eq_imp_distinct_iff by blast
  have "map_of ds = map_of ds'"
    using assms(1) d' mset_eq_setD [OF assms(2)] by (metis map_of_eq_Some_iff option.exhaust ext)
  with assms(1) d' have "observeScrapeDurations ds r = observeScrapeDurations ds' r"
    by (rule observe_order)
  moreover have "map fst (fst (observeScrapeDurations ds r)) = sort (map fst ds)"
    by (simp add: observe_spec [OF assms(1)] comp_def)
  moreover have "sort (map fst ds) = sorted_list_of_set (fst ` set ds)"
    using assms(1) by (simp add: sorted_list_of_set_sort_remdups distinct_remdups_id flip: set_map)
  ultimately show ?thesis by simp
qed

lemma observe_any_order_witness:
  "map fst (fst (observeScrapeDurations
       [(Key ''sys'' ''success'', f_zero), (Key ''procfs'' ''success'', f_zero), (Key ''sys'' ''error'', f_zero)]
       Map.empty)) =
     [Key ''procfs'' ''success'', Key ''sys'' ''error'', Key ''sys'' ''success'']"
proof -
  let ?ds = "[(Key ''sys'' ''success'', f_zero), (Key ''procfs'' ''success'', f_zero), (Key ''sys'' ''error'', f_zero)]"
  have "sorted_list_of_set (fst ` set ?ds) =
      [Key ''procfs'' ''success'', Key ''sys'' ''error'', Key ''sys'' ''success'']"
    by (simp add: sorted_list_of_set_nonempty) code_simp
  with observe_any_order [of ?ds "rev ?ds" Map.empty] show ?thesis by simp
qed

definition sum_of :: "totals \<Rightarrow> scrapeDurationKey \<Rightarrow> float64" where
  "sum_of r k = (case r k of None \<Rightarrow> f_zero | Some t \<Rightarrow> total_sum t)"

definition observed :: "scrape_durations list \<Rightarrow> scrapeDurationKey \<Rightarrow> float64 list" where
  "observed dss k = concat (map (\<lambda>ds. case map_of ds k of None \<Rightarrow> [] | Some d \<Rightarrow> [d]) dss)"

lemma observe_sum:
  assumes "distinct (map fst ds)"
  shows "sum_of (snd (observeScrapeDurations ds r)) k =
           (case map_of ds k of None \<Rightarrow> sum_of r k | Some d \<Rightarrow> f_add (sum_of r k) d)"
  by (cases "map_of ds k"; cases "r k")
     (simp_all add: observe_spec [OF assms] sum_of_def next_total_def zero_total_def)

lemma observe_counts:
  assumes "distinct (map fst ds)"
  shows "count_of (snd (observeScrapeDurations ds r)) k =
           (case map_of ds k of None \<Rightarrow> count_of r k | Some d \<Rightarrow> count_of r k + 1)"
  by (cases "map_of ds k"; cases "r k")
     (simp_all add: observe_spec [OF assms] count_of_def next_total_def zero_total_def)

text \<open>
  Over a series of scrapes the summary of a key counts the scrapes that had it, modulo 2^64, and sums their
  durations in the order of the scrapes, starting from what it was.
\<close>

lemma totals_of_series:
  assumes "list_all (\<lambda>ds. distinct (map fst ds)) dss"
  shows "count_of (observe_series dss r) k = count_of r k + of_nat (length (observed dss k)) \<and>
         sum_of (observe_series dss r) k = foldl f_add (sum_of r k) (observed dss k)"
  using assms
proof (induction dss arbitrary: r)
  case (Cons ds dss)
  then have d: "distinct (map fst ds)" by simp
  from Cons show ?case
    by (cases "map_of ds k") (simp_all add: observe_series_def observed_def observe_sum [OF d]
        observe_counts [OF d])
qed (simp add: observe_series_def observed_def)

lemma totals_of_series_witness:
  "count_of (observe_series [[(Key ''sys'' ''success'', f_zero)], [(Key ''sys'' ''error'', f_zero)],
       [(Key ''sys'' ''success'', f_zero)]]
     [Key ''sys'' ''success'' \<mapsto> \<lparr>count = - 1, total_sum = f_zero\<rparr>]) (Key ''sys'' ''success'') = 1"
  using totals_of_series [of "[[(Key ''sys'' ''success'', f_zero)], [(Key ''sys'' ''error'', f_zero)],
       [(Key ''sys'' ''success'', f_zero)]]"
     "[Key ''sys'' ''success'' \<mapsto> \<lparr>count = - 1, total_sum = f_zero\<rparr>]" "Key ''sys'' ''success''"]
  by (simp add: observed_def count_of_def)

end
