(* ===== verification/Http_Mux.thy ===== *)
theory Http_Mux
  imports Paths Go_Strings
begin

text \<open>
  What the exporter uses of Go's \<^verbatim>\<open>net/http\<close>: the syntax of the patterns of a \<open>ServeMux\<close>, the conflicts
  between them, and which requests a pattern matches.  An error of the package is \<open>None\<close>.  The names of
  wildcards are ASCII here; a name with other letters is refused.  An empty segment of a pattern matches
  an empty segment only.
\<close>

section \<open>Escapes and clean paths\<close>

definition hex_value :: "char \<Rightarrow> nat option" where
  "hex_value c =
     (let n = of_char c :: nat in
      if 48 \<le> n \<and> n \<le> 57 then Some (n - 48)
      else if 65 \<le> n \<and> n \<le> 70 then Some (n - 55)
      else if 97 \<le> n \<and> n \<le> 102 then Some (n - 87)
      else None)"

text \<open>\<^verbatim>\<open>url.PathUnescape\<close>.\<close>

fun path_unescape :: "string \<Rightarrow> string option" where
  "path_unescape [] = Some []"
| "path_unescape (c # s) =
     (if c = CHR 0x25 then
        (case s of
           a # b # s' \<Rightarrow>
             (case (hex_value a, hex_value b) of
                (Some x, Some y) \<Rightarrow> map_option ((#) (char_of (16 * x + y))) (path_unescape s')
              | _ \<Rightarrow> None)
         | _ \<Rightarrow> None)
      else map_option ((#) c) (path_unescape s))"

text \<open>A segment that is not escaped validly stands for itself.\<close>

definition pathUnescape :: "string \<Rightarrow> string" where
  "pathUnescape s = (case path_unescape s of None \<Rightarrow> s | Some t \<Rightarrow> t)"

text \<open>\<open>cleanPath\<close>: \<open>path.Clean\<close>, which is \<open>Clean\<close>, with a trailing slash kept.\<close>

definition cleanPath :: "string \<Rightarrow> string" where
  "cleanPath p =
     (if p = [] then ''/''
      else
        let q = (if hd p = slash then p else slash # p); np = Clean q
        in if last q = slash \<and> np \<noteq> ''/'' then np @ ''/'' else np)"

section \<open>Patterns\<close>

text \<open>
  A literal, a wildcard for one segment, or one for all the rest of a path.  A trailing slash is a
  wildcard for the rest without a name, and \<open>{$}\<close> is the literal \<open>/\<close>.
\<close>

datatype segment = Literal string | Wild string | Multi string

record pattern =
  pmethod :: string
  phost :: string
  psegments :: "segment list"

definition letter :: "char \<Rightarrow> bool" where
  "letter c \<longleftrightarrow>
     (let n = of_char c :: nat in 65 \<le> n \<and> n \<le> 90 \<or> 97 \<le> n \<and> n \<le> 122)"

definition decimal_digit :: "char \<Rightarrow> bool" where
  "decimal_digit c \<longleftrightarrow> 48 \<le> (of_char c :: nat) \<and> (of_char c :: nat) \<le> 57"

definition isValidWildcardName :: "string \<Rightarrow> bool" where
  "isValidWildcardName s \<longleftrightarrow>
     s \<noteq> [] \<and> (letter (hd s) \<or> hd s = CHR ''_'') \<and>
     list_all (\<lambda>c. letter c \<or> c = CHR ''_'' \<or> decimal_digit c) (tl s)"

definition validMethod :: "string \<Rightarrow> bool" where
  "validMethod m \<longleftrightarrow>
     m \<noteq> [] \<and>
     list_all (\<lambda>c. letter c \<or> decimal_digit c \<or> c = CHR 0x27 \<or> c = CHR 0x60 \<or> c \<in> set ''!#$%&*+-.^_|~'') m"

text \<open>The segments of a path after its first slash, with the names of wildcards seen so far.\<close>

fun parse_segments :: "string list \<Rightarrow> string list \<Rightarrow> segment list option" where
  "parse_segments names [] = Some []"
| "parse_segments names (seg # rest) =
     (if seg = [] \<and> rest = [] then Some [Multi []]
      else if CHR ''{'' \<notin> set seg then
        map_option ((#) (Literal (pathUnescape seg))) (parse_segments names rest)
      else if hd seg \<noteq> CHR ''{'' \<or> last seg \<noteq> CHR ''}'' then None
      else
        let nm = tl (butlast seg) in
        if nm = ''$'' then (if rest = [] then Some [Literal ''/''] else None)
        else
          let multi = HasSuffix nm ''...''; name = TrimSuffix nm ''...'' in
          if multi \<and> rest \<noteq> [] then None
          else if name = [] \<or> \<not> isValidWildcardName name \<or> name \<in> set names then None
          else map_option ((#) (if multi then Multi name else Wild name)) (parse_segments (name # names) rest))"

definition blank :: "char \<Rightarrow> bool" where
  "blank c \<longleftrightarrow> c = CHR 0x20 \<or> c = CHR 0x09"

definition parsePattern :: "string \<Rightarrow> pattern option" where
  "parsePattern s =
     (let word = takeWhile (\<lambda>c. \<not> blank c) s;
          found = (word \<noteq> s);
          meth = (if found then word else []);
          rest = (if found then dropWhile blank (drop (length word) s) else s);
          host = takeWhile (\<lambda>c. c \<noteq> slash) rest;
          path = dropWhile (\<lambda>c. c \<noteq> slash) rest
      in if meth \<noteq> [] \<and> \<not> validMethod meth then None
         else if path = [] then None
         else if CHR ''{'' \<in> set host then None
         else if meth \<noteq> [] \<and> meth \<noteq> ''CONNECT'' \<and> path \<noteq> cleanPath path then None
         else map_option (\<lambda>segs. \<lparr>pmethod = meth, phost = host, psegments = segs\<rparr>)
                (parse_segments [] (Split slash (tl path))))"

section \<open>Conflicts\<close>

datatype relationship = Equivalent | MoreGeneral | MoreSpecific | Disjoint | Overlaps

definition inverseRelationship :: "relationship \<Rightarrow> relationship" where
  "inverseRelationship r =
     (case r of MoreSpecific \<Rightarrow> MoreGeneral | MoreGeneral \<Rightarrow> MoreSpecific | _ \<Rightarrow> r)"

definition combineRelationships :: "relationship \<Rightarrow> relationship \<Rightarrow> relationship" where
  "combineRelationships r1 r2 =
     (case r1 of
        Equivalent \<Rightarrow> r2
      | Disjoint \<Rightarrow> Disjoint
      | Overlaps \<Rightarrow> if r2 = Disjoint then Disjoint else Overlaps
      | _ \<Rightarrow> if r2 = Equivalent then r1
             else if r2 = inverseRelationship r1 then Overlaps
             else r2)"

definition compareMethods :: "pattern \<Rightarrow> pattern \<Rightarrow> relationship" where
  "compareMethods p1 p2 =
     (if pmethod p1 = pmethod p2 then Equivalent
      else if pmethod p1 = [] then MoreGeneral
      else if pmethod p2 = [] then MoreSpecific
      else if pmethod p1 = ''GET'' \<and> pmethod p2 = ''HEAD'' then MoreGeneral
      else if pmethod p2 = ''GET'' \<and> pmethod p1 = ''HEAD'' then MoreSpecific
      else Disjoint)"

fun is_multi :: "segment \<Rightarrow> bool" where
  "is_multi (Multi nm) = True"
| "is_multi _ = False"

fun compareSegments :: "segment \<Rightarrow> segment \<Rightarrow> relationship" where
  "compareSegments (Multi a) (Multi b) = Equivalent"
| "compareSegments (Multi a) s2 = MoreGeneral"
| "compareSegments s1 (Multi b) = MoreSpecific"
| "compareSegments (Wild a) (Wild b) = Equivalent"
| "compareSegments (Wild a) (Literal t) = (if t = ''/'' then Disjoint else MoreGeneral)"
| "compareSegments (Literal s) (Wild b) = (if s = ''/'' then Disjoint else MoreSpecific)"
| "compareSegments (Literal s) (Literal t) = (if s = t then Equivalent else Disjoint)"

text \<open>
  The loop over corresponding segments, with the relationship so far and whether the whole patterns
  end in a wildcard for the rest.
\<close>

fun compare_loop :: "bool \<Rightarrow> bool \<Rightarrow> relationship \<Rightarrow> segment list \<Rightarrow> segment list \<Rightarrow> relationship" where
  "compare_loop m1 m2 rel [] [] = rel"
| "compare_loop m1 m2 rel [] (t # ts) = (if m1 then combineRelationships rel MoreGeneral else Disjoint)"
| "compare_loop m1 m2 rel (s # ss) [] = (if m2 then combineRelationships rel MoreSpecific else Disjoint)"
| "compare_loop m1 m2 rel (s # ss) (t # ts) =
     (let rel' = combineRelationships rel (compareSegments s t)
      in if rel' = Disjoint then Disjoint else compare_loop m1 m2 rel' ss ts)"

definition comparePaths :: "pattern \<Rightarrow> pattern \<Rightarrow> relationship" where
  "comparePaths p1 p2 =
     (let m1 = is_multi (last (psegments p1)); m2 = is_multi (last (psegments p2)) in
      if length (psegments p1) \<noteq> length (psegments p2) \<and> \<not> m1 \<and> \<not> m2 then Disjoint
      else compare_loop m1 m2 Equivalent (psegments p1) (psegments p2))"

definition conflictsWith :: "pattern \<Rightarrow> pattern \<Rightarrow> bool" where
  "conflictsWith p1 p2 \<longleftrightarrow>
     phost p1 = phost p2 \<and>
     (let rel = combineRelationships (compareMethods p1 p2) (comparePaths p1 p2)
      in rel = Equivalent \<or> rel = Overlaps)"

section \<open>Matching\<close>

text \<open>The first segment of a path, which is \<open>/\<close> for a trailing slash, and the path after it.\<close>

definition firstSegment :: "string \<Rightarrow> string \<times> string" where
  "firstSegment path =
     (if path = ''/'' then (''/'', [])
      else (pathUnescape (takeWhile (\<lambda>c. c \<noteq> slash) (tl path)), dropWhile (\<lambda>c. c \<noteq> slash) (tl path)))"

fun match_segments :: "segment list \<Rightarrow> string \<Rightarrow> bool" where
  "match_segments [] path \<longleftrightarrow> path = []"
| "match_segments (Multi nm # segs) path \<longleftrightarrow> path \<noteq> []"
| "match_segments (Wild nm # segs) path \<longleftrightarrow>
     path \<noteq> [] \<and> (case firstSegment path of (seg, rest) \<Rightarrow> seg \<noteq> ''/'' \<and> match_segments segs rest)"
| "match_segments (Literal s # segs) path \<longleftrightarrow>
     path \<noteq> [] \<and> (case firstSegment path of (seg, rest) \<Rightarrow> seg = s \<and> match_segments segs rest)"

definition match_method :: "string \<Rightarrow> string \<Rightarrow> bool" where
  "match_method pm m \<longleftrightarrow> pm = [] \<or> pm = m \<or> pm = ''GET'' \<and> m = ''HEAD''"

definition matches_request :: "pattern \<Rightarrow> string \<Rightarrow> string \<Rightarrow> string \<Rightarrow> bool" where
  "matches_request p host m path \<longleftrightarrow>
     (phost p = [] \<or> phost p = host) \<and> match_method (pmethod p) m \<and> match_segments (psegments p) path"

text \<open>A match of a trailing slash is exact when the wildcard stands for nothing.\<close>

definition exactMatch :: "pattern \<Rightarrow> string \<Rightarrow> bool" where
  "exactMatch p path \<longleftrightarrow>
     \<not> is_multi (last (psegments p)) \<or>
     (path \<noteq> [] \<longrightarrow> last path = slash) \<and>
     length (psegments p) = length (filter (\<lambda>c. c = slash) path)"

end
