(* ===== verification/Exporter_Main.thy ===== *)
theory Exporter_Main
  imports Collector_Client Collector_LNet Scrape Http_Mux
begin

text \<open>
  \<^verbatim>\<open>cmd/lustre_client_exporter/main.go\<close>: the configuration, its validation and the choice of the
  collectors, and the common interface of the five collectors (\<^verbatim>\<open>collector.Collector\<close>).  The command
  line is in the theory \<open>Flags\<close>; the HTTP server is represented by the outcome of \<open>ListenAndServe\<close>.
\<close>

section \<open>Configuration\<close>

text \<open>A \<open>time.Duration\<close> is a number of nanoseconds.\<close>

record Config =
  ListenAddress :: string
  TelemetryPath :: string
  WebConfigFile :: string
  CollectorClient :: bool
  CollectorLNet :: bool
  CollectorHealth :: bool
  CollectorSptlrpc :: bool
  CollectorLpcc :: bool
  LNetSourceName :: string
  ScrapeTimeout :: int
  SourceTimeout :: int
  Strict :: bool
  RootFS :: string
  ProcFSPath :: string
  SysFSPath :: string
  DebugFSPath :: string
  LNetCtl :: string
  LpccBinPath :: string
  LogLevel :: string
  ShowVersion :: bool

definition second :: int where
  "second = 1000000000"

text \<open>The values of the flags when the command line sets none.\<close>

definition default_flags :: Config where
  "default_flags =
     \<lparr>ListenAddress = '':9169'', TelemetryPath = ''/metrics'', WebConfigFile = [],
      CollectorClient = True, CollectorLNet = True, CollectorHealth = True, CollectorSptlrpc = True,
      CollectorLpcc = False, LNetSourceName = ''auto'', ScrapeTimeout = 30 * second,
      SourceTimeout = 10 * second, Strict = False, RootFS = ''/'', ProcFSPath = ''/proc'',
      SysFSPath = ''/sys'', DebugFSPath = ''/sys/kernel/debug'', LNetCtl = ''lnetctl'',
      LpccBinPath = ''lpcc'', LogLevel = ''info'', ShowVersion = False\<rparr>"

datatype log_level = LevelDebug | LevelInfo | LevelWarn | LevelError

definition setupLogger :: "string \<Rightarrow> log_level" where
  "setupLogger level =
     (if level = ''debug'' then LevelDebug
      else if level = ''warn'' then LevelWarn
      else if level = ''error'' then LevelError
      else LevelInfo)"

definition validateConfig :: "Config \<Rightarrow> go_error option" where
  "validateConfig cfg =
     (if WebConfigFile cfg \<noteq> [] then
        Some (Errorf ''-web.config.file is not supported by this build'' [] [])
      else if LNetSourceName cfg = ''auto'' \<or> LNetSourceName cfg = ''debugfs'' \<or>
              LNetSourceName cfg = ''lnetctl'' then None
      else Some (Errorf ''invalid -collector.lnet.source %q: expected auto, debugfs, or lnetctl''
                   [ArgS (LNetSourceName cfg)] []))"

section \<open>The collectors\<close>

datatype collector =
    CHealth HealthCollector
  | CSptlrpc SptlrpcCollector
  | CLNet LNetCollector
  | CClient ClientCollector
  | CLpcc LpccCollector

text \<open>The third-party functions the collectors use, and the order in which the map of LPCC is iterated.\<close>

record ('d, 'm) environment =
  prom :: "('d, 'm) prometheus"
  decoders :: lnetctl_decoders
  lpcc_order :: "lpccStatusOutput \<Rightarrow> lpccStatusOutput"

definition collector_name :: "collector \<Rightarrow> string" where
  "collector_name c =
     (case c of
        CHealth h \<Rightarrow> Health_Name h | CSptlrpc s \<Rightarrow> Sptlrpc_Name s | CLNet l \<Rightarrow> LNet_Name l
      | CClient k \<Rightarrow> Client_Name k | CLpcc p \<Rightarrow> Lpcc_Name p)"

definition ScrapeSource :: "collector \<Rightarrow> string" where
  "ScrapeSource c =
     (case c of
        CHealth h \<Rightarrow> Health_ScrapeSource h | CSptlrpc s \<Rightarrow> Sptlrpc_ScrapeSource s | CLNet l \<Rightarrow> LNet_ScrapeSource l
      | CClient k \<Rightarrow> Client_ScrapeSource k | CLpcc p \<Rightarrow> Lpcc_ScrapeSource p)"

definition Collect :: "('d, 'm) environment \<Rightarrow> collector \<Rightarrow> 'd cache \<Rightarrow> 'm list result \<times> 'd cache" where
  "Collect env c cache =
     (case c of
        CHealth h \<Rightarrow> Health_Collect (prom env) h cache
      | CSptlrpc s \<Rightarrow> Sptlrpc_Collect (prom env) s cache
      | CLNet l \<Rightarrow> LNet_Collect (prom env) (decoders env) l cache
      | CClient k \<Rightarrow> Client_Collect (prom env) k cache
      | CLpcc p \<Rightarrow> Lpcc_Collect (prom env) (lpcc_order env) p cache)"

definition recorded_sources :: "('d, 'm) environment \<Rightarrow> collector \<Rightarrow> string list" where
  "recorded_sources env c =
     (case c of CLNet l \<Rightarrow> fst (lnet_stats_observations (decoders env) l) | _ \<Rightarrow> [])"

text \<open>A run of a collector in a scrape, with the cache it starts from and the time it takes.\<close>

definition run_collector ::
  "('d, 'm) environment \<Rightarrow> 'd cache \<Rightarrow> float64 \<Rightarrow> collector \<Rightarrow> 'm collector_run" where
  "run_collector env cache d c =
     \<lparr>cname = collector_name c, scrape_source = Some (ScrapeSource c),
      recorded = recorded_sources env c, outcome = fst (Collect env c cache), duration = d\<rparr>"

section \<open>run\<close>

definition lnetSource :: "string \<Rightarrow> LNetSource" where
  "lnetSource nm =
     (if nm = ''debugfs'' then LNetSourceDebugFS
      else if nm = ''lnetctl'' then LNetSourceLNetCtl
      else LNetSourceAuto)"

definition path_config :: "Config \<Rightarrow> PathConfig" where
  "path_config cfg = \<lparr>ProcFS = ProcFSPath cfg, SysFS = SysFSPath cfg, DebugFS = DebugFSPath cfg\<rparr>"

text \<open>\<open>mk root\<close> is the reader for a root file system, \<open>NewFSReader\<close> in the code.\<close>

definition collectors_of :: "Config \<Rightarrow> (string \<Rightarrow> reader) \<Rightarrow> collector list" where
  "collectors_of cfg mk =
     (let pathCfg = path_config cfg; r = mk (RootFS cfg) in
      (if CollectorHealth cfg then [CHealth (NewHealthCollector r pathCfg)] else []) @
      (if CollectorSptlrpc cfg then [CSptlrpc (NewSptlrpcCollector r pathCfg)] else []) @
      (if CollectorLNet cfg
       then [CLNet (NewLNetCollector r pathCfg (lnetSource (LNetSourceName cfg)) (LNetCtl cfg))] else []) @
      (if CollectorClient cfg
       then [CClient (NewClientCollectorWithStrict r pathCfg (Strict cfg))] else []) @
      (if CollectorLpcc cfg then [CLpcc (NewLpccCollector r (LpccBinPath cfg))] else []))"

text \<open>The registry, with the totals of the scrapes so far.\<close>

record registry =
  rcollectors :: "collector list"
  rscrapeTimeout :: int
  rsourceTimeout :: int
  rstrict :: bool
  rdurations :: totals

definition NewRegistryWithStrict :: "int \<Rightarrow> int \<Rightarrow> bool \<Rightarrow> collector list \<Rightarrow> registry" where
  "NewRegistryWithStrict scrape source st cs =
     \<lparr>rcollectors = cs, rscrapeTimeout = scrape, rsourceTimeout = source, rstrict = st, rdurations = Map.empty\<rparr>"

definition NewRegistry :: "int \<Rightarrow> int \<Rightarrow> collector list \<Rightarrow> registry" where
  "NewRegistry scrape source cs = NewRegistryWithStrict scrape source False cs"

datatype run_result =
    Exit int
  | Panic
  | Serve string string registry

text \<open>
  \<open>run\<close> up to the point where it serves: the address, the telemetry path and the registry.  The telemetry
  path and \<open>/\<close> are registered with the same \<open>http.ServeMux\<close>, which panics when it cannot parse a pattern
  and when it conflicts with one before.  \<open>exit_code\<close> adds what \<open>ListenAndServe\<close> returns; a Go program
  that panics exits with 2.
\<close>

definition root_pattern :: pattern where
  "root_pattern = \<lparr>pmethod = [], phost = [], psegments = [Multi []]\<rparr>"

definition mux_panics :: "string \<Rightarrow> bool" where
  "mux_panics path \<longleftrightarrow>
     (case parsePattern path of None \<Rightarrow> True | Some p \<Rightarrow> conflictsWith root_pattern p)"

definition run :: "Config \<Rightarrow> (string \<Rightarrow> reader) \<Rightarrow> run_result" where
  "run cfg mk =
     (if ShowVersion cfg then Exit 0
      else
        (case validateConfig cfg of
           Some err \<Rightarrow> Exit 1
         | None \<Rightarrow>
             if mux_panics (TelemetryPath cfg) then Panic
             else Serve (ListenAddress cfg) (TelemetryPath cfg)
                    (NewRegistryWithStrict (ScrapeTimeout cfg) (SourceTimeout cfg) (Strict cfg)
                       (collectors_of cfg mk))))"

definition exit_code :: "run_result \<Rightarrow> go_error option \<Rightarrow> int" where
  "exit_code rr served =
     (case rr of Exit n \<Rightarrow> n | Panic \<Rightarrow> 2 | Serve _ _ _ \<Rightarrow> (case served of Some err \<Rightarrow> 1 | None \<Rightarrow> 0))"

section \<open>The interface of the collectors\<close>

text \<open>
  The only series the client library rejects are those with the wrong number of label values or with
  a label value that is not valid (\<open>valid\<close>: UTF-8); this is the documented behaviour of
  \<open>prometheus.NewConstMetric\<close> on a descriptor with valid names.
\<close>

definition rejects_only_invalid :: "('d, 'm) prometheus \<Rightarrow> (string \<Rightarrow> bool) \<Rightarrow> bool" where
  "rejects_only_invalid p valid \<longleftrightarrow>
     (\<forall>i d vt v ls. Registry i = Some d \<longrightarrow>
        is_ok (NewConstMetric p (desc_of (NewDesc p) d) vt v ls) =
          (length ls = length (LabelKeys d) \<and> list_all valid ls))"

definition valid_labels :: "(string \<Rightarrow> bool) \<Rightarrow> observation \<Rightarrow> bool" where
  "valid_labels valid ob \<longleftrightarrow> (\<forall>v \<in> ran (Labels ob). valid v)"

lemma is_ok_bind_collect:
  "is_ok (bind_res (collect_all f xs) (collect_all g)) \<longleftrightarrow>
     (\<forall>x \<in> set xs. is_ok (bind_res (f x) (collect_all g)))"
proof (induction xs)
  case (Cons x xs)
  show ?case
  proof (cases "f x")
    case (Inr ys)
    with Cons.IH show ?thesis
      by (cases "collect_all f xs") (auto simp: is_ok_collect_all)
  qed simp
qed simp

lemma label_vals_ran:
  assumes "dom ls = set ks"
  shows "set (map (label_val ls) ks) = ran ls"
proof -
  have "label_val ls k = the (ls k)" if "k \<in> set ks" for k
    using that assms by (auto simp: label_val_def split: option.split)
  then have "set (map (label_val ls) ks) = (\<lambda>k. the (ls k)) ` dom ls" unfolding assms by auto
  also have "\<dots> = ran ls" by (force simp: ran_def dom_def image_def)
  finally show ?thesis .
qed

lemma is_ok_emit_one:
  "is_ok (emit_one mkd mkm m) =
     is_ok (mkm (desc_of mkd (Def m)) (vt_of (Type (Def m))) (MValue m) (LabelVals m))"
  by (cases "mkm (desc_of mkd (Def m)) (vt_of (Type (Def m))) (MValue m) (LabelVals m)")
     (simp_all add: emit_one_def)

lemma emit_ok:
  assumes "rejects_only_invalid p valid" "conforms ob"
  shows "is_ok (bind_res (map_observation ob) (collect_all (emit_one (NewDesc p) (NewConstMetric p)))) =
           valid_labels valid ob"
proof -
  from assms(2) obtain d where d: "Registry (MetricID ob) = Some d" "dom (Labels ob) = set (LabelKeys d)"
    by (auto simp: conforms_def split: option.splits)
  let ?m = "\<lparr>Def = d, LabelVals = map (label_val (Labels ob)) (LabelKeys d), MValue = Value ob\<rparr>"
  have "is_ok (NewConstMetric p (desc_of (NewDesc p) d) (vt_of (Type d)) (Value ob) (LabelVals ?m)) =
      list_all valid (LabelVals ?m)"
    using assms(1) d(1) unfolding rejects_only_invalid_def by simp
  then have "is_ok (emit_one (NewDesc p) (NewConstMetric p) ?m) = list_all valid (LabelVals ?m)"
    unfolding is_ok_emit_one by simp
  also have "\<dots> = valid_labels valid ob"
    by (simp only: list_all_iff valid_labels_def label_vals_ran [OF d(2)] mapped_observation.simps)
  finally show ?thesis using d(1) by (simp add: map_observation_def is_ok_collect_all del: collect_all.simps)
qed

lemma published_ok:
  assumes "rejects_only_invalid p valid" "all_conform os"
  shows "is_ok (published (NewDesc p) (NewConstMetric p) os) = list_all (valid_labels valid) os"
  using emit_ok [OF assms(1)] assms(2)
  by (simp add: published_def Map_def is_ok_bind_collect all_conform_def list_all_iff)

text \<open>
  What the registry relies on: a collector gathers observations of the contract and publishes them,
  so its metrics do not depend on the descriptor cache or on the other collectors, and it fails only
  when gathering fails or the client library rejects a series.
\<close>

locale metric_collector =
  fixes gather :: "'c \<Rightarrow> observation list result"
    and collect :: "('d, 'm) prometheus \<Rightarrow> 'c \<Rightarrow> 'd cache \<Rightarrow> 'm list result \<times> 'd cache"
  assumes gathers: "gather c = Inr os \<Longrightarrow> all_conform os"
    and publishes: "collect p c cache = collect_metrics p cache (gather c)"
begin

lemma collect_uncached:
  "prometheus_ok p \<Longrightarrow> cache_ok (NewDesc p) cache \<Longrightarrow>
     fst (collect p c cache) = metrics_of p (gather c) \<and>
     cache_ok (NewDesc p) (snd (collect p c cache))"
  by (simp add: publishes collect_metrics_uncached)

lemma collect_ok:
  assumes "prometheus_ok p" "cache_ok (NewDesc p) cache" "rejects_only_invalid p valid"
  shows "is_ok (fst (collect p c cache)) \<longleftrightarrow>
           (case gather c of Inl err \<Rightarrow> False | Inr os \<Rightarrow> list_all (valid_labels valid) os)"
  using collect_uncached [OF assms(1,2), of c] published_ok [OF assms(3) gathers]
  by (simp add: metrics_of_def split: sum.split)

end

interpretation health_metrics: metric_collector health_observations Health_Collect
  by unfold_locales (auto simp: Health_Collect_def health_collector.conforming)

interpretation sptlrpc_metrics: metric_collector sptlrpc_observations Sptlrpc_Collect
  by unfold_locales (auto simp: Sptlrpc_Collect_def sptlrpc_collector.conforming)

interpretation lnet_metrics: metric_collector "lnet_observations dec" "\<lambda>p. LNet_Collect p dec" for dec
  by unfold_locales (auto simp: LNet_Collect_def lnet_collector.conforming)

interpretation client_metrics: metric_collector client_observations Client_Collect
  by unfold_locales (auto simp: Client_Collect_def client_collector.conforming)

text \<open>The LPCC collector gathers nothing when its command fails.\<close>

definition lpcc_gather ::
  "(lpccStatusOutput \<Rightarrow> lpccStatusOutput) \<Rightarrow> LpccCollector \<Rightarrow> observation list result" where
  "lpcc_gather order c =
     (case RunCommand (lreader c) (lpccBin c) [''status''] of
        Inl err \<Rightarrow> Inr []
      | Inr data \<Rightarrow> lpcc_observations order data)"

lemma collect_metrics_Nil: "collect_metrics p cache (Inr []) = (Inr [], cache)"
  by (simp add: collect_metrics_def publish_def Map_def)

interpretation lpcc_metrics: metric_collector "lpcc_gather order" "\<lambda>p. Lpcc_Collect p order" for order
  by unfold_locales
     (auto simp: lpcc_gather_def Lpcc_Collect_def collect_metrics_Nil lpcc_collector.conforming
        split: sum.splits)

definition gather :: "('d, 'm) environment \<Rightarrow> collector \<Rightarrow> observation list result" where
  "gather env c =
     (case c of
        CHealth h \<Rightarrow> health_observations h
      | CSptlrpc s \<Rightarrow> sptlrpc_observations s
      | CLNet l \<Rightarrow> lnet_observations (decoders env) l
      | CClient k \<Rightarrow> client_observations k
      | CLpcc p \<Rightarrow> lpcc_gather (lpcc_order env) p)"

interpretation any_collector: metric_collector "gather env"
  "\<lambda>p. Collect (env\<lparr>prom := p\<rparr>)" for env :: "('d, 'm) environment"
proof unfold_locales
  fix c os
  assume "gather env c = Inr os"
  then show "all_conform os"
    by (cases c) (auto simp: gather_def health_collector.conforming sptlrpc_collector.conforming
        lnet_collector.conforming client_collector.conforming lpcc_metrics.gathers)
next
  fix p c and cache :: "'d cache"
  show "Collect (env\<lparr>prom := p\<rparr>) c cache = collect_metrics p cache (gather env c)"
    by (cases c) (simp_all add: Collect_def gather_def health_metrics.publishes
        sptlrpc_metrics.publishes lnet_metrics.publishes client_metrics.publishes
        lpcc_metrics.publishes)
qed

end
