(* ===== verification/Client_Targets.thy ===== *)
theory Client_Targets
  imports Collector_Client
begin

text \<open>
  What the client collector guarantees of the series of a scrape: its sources are independent of each
  other when it is not strict, a strict run only ever turns a result into an error, and every
  observation of a target carries the name of the target, so targets with different names never
  produce the same series.
\<close>

section \<open>Labels of the observations of a target\<close>

definition of_target :: "string \<Rightarrow> observation \<Rightarrow> bool" where
  "of_target tgt ob \<longleftrightarrow> Labels ob ''component'' = Some ''client'' \<and> Labels ob ''target'' = Some tgt"

lemma of_target_obs [simp]:
  "of_target tgt (obs col src mid mt ls v) \<longleftrightarrow>
     ls ''component'' = Some ''client'' \<and> ls ''target'' = Some tgt"
  by (simp add: of_target_def)

definition all_of :: "string \<Rightarrow> observation list \<Rightarrow> bool" where
  "all_of tgt os = list_all (of_target tgt) os"

lemma all_of_simps [simp]:
  "all_of tgt []" "all_of tgt (ob # os) \<longleftrightarrow> of_target tgt ob \<and> all_of tgt os"
  "all_of tgt (os @ os') \<longleftrightarrow> all_of tgt os \<and> all_of tgt os'"
  by (simp_all add: all_of_def)

lemma all_of_collect:
  assumes "collect_all f xs = Inr os" and "\<And>x ys. f x = Inr ys \<Longrightarrow> all_of tgt ys"
  shows "all_of tgt os"
  unfolding all_of_def list_all_iff
proof
  fix ob
  assume ob: "ob \<in> set os"
  show "of_target tgt ob"
    by (rule collect_all_invariant [OF assms(1) _ ob])
       (use assms(2) in \<open>auto simp: all_of_def list_all_iff\<close>)
qed

named_theorems labelled \<open>parsers whose observations carry the name of the target\<close>

lemma bytes_labelled [labelled]: "parseBytesStat fs source ''client'' tgt = Inr os \<Longrightarrow> all_of tgt os"
  by (auto simp: parseBytesStat_def Let_def res_iff client_labels_def split: if_splits)

lemma operation_labelled [labelled]: "parseOperationStat fs source ''client'' tgt = Inr os \<Longrightarrow> all_of tgt os"
  by (auto simp: parseOperationStat_def res_iff client_labels_def split: if_splits)

lemma llite_line_labelled: "llite_line source ''client'' tgt l = Inr os \<Longrightarrow> all_of tgt os"
  by (auto simp: llite_line_def Let_def res_iff labelled split: if_splits)

lemma llite_labelled [labelled]: "ParseLLiteStats d source ''client'' tgt = Inr os \<Longrightarrow> all_of tgt os"
  unfolding ParseLLiteStats_def by (erule all_of_collect) (rule llite_line_labelled)

lemma obd_line_labelled: "obd_line source ''client'' tgt ty l = Inr os \<Longrightarrow> all_of tgt os"
  by (auto simp: obd_line_def parseOBDStatLine_def Let_def res_iff client_labels_def labelled
      split: if_splits option.splits)

lemma obd_labelled [labelled]: "ParseOBDStats d source ''client'' tgt ty = Inr os \<Longrightarrow> all_of tgt os"
  unfolding ParseOBDStats_def by (erule all_of_collect) (rule obd_line_labelled)

lemma llite_single_labelled [labelled]:
  "ParseLLiteSingleFile d source nm ''client'' tgt = Inr os \<Longrightarrow> all_of tgt os"
  by (auto simp: ParseLLiteSingleFile_def res_iff client_labels_def split: option.splits)

lemma client_single_labelled [labelled]:
  "ParseClientSingleFile d source nm ''client'' tgt ty = Inr os \<Longrightarrow> all_of tgt os"
  by (auto simp: ParseClientSingleFile_def Let_def res_iff client_labels_def split: option.splits)

lemma client_state_labelled [labelled]:
  "ParseClientState d source ''client'' tgt ty = Inr os \<Longrightarrow> all_of tgt os"
  by (auto simp: ParseClientState_def Let_def client_labels_def split: if_splits)

lemma all_of_map: "(\<And>x. of_target tgt (f x)) \<Longrightarrow> all_of tgt (map f xs)"
  by (simp add: all_of_def list_all_iff)

lemma rpc_bucket_labelled: "parseRPCLine line source ''client'' tgt ty sec opn = Inr os \<Longrightarrow> all_of tgt os"
  by (cases "rpcSectionMetric sec")
     (auto simp: parseRPCLine_def Let_def res_iff bucket_labels_def split: if_splits
        intro!: all_of_map)

lemma rpc_step_labelled: "snd (rpc_step source ''client'' tgt ty s l) = Inr os \<Longrightarrow> all_of tgt os"
  by (auto simp: rpc_step_def Let_def res_iff scalar_obs_def rpc_bucket_labelled
      split: if_splits prod.splits option.splits)

lemma rpc_loop_labelled: "rpc_loop source ''client'' tgt ty s ls = Inr os \<Longrightarrow> all_of tgt os"
proof (induction ls arbitrary: s os)
  case (Cons l ls)
  then show ?case
    using rpc_step_labelled [of source tgt ty s l] by (auto split: prod.splits sum.splits)
qed simp

lemma rpc_labelled [labelled]: "ParseRPCStats d source ''client'' tgt ty = Inr os \<Longrightarrow> all_of tgt os"
  unfolding ParseRPCStats_def by (rule rpc_loop_labelled)

lemma single_file_labelled: "llite_single_file c t nm = Inr os \<Longrightarrow> all_of (TName t) os"
  by (auto simp: llite_single_file_def labelled split: sum.splits if_splits)

lemma param_file_labelled: "client_param_file c t nm = Inr os \<Longrightarrow> all_of (TName t) os"
  by (auto simp: client_param_file_def parseClientParamFile_def labelled split: sum.splits if_splits)

lemma strictError_labelled: "strictError st err = Inr os \<Longrightarrow> all_of tgt os"
  by (simp add: strictError_def split: if_splits)

lemma llite_target_labelled: "collectLLite c t = Inr os \<Longrightarrow> all_of (TName t) os"
  unfolding collectLLite_def bind_res_Inr_iff
  by (auto simp: labelled all_of_collect [OF _ single_file_labelled])

lemma obd_stats_labelled: "collectOBDStats c t = Inr os \<Longrightarrow> all_of (TName t) os"
  by (auto simp: collectOBDStats_def labelled strictError_labelled split: sum.splits if_splits)

lemma rpc_stats_labelled: "collectRPCStats c t = Inr os \<Longrightarrow> all_of (TName t) os"
  by (auto simp: collectRPCStats_def labelled strictError_labelled split: sum.splits if_splits)

lemma rpc_target_labelled: "collectRPC c t = Inr os \<Longrightarrow> all_of (TName t) os"
  unfolding collectRPC_def collectClientParams_def bind_res_Inr_iff
  by (auto simp: obd_stats_labelled rpc_stats_labelled all_of_collect [OF _ param_file_labelled])

lemma target_labelled: "collectTarget c t = Inr os \<Longrightarrow> all_of (TName t) os"
  by (auto simp: collectTarget_def llite_target_labelled rpc_target_labelled strictError_labelled
      split: sum.splits if_splits)

section \<open>Properties\<close>

text \<open>
  Targets with different names never produce the same series: whatever their files hold, the labels of
  an observation of one differ from those of every observation of the other.
\<close>

lemma targets_never_collide:
  assumes "collectTarget c t = Inr os" "collectTarget c t' = Inr os'" "TName t \<noteq> TName t'"
    and "ob \<in> set os" "ob' \<in> set os'"
  shows "Labels ob \<noteq> Labels ob'"
proof -
  have "of_target (TName t) ob" "of_target (TName t') ob'"
    using assms target_labelled [OF assms(1)] target_labelled [OF assms(2)]
    by (auto simp: all_of_def list_all_iff)
  with assms(3) show ?thesis by (auto simp: of_target_def)
qed

text \<open>A client with two \<open>osc\<close> targets that have only a state file.\<close>

definition demo_files :: reader where
  "demo_files =
     \<lparr>ReadFile = (\<lambda>p. if p = ''/a/state'' \<or> p = ''/b/state'' then Inr ''FULL'' else Inl NotExist),
      Glob = (\<lambda>p. Inr []), RunCommand = (\<lambda>c args. Inl NotExist)\<rparr>"

definition demo_client :: ClientCollector where
  "demo_client = \<lparr>creader = demo_files, cpathCfg = DefaultPathConfig, strict = True\<rparr>"

definition demo_target :: "string \<Rightarrow> ClientTarget" where
  "demo_target nm =
     \<lparr>Component = ''osc'', TName = nm, StatsPath = [], RpcStatsPath = [], BasePath = ''/'' @ nm,
      ParamRoots = [''/'' @ nm]\<rparr>"

definition demo_state :: "string \<Rightarrow> observation" where
  "demo_state nm =
     obs ''client'' (''/'' @ nm @ ''/state'') ''target_state'' Gauge
       [''component'' \<mapsto> ''client'', ''target'' \<mapsto> nm, ''type'' \<mapsto> ''osc'', ''state'' \<mapsto> ''FULL'']
       (f_of_int 1)"

lemma demo_state_parse: "observed_state ''FULL'' = ''FULL''"
  by code_simp

lemma demo_collect:
  "collectTarget demo_client (demo_target ''a'') = Inr [demo_state ''a'']"
  "collectTarget demo_client (demo_target ''b'') = Inr [demo_state ''b'']"
  by (simp_all add: collectTarget_def collectRPC_def collectOBDStats_def collectRPCStats_def
      collectClientParams_def client_param_file_def parseClientParamFile_def ParseClientState_def
      demo_state_parse clientParamFiles_def oscParamFiles_def readParamFile_def demo_client_def
      demo_target_def demo_files_def demo_state_def client_labels_def path_eval)

lemma targets_never_collide_witness: "Labels (demo_state ''a'') \<noteq> Labels (demo_state ''b'')"
  by (rule targets_never_collide [OF demo_collect]) (simp_all add: demo_target_def)

text \<open>
  C11: A client collector that is not strict never fails, and whenever the strict one succeeds it yields exactly
  what the other does: strict mode only turns results into errors.
\<close>

theorem strict_only_adds_errors:
  "is_ok (run_client False c) \<and>
   (case run_client True c of Inl err \<Rightarrow> True | Inr os \<Rightarrow> run_client False c = Inr os)"
  using client_run.never_fails client_run.strict_agrees by (auto split: sum.split)

text \<open>
  C12: A strict client collector succeeds exactly when the LDLM file, if it can be read, parses, and every
  discovered target is sound: its stats file can be read and parsed, its \<open>rpc_stats\<close> file is absent or
  can be read and parsed, and each of its parameter files that can be read parses.  Parameter files
  that cannot be read are no error, even in strict mode.
\<close>

theorem strict_success:
  "is_ok (run_client True c) \<longleftrightarrow>
     is_ok (collectLDLMCBD c) \<and>
     list_all (target_sound c) (targets (discover_index (creader c) (cpathCfg c)))"
  by (rule run_client_ok) (simp add: DiscoverClients_def)

text \<open>
  C13: A client collector that is not strict treats the sources of an \<open>mdc\<close> or \<open>osc\<close> target independently: it
  yields the observations of each source that can be read and parsed, in a fixed order, whatever
  happens to the others.
\<close>

theorem sources_independent:
  assumes "Component t = ''mdc'' \<or> Component t = ''osc''"
  shows "collectTarget (c\<lparr>strict := False\<rparr>) t = Inr (rpc_target_obs c t)"
  using assms by (auto simp: collectTarget_def rpc_target_value)

lemma sources_independent_witness:
  "collectTarget (demo_client\<lparr>strict := False\<rparr>) (demo_target ''a'') =
     Inr (rpc_target_obs demo_client (demo_target ''a''))"
  by (rule sources_independent) (simp add: demo_target_def)

end
