(* ===== verification/Exporter.thy ===== *)
theory Exporter
  imports Exporter_Main Client_Targets
begin

text \<open>
  The exporter as a whole: a scrape of the collectors that the configuration enables, from what their
  sources hold to what the registry sends.
\<close>

section \<open>A scrape of the configured collectors\<close>

text \<open>\<open>cache c\<close> is the descriptor cache when collector \<open>c\<close> starts to emit, \<open>dur c\<close> the time it takes.\<close>

definition exporter_runs ::
  "('d, 'm) environment \<Rightarrow> (collector \<Rightarrow> 'd cache) \<Rightarrow> (collector \<Rightarrow> float64) \<Rightarrow> collector list \<Rightarrow>
     'm collector_run list" where
  "exporter_runs env cache dur cs = map (\<lambda>c. run_collector env (cache c) (dur c) c) cs"

lemma collector_names:
  "map collector_name (collectors_of cfg mk) =
     (if CollectorHealth cfg then [''health''] else []) @
     (if CollectorSptlrpc cfg then [''sptlrpc''] else []) @
     (if CollectorLNet cfg then [''lnet''] else []) @
     (if CollectorClient cfg then [''client''] else []) @
     (if CollectorLpcc cfg then [''lpcc''] else [])"
  by (simp add: collectors_of_def Let_def collector_name_def)

lemma distinct_names: "distinct (map collector_name (collectors_of cfg mk))"
  unfolding collector_names by auto

lemma exporter_cname [simp]: "map cname (exporter_runs env cache dur cs) = map collector_name cs"
  by (simp add: exporter_runs_def run_collector_def comp_def)

section \<open>The series of the registry\<close>

text \<open>What identifies a series that the registry itself sends.\<close>

definition own_series :: "'m metric \<Rightarrow> (string \<times> string list) list" where
  "own_series m = (case own_call m of None \<Rightarrow> [] | Some (d, vs) \<Rightarrow> [(fqName d, vs)])"

lemma own_series_simps [simp]:
  "own_series (SuccessMetric c v) = [(''lustre_scrape_collector_success'', [c])]"
  "own_series (DurationMetric c v) = [(''lustre_scrape_collector_duration_seconds'', [c])]"
  "own_series (SummaryMetric n v s r) = [(''lustre_exporter_scrape_duration_seconds'', [s, r])]"
  "own_series (Collected m) = []"
  "own_series (InvalidMetric e) = []"
  by (simp_all add: own_series_def scrapeSuccessDesc_def scrapeDurationDesc_def exporterScrapeDurationDesc_def)

lemma sends_own_series:
  "concat (map own_series (goroutine_sends st c)) =
     [(''lustre_scrape_collector_success'', [cname c]), (''lustre_scrape_collector_duration_seconds'', [cname c])]"
  by (simp add: goroutine_sends_def comp_def split: sum.split)

definition summary_label :: "scrapeDurationKey \<Rightarrow> string \<times> string list" where
  "summary_label k = (''lustre_exporter_scrape_duration_seconds'', [key_source k, key_result k])"

lemma summary_series:
  "concat (map own_series (map summary_metric ms)) =
     map (\<lambda>kt. summary_label (fst kt)) ms"
  by (induction ms) (auto simp: summary_metric_def summary_label_def)

lemma distinct_two_per:
  assumes "distinct xs" "a \<noteq> b"
  shows "distinct (concat (map (\<lambda>x. [(a, [x]), (b, [x])]) xs))"
  using assms by (induction xs) auto

text \<open>
  A scrape of the exporter sends each series of its own at most once, whatever the schedule: one success
  gauge and one duration gauge for each collector and one summary for each source and result.  The
  client library rejects a scrape with a duplicate series.
\<close>

lemma own_series_distinct:
  assumes "cs = exporter_runs env cache dur (collectors_of cfg mk)"
    and "run_schedule cs sched (start st cs) = Some s" "all_done s"
  shows "distinct (concat (map own_series (fst (Registry_Collect s r))))"
proof -
  note re = schedule_reachable [OF reach_start assms(2)]
  obtain ms r' where obs: "observeScrapeDurations (durations s) r = (ms, r')" by fastforce
  let ?sent = "concat (map own_series (map snd (channel s)))"
  let ?ks = "\<lambda>kt. summary_label (fst kt)"
  have out: "concat (map own_series (fst (Registry_Collect s r))) = ?sent @ map ?ks ms"
    unfolding Registry_Collect_def obs by (simp add: summary_series del: map_map)
  have "mset ?sent = mset (concat (map (\<lambda>c. concat (map own_series (goroutine_sends st c))) cs))"
    unfolding mset_concat_map_cong [OF done_messages [OF re assms(3)]] concat_map_concat
    by (simp add: comp_def)
  then have sent: "mset ?sent = mset (concat (map (\<lambda>n. [(''lustre_scrape_collector_success'', [n]),
      (''lustre_scrape_collector_duration_seconds'', [n])]) (map cname cs)))"
    by (simp add: sends_own_series comp_def)
  have "distinct (map cname cs)" unfolding assms(1) exporter_cname by (rule distinct_names)
  then have "distinct ?sent"
    unfolding mset_eq_imp_distinct_iff [OF sent] by (rule distinct_two_per) simp
  moreover have "distinct (map ?ks ms)"
  proof -
    have "map fst ms = sort (map fst (durations s))"
      using observe_spec [of "durations s" r] done_keys [OF re assms(3)] obs
      by (simp add: comp_def)
    then have "distinct (map fst ms)" using done_keys [OF re assms(3)] by simp
    moreover have "inj_on summary_label A" for A
      by (rule inj_onI) (auto simp: summary_label_def intro: scrapeDurationKey.expand)
    ultimately have "distinct (map summary_label (map fst ms))" by (simp only: distinct_map)
    then show ?thesis by (simp only: map_map comp_def)
  qed
  moreover have "set ?sent \<inter> set (map ?ks ms) = {}"
    using mset_eq_setD [OF sent] by (auto simp: summary_label_def)
  ultimately show ?thesis unfolding out by simp
qed

text \<open>An exporter with the LPCC collector only, whose command cannot be run.\<close>

definition demo_environment ::
  "(string \<times> string \<times> string list, (string \<times> string \<times> string list) \<times> value_type \<times> float64 \<times> string list) environment" where
  "demo_environment =
     \<lparr>prom = \<lparr>NewDesc = demo_desc, NewConstMetric = demo_metric, others = \<lambda>n. demo_others\<rparr>,
      decoders = demo_decoders, lpcc_order = rev\<rparr>"

definition demo_config :: Config where
  "demo_config = default_flags\<lparr>CollectorClient := False, CollectorLNet := False,
     CollectorHealth := False, CollectorSptlrpc := False, CollectorLpcc := True\<rparr>"

definition demo_exporter where
  "demo_exporter = exporter_runs demo_environment (\<lambda>c. Map.empty) (\<lambda>c. f_zero)
     (collectors_of demo_config (\<lambda>root. demo_files))"

lemma demo_exporter_runs:
  "demo_exporter =
     [\<lparr>cname = ''lpcc'', scrape_source = Some ''lpcc'', recorded = [], outcome = Inr [], duration = f_zero\<rparr>]"
  by (simp add: demo_exporter_def exporter_runs_def run_collector_def collectors_of_def demo_config_def
      default_flags_def collector_name_def ScrapeSource_def recorded_sources_def Collect_def
      Lpcc_Collect_def demo_files_def Let_def)

lemma demo_exporter_scrape:
  "run_schedule demo_exporter [0, 0, 0] (start False demo_exporter) =
     Some \<lparr>goroutines = [\<lparr>to_send = [], finished = True\<rparr>],
           channel = [(0, SuccessMetric ''lpcc'' (f_of_int 1)), (0, DurationMetric ''lpcc'' f_zero)],
           durations = [(Key ''lpcc'' ''success'', f_add f_zero f_zero)]\<rparr>"
  by (simp add: demo_exporter_runs start_def act_def goroutine_sends_def duration_key_def
      final_source_def scrapeSourceName_def add_duration_def)

lemma own_series_distinct_witness:
  "distinct [(''lustre_scrape_collector_success'', [''lpcc'']),
     (''lustre_scrape_collector_duration_seconds'', [''lpcc'']),
     (''lustre_exporter_scrape_duration_seconds'', [''lpcc'', ''success''])]"
  using own_series_distinct [OF demo_exporter_def demo_exporter_scrape, of Map.empty]
  by (simp add: all_done_def Registry_Collect_def observeScrapeDurations_def summary_metric_def)

section \<open>What a collector returns\<close>

lemma Collect_uncached:
  assumes "prometheus_ok (prom env)" "cache_ok (NewDesc (prom env)) cache"
  shows "fst (Collect env c cache) = metrics_of (prom env) (gather env c) \<and>
     cache_ok (NewDesc (prom env)) (snd (Collect env c cache))"
  using any_collector.collect_uncached [OF assms, of env c] by simp

lemma Collect_ok:
  assumes "prometheus_ok (prom env)" "cache_ok (NewDesc (prom env)) cache"
    "rejects_only_invalid (prom env) valid"
  shows "is_ok (fst (Collect env c cache)) \<longleftrightarrow>
     (case gather env c of Inl err \<Rightarrow> False | Inr os \<Rightarrow> list_all (valid_labels valid) os)"
  using any_collector.collect_ok [OF assms, of env c] by simp

text \<open>
  C7: Collectors do not influence each other: with the descriptor cache in any state that the others can bring
  about, \<open>Collect\<close> of each collector returns the metrics of its own observations, built with the
  descriptors of the contract, and leaves the cache in such a state.
\<close>

theorem collectors_isolated:
  assumes "prometheus_ok (prom env)" "cache_ok (NewDesc (prom env)) cache"
  shows "fst (Collect env c cache) = metrics_of (prom env) (gather env c) \<and>
     cache_ok (NewDesc (prom env)) (snd (Collect env c cache))"
  by (rule Collect_uncached [OF assms])

lemma demo_environment_ok: "prometheus_ok (prom demo_environment)"
  by (simp add: prometheus_ok_def demo_environment_def demo_others_ok)

lemma demo_environment_rejects: "rejects_only_invalid (prom demo_environment) (\<lambda>v. True)"
  by (simp add: rejects_only_invalid_def demo_environment_def demo_metric_def desc_of_def demo_desc_def
      list_all_iff)

definition demo_health :: "string \<Rightarrow> collector" where
  "demo_health text =
     CHealth \<lparr>hreader = demo_files\<lparr>ReadFile := \<lambda>p. Inr text\<rparr>, hpathCfg = DefaultPathConfig\<rparr>"

lemma collectors_isolated_witness:
  "fst (Collect demo_environment (demo_health ''healthy'')
         [desc_key m_send_count_total \<mapsto> desc_of demo_desc m_send_count_total]) =
     metrics_of (prom demo_environment) (gather demo_environment (demo_health ''healthy''))"
proof -
  have "cache_ok (NewDesc (prom demo_environment))
      [desc_key m_send_count_total \<mapsto> desc_of demo_desc m_send_count_total]"
    using cache_insert_ok [OF cache_empty_ok, of "''send_count_total''" m_send_count_total demo_desc]
    by (simp add: demo_environment_def)
  from collectors_isolated [OF demo_environment_ok this] show ?thesis by blast
qed

text \<open>
  C8: A collector fails exactly when its sources fail it or hold a label value that is not valid; its own
  metrics are always in the contract, so \<open>Map\<close> and the number of label values never fail it.
\<close>

theorem collector_success:
  assumes "prometheus_ok (prom env)" "cache_ok (NewDesc (prom env)) cache"
    "rejects_only_invalid (prom env) valid"
  shows "is_ok (fst (Collect env c cache)) \<longleftrightarrow>
     (case gather env c of Inl err \<Rightarrow> False | Inr os \<Rightarrow> list_all (valid_labels valid) os)"
  by (rule Collect_ok [OF assms])

lemma demo_health_gather: "is_ok (gather demo_environment (demo_health text))"
  by (simp add: gather_def demo_health_def health_observations_def ParseHealth_def Let_def)

lemma collector_success_witness:
  "is_ok (fst (Collect demo_environment (demo_health ''healthy'') Map.empty))"
proof -
  obtain os where "gather demo_environment (demo_health ''healthy'') = Inr os"
    using demo_health_gather [of "''healthy''"] by (auto simp: is_ok_iff)
  then show ?thesis
    using collector_success [OF demo_environment_ok cache_empty_ok demo_environment_rejects,
        of "demo_health ''healthy''"]
    by (simp add: valid_labels_def list_all_iff)
qed

section \<open>A context that is done\<close>



section \<open>Failing and timing a scrape\<close>

lemma invalid_iff:
  assumes "run_schedule cs sched (start st cs) = Some s" "all_done s"
  shows "list_ex is_invalid (fst (Registry_Collect s r)) \<longleftrightarrow> st \<and> list_ex (\<lambda>c. \<not> is_ok (outcome c)) cs"
proof -
  obtain ms r' where obs: "observeScrapeDurations (durations s) r = (ms, r')" by fastforce
  note sent = done_messages [OF schedule_reachable [OF reach_start assms(1)] assms(2)]
  have "list_ex is_invalid (goroutine_sends st c) \<longleftrightarrow> st \<and> \<not> is_ok (outcome c)" for c :: "'a collector_run"
    by (auto simp: goroutine_sends_def list_ex_iff split: sum.split)
  then have "list_ex is_invalid (map snd (channel s)) \<longleftrightarrow> st \<and> list_ex (\<lambda>c. \<not> is_ok (outcome c)) cs"
    using mset_eq_setD [OF sent] by (auto simp: list_ex_iff)
  moreover have "\<not> list_ex is_invalid (map summary_metric ms)"
    by (auto simp: list_ex_iff summary_metric_def)
  ultimately show ?thesis by (auto simp: Registry_Collect_def obs list_ex_iff)
qed

text \<open>
  C6: A scrape of the exporter holds an invalid metric, and so is answered with an error, exactly in strict mode
  when the sources of some enabled collector fail it or hold an invalid label value.
\<close>

theorem strict_scrape_fails:
  assumes "prometheus_ok (prom env)" "rejects_only_invalid (prom env) valid"
    and "\<And>c. cache_ok (NewDesc (prom env)) (cache c)"
    and "cs = exporter_runs env cache dur (collectors_of cfg mk)"
    and "run_schedule cs sched (start (Strict cfg) cs) = Some s" "all_done s"
  shows "list_ex is_invalid (fst (Registry_Collect s r)) \<longleftrightarrow>
     Strict cfg \<and>
     list_ex (\<lambda>c. case gather env c of Inl err \<Rightarrow> True | Inr os \<Rightarrow> \<not> list_all (valid_labels valid) os)
       (collectors_of cfg mk)"
proof -
  have "is_ok (fst (Collect env c (cache c))) \<longleftrightarrow>
      (case gather env c of Inl err \<Rightarrow> False | Inr os \<Rightarrow> list_all (valid_labels valid) os)" for c
    by (rule Collect_ok [OF assms(1,3,2)])
  then have "\<not> is_ok (outcome (run_collector env (cache c) (dur c) c)) \<longleftrightarrow>
      (case gather env c of Inl err \<Rightarrow> True | Inr os \<Rightarrow> \<not> list_all (valid_labels valid) os)" for c
    by (simp add: run_collector_def split: sum.split)
  then show ?thesis
    unfolding invalid_iff [OF assms(5,6)] assms(4) exporter_runs_def by (simp add: list_ex_iff)
qed

lemma strict_scrape_fails_witness:
  "\<not> list_ex is_invalid (fst (Registry_Collect
       \<lparr>goroutines = [\<lparr>to_send = [] :: ((string \<times> string \<times> string list) \<times> value_type \<times> float64 \<times> string list) metric list,
                      finished = True\<rparr>],
        channel = [(0, SuccessMetric ''lpcc'' (f_of_int 1)), (0, DurationMetric ''lpcc'' f_zero)],
        durations = [(Key ''lpcc'' ''success'', f_add f_zero f_zero)]\<rparr> Map.empty))"
proof -
  have "Strict demo_config = False" by (simp add: demo_config_def default_flags_def)
  with strict_scrape_fails [OF demo_environment_ok demo_environment_rejects _ demo_exporter_def,
      of "[0, 0, 0]" _ Map.empty] demo_exporter_scrape
  show ?thesis by (simp add: all_done_def cache_empty_ok)
qed

lemma final_sources:
  "final_source (run_collector env cache d c) =
     (case c of
        CHealth h \<Rightarrow> ''sysfs'' | CSptlrpc p \<Rightarrow> ''sys'' | CClient k \<Rightarrow> ''procfs'' | CLpcc p \<Rightarrow> ''lpcc''
      | CLNet l \<Rightarrow>
          (case lnet_source l of
             LNetSourceLNetCtl \<Rightarrow> ''lctl'' | LNetSourceDebugFS \<Rightarrow> ''sys''
           | LNetSourceAuto \<Rightarrow>
               (case collectFromDebugFS l of Inl err \<Rightarrow> ''lctl'' | Inr os \<Rightarrow> ''sys'')))"
  by (simp add: final_source_def run_collector_def scrapeSourceName_def ScrapeSource_def
      recorded_sources_def record_source_def lnet_stats_observations_def
      split: collector.split LNetSource.split sum.split)

lemma filter_key_le:
  "length (filter (\<lambda>c. duration_key c = k) cs) \<le> length (filter (\<lambda>c. final_source c = key_source k) cs)"
  by (induction cs) (auto simp: duration_key_def)

lemma few_sources:
  "length (filter (\<lambda>c. duration_key c = k) (exporter_runs env cache dur (collectors_of cfg mk))) \<le> 2"
proof -
  have two: "length (filter (\<lambda>c. final_source c = key_source k)
      (exporter_runs env cache dur (collectors_of cfg mk))) \<le> 2"
  proof -
    let ?l = "\<lparr>nreader = mk (RootFS cfg), npathCfg = path_config cfg,
        lnet_source = lnetSource (LNetSourceName cfg), lnetctlBin = LNetCtl cfg\<rparr>"
    define src where "src = key_source k"
    define lnet where "lnet = final_source (run_collector env (cache (CLNet ?l)) (dur (CLNet ?l)) (CLNet ?l))"
    have lnet: "lnet = ''sys'' \<or> lnet = ''lctl''"
      unfolding lnet_def final_sources by (simp split: LNetSource.split sum.split)
    have runs: "map final_source (exporter_runs env cache dur (collectors_of cfg mk)) =
        (if CollectorHealth cfg then [''sysfs''] else []) @ (if CollectorSptlrpc cfg then [''sys''] else []) @
        (if CollectorLNet cfg then [lnet] else []) @ (if CollectorClient cfg then [''procfs''] else []) @
        (if CollectorLpcc cfg then [''lpcc''] else [])"
      by (simp add: exporter_runs_def collectors_of_def Let_def lnet_def final_sources)
    have "length (filter (\<lambda>c. final_source c = src) (exporter_runs env cache dur (collectors_of cfg mk))) =
        length (filter (\<lambda>x. x = src) (map final_source (exporter_runs env cache dur (collectors_of cfg mk))))"
      by (simp add: filter_map comp_def)
    also have "\<dots> \<le> 2"
      unfolding runs using lnet
      by (cases "src = ''sysfs''"; cases "src = ''sys''"; cases "src = ''procfs''"; cases "src = ''lpcc''") auto
    finally show ?thesis unfolding src_def .
  qed
  show ?thesis by (rule order_trans [OF filter_key_le two])
qed

text \<open>
  C32: The durations that the exporter adds up for each source and result do not depend on how its goroutines
  are scheduled: at most two collectors, sptlrpc and LNet, ever share a key.
\<close>

theorem exporter_durations:
  assumes "cs = exporter_runs env cache dur (collectors_of cfg mk)" "\<And>c. nonneg_float (dur c)"
    and "run_schedule cs sched (start st cs) = Some s" "all_done s"
  shows "map_of (durations s) k = sum_of_two (map duration (filter (\<lambda>c. duration_key c = k) cs))"
proof -
  have "list_all (\<lambda>c. nonneg_float (duration c)) cs"
    using assms(2) by (simp add: assms(1) exporter_runs_def run_collector_def list_all_iff)
  with few_sources show ?thesis unfolding assms(1)
    by (intro durations_sum [OF assms(3,4) [unfolded assms(1)]]) simp_all
qed

lemma exporter_durations_witness:
  "map_of [(Key ''lpcc'' ''success'', f_add f_zero f_zero)] (Key ''lpcc'' ''success'') = sum_of_two [f_zero]"
proof -
  have "nonneg_float f_zero" by (simp add: f_zero_def min_exp_def max_exp_def)
  with exporter_durations [OF demo_exporter_def _ demo_exporter_scrape, of "Key ''lpcc'' ''success''"]
  show ?thesis
    by (simp add: all_done_def demo_exporter_runs duration_key_def final_source_def scrapeSourceName_def)
qed

end
