(* ===== verification/Deadline.thy ===== *)
theory Deadline
  imports Reader "HOL-Library.Extended_Nat"
begin

text \<open>
  Time: what the calls of a \<open>Reader\<close> do to the clock when the context has a deadline
  (\<^verbatim>\<open>internal/reader/reader.go\<close>) and how \<open>Registry.Collect\<close> of \<^verbatim>\<open>collector/collector.go\<close> derives the
  deadlines.  A collector is a program over the three methods of the interface, whose next call may depend
  on what the calls before returned; its own computation takes no time.  The clock counts nanoseconds; \<open>\<infinity>\<close>
  is never.
\<close>

section \<open>Programs over a reader\<close>

datatype 'a program =
    Return 'a
  | CallRead string "string result \<Rightarrow> 'a program"
  | CallGlob string "string list result \<Rightarrow> 'a program"
  | CallCommand string "string list" "string result \<Rightarrow> 'a program"

text \<open>What a program computes when each call has the result that a reader gives for it.\<close>

primrec interp :: "reader \<Rightarrow> 'a program \<Rightarrow> 'a" where
  "interp r (Return x) = x"
| "interp r (CallRead path k) = interp r (k (ReadFile r path))"
| "interp r (CallGlob pattern k) = interp r (k (Glob r pattern))"
| "interp r (CallCommand cmd args k) = interp r (k (RunCommand r cmd args))"

primrec andThen :: "'a program \<Rightarrow> ('a \<Rightarrow> 'b program) \<Rightarrow> 'b program" where
  "andThen (Return x) f = f x"
| "andThen (CallRead path k) f = CallRead path (\<lambda>r. andThen (k r) f)"
| "andThen (CallGlob pattern k) f = CallGlob pattern (\<lambda>r. andThen (k r) f)"
| "andThen (CallCommand cmd args k) f = CallCommand cmd args (\<lambda>r. andThen (k r) f)"

lemma interp_andThen [simp]: "interp r (andThen p f) = interp r (f (interp r p))"
  by (induction p) simp_all

section \<open>The clock\<close>

text \<open>
  The world that the calls meet: what the operating system returns at a time, and how long it takes.
  \<open>exit_time\<close> is how long a command runs if nothing kills it, \<open>kill_time\<close> how long a killed command takes
  to end, \<open>closed_at\<close> when the last process that holds its output lets go of it.  \<open>tie\<close> decides a \<open>select\<close>
  with both branches ready, \<open>start_error\<close> is an error of looking the command up, \<open>late_error\<close> the error of
  a command that was killed or whose output was not shut in time.
\<close>

record world =
  calls :: "nat \<Rightarrow> os_calls"
  read_time :: "nat \<Rightarrow> string \<Rightarrow> enat"
  glob_time :: "nat \<Rightarrow> string \<Rightarrow> enat"
  exit_time :: "nat \<Rightarrow> string list \<Rightarrow> enat"
  kill_time :: "nat \<Rightarrow> string list \<Rightarrow> enat"
  closed_at :: "nat \<Rightarrow> string list \<Rightarrow> enat"
  tie :: "nat \<Rightarrow> bool"
  start_error :: "string \<Rightarrow> go_error option"
  late_error :: "nat \<Rightarrow> string list \<Rightarrow> go_error"

text \<open>A call that ends at an extended time: \<open>None\<close> if it never does.\<close>

definition ends_at :: "'a \<Rightarrow> enat \<Rightarrow> ('a \<times> nat) option" where
  "ends_at x e = (case e of enat n \<Rightarrow> Some (x, n) | \<infinity> \<Rightarrow> None)"

text \<open>\<open>ctx.Err()\<close> of a context whose deadline is \<open>d\<close>.\<close>

definition ctx_done :: "enat \<Rightarrow> nat \<Rightarrow> bool" where
  "ctx_done d t \<longleftrightarrow> d \<le> enat t"

text \<open>The \<open>select\<close> between a result that is ready at \<open>e\<close> and the end of the context.\<close>

definition select_result :: "bool \<Rightarrow> enat \<Rightarrow> enat \<Rightarrow> 'a result \<Rightarrow> ('a result \<times> nat) option" where
  "select_result tied d e res =
     (if e < d \<or> e = d \<and> tied then ends_at res e else ends_at (Inl DeadlineExceeded) d)"

definition timed_ReadFile ::
  "string \<Rightarrow> world \<Rightarrow> enat \<Rightarrow> nat \<Rightarrow> string \<Rightarrow> (string result \<times> nat) option" where
  "timed_ReadFile rt w d t path =
     (if ctx_done d t then Some (Inl DeadlineExceeded, t)
      else
        let p = resolvePath rt path
        in select_result (tie w t) d (enat t + read_time w t p) (os_ReadFile (calls w t) p))"

definition glob_result :: "string \<Rightarrow> string list result \<Rightarrow> string list result" where
  "glob_result rt r =
     bind_res r (\<lambda>matches. if no_root rt then Inr matches else Inr (map (unresolve rt) matches))"

definition timed_Glob ::
  "string \<Rightarrow> world \<Rightarrow> enat \<Rightarrow> nat \<Rightarrow> string \<Rightarrow> (string list result \<times> nat) option" where
  "timed_Glob rt w d t pattern =
     (if ctx_done d t then Some (Inl DeadlineExceeded, t)
      else
        let p = resolvePath rt pattern
        in map_option (\<lambda>(r, e). (glob_result rt r, e))
             (select_result (tie w t) d (enat t + glob_time w t p) (os_Glob (calls w t) p)))"

definition commandWaitDelay :: nat where
  "commandWaitDelay = 1000000000"

text \<open>
  When \<open>Cmd.Output\<close> returns: the process ends by itself or is killed at the deadline, and from the earlier
  of the two events \<open>WaitDelay\<close> bounds how long its output may stay open.
\<close>

definition command_end :: "bool \<Rightarrow> enat \<Rightarrow> enat \<Rightarrow> enat \<Rightarrow> enat \<Rightarrow> enat" where
  "command_end killed d ended kill shut =
     max (if killed then d + kill else ended) (min shut (min d ended + enat commandWaitDelay))"

definition timed_RunCommand ::
  "world \<Rightarrow> enat \<Rightarrow> nat \<Rightarrow> string \<Rightarrow> string list \<Rightarrow> (string result \<times> nat) option" where
  "timed_RunCommand w d t cmd args =
     (case start_error w cmd of
        Some err \<Rightarrow> Some (Inl err, t)
      | None \<Rightarrow>
          if ctx_done d t then Some (Inl DeadlineExceeded, t)
          else
            let line = cmd # args;
                ended = enat t + exit_time w t line;
                shut = closed_at w t line;
                killed = (d < ended \<or> d = ended \<and> \<not> tie w t);
                late = (killed \<or> ended + enat commandWaitDelay < shut);
                res = (if late then Inl (late_error w t line) else cmd_Output (calls w t) cmd args)
            in ends_at res (command_end killed d ended (kill_time w t line) shut))"

primrec run_timed :: "string \<Rightarrow> world \<Rightarrow> enat \<Rightarrow> nat \<Rightarrow> 'a program \<Rightarrow> ('a \<times> nat) option" where
  "run_timed rt w d t (Return x) = Some (x, t)"
| "run_timed rt w d t (CallRead path k) =
     (case timed_ReadFile rt w d t path of None \<Rightarrow> None | Some (r, e) \<Rightarrow> run_timed rt w d e (k r))"
| "run_timed rt w d t (CallGlob pattern k) =
     (case timed_Glob rt w d t pattern of None \<Rightarrow> None | Some (r, e) \<Rightarrow> run_timed rt w d e (k r))"
| "run_timed rt w d t (CallCommand cmd args k) =
     (case timed_RunCommand w d t cmd args of None \<Rightarrow> None | Some (r, e) \<Rightarrow> run_timed rt w d e (k r))"

section \<open>When calls end\<close>

lemma ends_at_Some: "ends_at x e = Some (y, n) \<longleftrightarrow> y = x \<and> e = enat n"
  by (auto simp: ends_at_def split: enat.split)

lemma select_result_alt:
  "select_result td d e res =
     ends_at (if e < d \<or> e = d \<and> td then res else Inl DeadlineExceeded) (min d e)"
  by (auto simp: select_result_def min_def)

text \<open>
  What the three calls have in common: they never go back in time, and one that ends before the
  deadline has the result that the live reader has.
\<close>

definition sound_call :: "enat \<Rightarrow> nat \<Rightarrow> 'a \<Rightarrow> ('a \<times> nat) option \<Rightarrow> bool" where
  "sound_call d t live res \<longleftrightarrow>
     (\<forall>r e. res = Some (r, e) \<longrightarrow> t \<le> e \<and> (enat e < d \<longrightarrow> r = live))"

text \<open>A call that ends by some time, whatever happens.\<close>

definition returns_by :: "nat \<Rightarrow> ('a \<times> nat) option \<Rightarrow> bool" where
  "returns_by b res \<longleftrightarrow> (\<exists>r e. res = Some (r, e) \<and> e \<le> b)"

lemma sound_ends:
  "enat t \<le> e \<Longrightarrow> (e < d \<Longrightarrow> x = live) \<Longrightarrow> sound_call d t live (ends_at x e)"
  by (auto simp: sound_call_def ends_at_Some)

lemma returns_ends: "e \<le> enat b \<Longrightarrow> returns_by b (ends_at x e)"
  by (cases e) (simp_all add: returns_by_def ends_at_def)

lemma returns_now: "t \<le> b \<Longrightarrow> returns_by b (Some (r, t))"
  by (simp add: returns_by_def)

lemma returns_by_weaken: "returns_by a res \<Longrightarrow> a \<le> b \<Longrightarrow> returns_by b res"
  by (auto simp: returns_by_def)

lemma done_sound: "ctx_done d t \<Longrightarrow> sound_call d t live (Some (r, t))"
  by (auto simp: sound_call_def ctx_done_def)

lemma sound_select:
  assumes "\<not> ctx_done d t"
  shows "sound_call d t res (select_result td d (enat t + l) res)"
  unfolding select_result_alt using assms
  by (intro sound_ends) (auto simp: ctx_done_def min_def split: if_splits)

lemma select_returns_by: "returns_by (max t D) (select_result td (enat D) e res)"
  unfolding select_result_alt by (rule returns_ends, rule min.coboundedI1) simp

lemma command_end_ge: "enat t < d \<Longrightarrow> enat t \<le> ended \<Longrightarrow> enat t \<le> command_end killed d ended kill shut"
  by (auto simp: command_end_def le_max_iff_disj intro: order_trans [OF less_imp_le])

lemma command_end_killed: "command_end True d ended kill shut < d \<Longrightarrow> False"
  by (auto simp: command_end_def dest: le_less_trans [of d "d + kill" d, OF _ le_less_trans, rotated])

lemma command_end_bound:
  assumes "kill \<le> enat commandWaitDelay" "\<not> killed \<Longrightarrow> ended \<le> enat D"
  shows "command_end killed (enat D) ended kill shut \<le> enat (D + commandWaitDelay)"
proof -
  have "enat D + kill \<le> enat D + enat commandWaitDelay" using assms(1) by (rule add_left_mono)
  moreover have "min (enat D) ended + enat commandWaitDelay \<le> enat D + enat commandWaitDelay"
    by (intro add_right_mono) simp
  moreover have "\<not> killed \<Longrightarrow> ended \<le> enat (D + commandWaitDelay)"
    using order_trans [OF assms(2), of "enat (D + commandWaitDelay)"] by simp
  ultimately show ?thesis by (simp add: command_end_def min_le_iff_disj)
qed

definition live_reader :: "string \<Rightarrow> os_calls \<Rightarrow> reader" where
  "live_reader rt os = ctx_reader rt os (\<lambda>_. None) None"

text \<open>
  A world that answers the same at any time, and whose commands leave no process behind that holds
  their output for longer than \<open>WaitDelay\<close>.
\<close>

definition steady :: "world \<Rightarrow> os_calls \<Rightarrow> bool" where
  "steady w os \<longleftrightarrow>
     (\<forall>t. calls w t = os) \<and>
     (\<forall>cmd args err. start_error w cmd = Some err \<longrightarrow> cmd_Output os cmd args = Inl err) \<and>
     (\<forall>t line. closed_at w t line \<le> enat t + exit_time w t line + enat commandWaitDelay)"

lemma ReadFile_sound:
  assumes "steady w os"
  shows "sound_call d t (ReadFile (live_reader rt os) path) (timed_ReadFile rt w d t path)"
  using assms sound_select [of d t "os_ReadFile os (resolvePath rt path)"]
  by (cases "ctx_done d t")
     (simp_all add: timed_ReadFile_def steady_def live_reader_def ctx_reader_def fs_reader_def
        fs_ReadFile_def done_sound Let_def)

lemma sound_map: "sound_call d t x res \<Longrightarrow> sound_call d t (f x) (map_option (\<lambda>(r, e). (f r, e)) res)"
  by (auto simp: sound_call_def)

lemma Glob_sound:
  assumes "steady w os"
  shows "sound_call d t (Glob (live_reader rt os) pattern) (timed_Glob rt w d t pattern)"
proof (cases "ctx_done d t")
  case True
  then show ?thesis by (simp add: timed_Glob_def done_sound)
next
  case False
  let ?res = "os_Glob os (resolvePath rt pattern)"
  have "Glob (live_reader rt os) pattern = glob_result rt ?res"
    by (simp add: live_reader_def ctx_reader_def fs_reader_def fs_Glob_def glob_result_def)
  with False sound_map [OF sound_select [OF False, of ?res], of "glob_result rt"] assms
  show ?thesis by (simp add: timed_Glob_def steady_def Let_def)
qed

lemma RunCommand_sound:
  assumes "steady w os"
  shows "sound_call d t (RunCommand (live_reader rt os) cmd args) (timed_RunCommand w d t cmd args)"
proof (cases "start_error w cmd")
  case (Some err)
  with assms show ?thesis
    by (simp add: timed_RunCommand_def sound_call_def steady_def live_reader_def ctx_reader_def
        fs_reader_def fs_RunCommand_def)
next
  case None
  show ?thesis
  proof (cases "ctx_done d t")
    case True
    with None show ?thesis by (simp add: timed_RunCommand_def done_sound)
  next
    case False
    let ?ended = "enat t + exit_time w t (cmd # args)"
    have "\<not> ?ended + enat commandWaitDelay < closed_at w t (cmd # args)"
      using assms by (simp add: steady_def not_less)
    with None False assms have fin: "timed_RunCommand w d t cmd args =
        ends_at (if d < ?ended \<or> d = ?ended \<and> \<not> tie w t then Inl (late_error w t (cmd # args))
                 else cmd_Output os cmd args)
          (command_end (d < ?ended \<or> d = ?ended \<and> \<not> tie w t) d ?ended (kill_time w t (cmd # args))
             (closed_at w t (cmd # args)))"
      unfolding timed_RunCommand_def Let_def steady_def by (simp only: option.case if_False simp_thms)
    have live: "RunCommand (live_reader rt os) cmd args = cmd_Output os cmd args"
      by (simp add: live_reader_def ctx_reader_def fs_reader_def fs_RunCommand_def)
    show ?thesis unfolding fin live
      using False by (intro sound_ends command_end_ge) (auto simp: ctx_done_def dest: command_end_killed)
  qed
qed

section \<open>When programs end\<close>

text \<open>A program that ends before its deadline computes what it does with a live reader.\<close>

lemma run_timed_live:
  assumes "steady w os" "run_timed rt w d t p = Some (x, e)"
  shows "t \<le> e \<and> (enat e < d \<longrightarrow> x = interp (live_reader rt os) p)"
  using assms(2)
proof (induction p arbitrary: t)
  case (CallRead path k)
  then obtain r n where "timed_ReadFile rt w d t path = Some (r, n)" "run_timed rt w d n (k r) = Some (x, e)"
    by (auto split: option.splits)
  with CallRead.IH [of "k r" n] ReadFile_sound [OF assms(1), of d t rt path] show ?case
    by (auto simp: sound_call_def) (meson enat_ord_simps(1) order_le_less_trans)
next
  case (CallGlob pattern k)
  then obtain r n where "timed_Glob rt w d t pattern = Some (r, n)" "run_timed rt w d n (k r) = Some (x, e)"
    by (auto split: option.splits)
  with CallGlob.IH [of "k r" n] Glob_sound [OF assms(1), of d t rt pattern] show ?case
    by (auto simp: sound_call_def) (meson enat_ord_simps(1) order_le_less_trans)
next
  case (CallCommand cmd args k)
  then obtain r n where "timed_RunCommand w d t cmd args = Some (r, n)" "run_timed rt w d n (k r) = Some (x, e)"
    by (auto split: option.splits)
  with CallCommand.IH [of "k r" n] RunCommand_sound [OF assms(1), of d t rt cmd args] show ?case
    by (auto simp: sound_call_def) (meson enat_ord_simps(1) order_le_less_trans)
qed simp

text \<open>The operating system ends a killed process within \<open>WaitDelay\<close>.\<close>

definition kills :: "world \<Rightarrow> bool" where
  "kills w \<longleftrightarrow> (\<forall>t line. kill_time w t line \<le> enat commandWaitDelay)"

lemma ReadFile_returns: "returns_by (max t D) (timed_ReadFile rt w (enat D) t path)"
  by (auto simp: timed_ReadFile_def Let_def intro: returns_now select_returns_by)

lemma returns_map: "returns_by b res \<Longrightarrow> returns_by b (map_option (\<lambda>(r, e). (f r, e)) res)"
  by (auto simp: returns_by_def)

lemma Glob_returns: "returns_by (max t D) (timed_Glob rt w (enat D) t pattern)"
  by (auto simp: timed_Glob_def Let_def intro: returns_now returns_map select_returns_by)

lemma RunCommand_returns:
  assumes "kills w"
  shows "returns_by (max t (D + commandWaitDelay)) (timed_RunCommand w (enat D) t cmd args)"
proof -
  let ?ended = "enat t + exit_time w t (cmd # args)"
  have "command_end (enat D < ?ended \<or> enat D = ?ended \<and> \<not> tie w t) (enat D) ?ended
      (kill_time w t (cmd # args)) shut \<le> enat (max t (D + commandWaitDelay))" for shut
    using assms
    by (intro order_trans [OF command_end_bound]) (auto simp: kills_def not_less)
  then show ?thesis
    unfolding timed_RunCommand_def Let_def
    by (auto split: option.split intro: returns_now returns_ends)
qed

text \<open>
  Any program ends: by its deadline and \<open>WaitDelay\<close>, or at once when it starts after that.  Only the command
  that the deadline meets can overrun it.
\<close>

lemma run_timed_returns:
  assumes "kills w"
  shows "returns_by (max t (D + commandWaitDelay)) (run_timed rt w (enat D) t p)"
proof (induction p arbitrary: t)
  case (CallRead path k)
  obtain r n where "timed_ReadFile rt w (enat D) t path = Some (r, n)" "n \<le> max t D"
    using ReadFile_returns by (force simp: returns_by_def)
  then show ?case using returns_by_weaken [OF CallRead.IH [of "k r" n]] by simp
next
  case (CallGlob pattern k)
  obtain r n where "timed_Glob rt w (enat D) t pattern = Some (r, n)" "n \<le> max t D"
    using Glob_returns by (force simp: returns_by_def)
  then show ?case using returns_by_weaken [OF CallGlob.IH [of "k r" n]] by simp
next
  case (CallCommand cmd args k)
  obtain r n where "timed_RunCommand w (enat D) t cmd args = Some (r, n)" "n \<le> max t (D + commandWaitDelay)"
    using RunCommand_returns [OF assms] by (force simp: returns_by_def)
  then show ?case using returns_by_weaken [OF CallCommand.IH [of "k r" n]] by simp
qed (simp add: returns_by_def)

end
