(* ===== verification/Timed_Scrape.thy ===== *)
theory Timed_Scrape
  imports Exporter Deadline
begin

text \<open>
  The collectors of \<^verbatim>\<open>collector/\<close> as programs over the reader, in the order in which their code makes
  its calls, and the deadlines that \<open>Registry.Collect\<close> of \<^verbatim>\<open>collector/collector.go\<close> gives them.  A program
  does not use the reader in its collector: interpreted with a reader, it is the model without time.
\<close>

section \<open>Sequences of calls\<close>

definition thenResult :: "'a result program \<Rightarrow> ('a \<Rightarrow> 'b result program) \<Rightarrow> 'b result program" where
  "thenResult p k = andThen p (\<lambda>r. case r of Inl err \<Rightarrow> Return (Inl err) | Inr x \<Rightarrow> k x)"

lemma interp_thenResult [simp]: "interp r (thenResult p k) = bind_res (interp r p) (\<lambda>x. interp r (k x))"
  by (cases "interp r p") (simp_all add: thenResult_def)

fun forEach :: "('a \<Rightarrow> 'b list result program) \<Rightarrow> 'a list \<Rightarrow> 'b list result program" where
  "forEach f [] = Return (Inr [])"
| "forEach f (x # xs) =
     thenResult (f x) (\<lambda>ys. thenResult (forEach f xs) (\<lambda>zs. Return (Inr (ys @ zs))))"

lemma interp_forEach [simp]: "interp r (forEach f xs) = collect_all (\<lambda>x. interp r (f x)) xs"
  by (induction xs) (simp_all add: bind_res_def split: sum.split)

fun readLoop_program :: "go_error \<Rightarrow> string list \<Rightarrow> (string \<times> string) result program" where
  "readLoop_program lastErr [] = Return (Inl lastErr)"
| "readLoop_program lastErr (p # ps) =
     CallRead p (\<lambda>r. case r of
       Inl err \<Rightarrow> readLoop_program err ps
     | Inr data \<Rightarrow> Return (Inr (data, p)))"

lemma interp_readLoop [simp]: "interp r (readLoop_program e ps) = read_loop r e ps"
  by (induction ps arbitrary: e) (simp_all split: sum.split)

definition ReadFirstAvailable_program :: "string list \<Rightarrow> (string \<times> string) result program" where
  "ReadFirstAvailable_program paths =
     (if paths = [] then Return (Inl no_paths) else readLoop_program no_paths paths)"

lemma interp_ReadFirst [simp]: "interp r (ReadFirstAvailable_program ps) = ReadFirstAvailable r ps"
  by (simp add: ReadFirstAvailable_program_def ReadFirstAvailable_def)

section \<open>Discovery\<close>

fun globAll_program :: "string list \<Rightarrow> string list program" where
  "globAll_program [] = Return []"
| "globAll_program (p # ps) =
     CallGlob p (\<lambda>r. andThen (globAll_program ps) (\<lambda>ms. Return (or_empty r @ ms)))"

lemma interp_globAll [simp]: "interp r (globAll_program ps) = globAll r ps"
  by (induction ps) (simp_all add: globAll_def)

fun addAll_program ::
  "(string \<Rightarrow> string list) \<Rightarrow> (string \<Rightarrow> string \<Rightarrow> clientIndex \<Rightarrow> clientIndex) \<Rightarrow> clientIndex \<Rightarrow> string list \<Rightarrow>
     clientIndex program" where
  "addAll_program patterns addTo x [] = Return x"
| "addAll_program patterns addTo x (component # cs) =
     andThen (globAll_program (patterns component))
       (\<lambda>ms. addAll_program patterns addTo (fold (addTo component) ms x) cs)"

definition DiscoverClients_program :: "PathConfig \<Rightarrow> ClientTarget list result program" where
  "DiscoverClients_program c =
     andThen (addAll_program (clientStatsPatterns c) addStats (empty_index c) [''llite'', ''mdc'', ''osc''])
       (\<lambda>x. andThen (addAll_program (clientRPCStatsPatterns c) addRPCStats x [''mdc'', ''osc''])
              (\<lambda>y. Return (Inr (targets y))))"

lemma interp_addAll:
  "interp r (addAll_program patterns addTo x cs) =
     foldl (\<lambda>x c. fold (addTo c) (globAll r (patterns c)) x) x cs"
  by (induction cs arbitrary: x) simp_all

lemma interp_Discover [simp]: "interp r (DiscoverClients_program c) = DiscoverClients r c"
  by (simp add: DiscoverClients_program_def DiscoverClients_def discover_index_def interp_addAll
      add_all_stats_def add_all_rpc_stats_def)

section \<open>The client collector\<close>

definition collectLDLMCBD_program :: "ClientCollector \<Rightarrow> observation list result program" where
  "collectLDLMCBD_program c =
     andThen (ReadFirstAvailable_program (LDLMCBDStatsPaths (cpathCfg c))) (\<lambda>r. Return (case r of
         Inl err \<Rightarrow> Inr []
       | Inr (data, path) \<Rightarrow> ParseLDLMCBDStats data path))"

definition readParamFile_program :: "ClientTarget \<Rightarrow> string \<Rightarrow> (string \<times> string) result program" where
  "readParamFile_program t nm =
     readLoop_program (Errorf ''param file %s not found'' [ArgS nm] [])
       (map (\<lambda>rt. filepath_Join [rt, nm]) (ParamRoots t))"

definition lliteSingleFile_program ::
  "ClientCollector \<Rightarrow> ClientTarget \<Rightarrow> string \<Rightarrow> observation list result program" where
  "lliteSingleFile_program c t nm =
     andThen (readParamFile_program t nm) (\<lambda>r. Return (case r of
         Inl err \<Rightarrow> Inr []
       | Inr (data, path) \<Rightarrow>
           (case ParseLLiteSingleFile data path nm ''client'' (TName t) of
              Inl err \<Rightarrow> if strict c then Inl err else Inr []
            | Inr os \<Rightarrow> Inr os)))"

definition collectLLite_program :: "ClientCollector \<Rightarrow> ClientTarget \<Rightarrow> observation list result program" where
  "collectLLite_program c t =
     thenResult (CallRead (StatsPath t) Return) (\<lambda>data.
     thenResult (Return (ParseLLiteStats data (StatsPath t) ''client'' (TName t))) (\<lambda>os.
     thenResult (forEach (lliteSingleFile_program c t) lliteSingleFiles) (\<lambda>singles.
       Return (Inr (os @ singles)))))"

definition collectOBDStats_program :: "ClientCollector \<Rightarrow> ClientTarget \<Rightarrow> observation list result program" where
  "collectOBDStats_program c t =
     (if StatsPath t = [] then Return (Inr [])
      else CallRead (StatsPath t) (\<lambda>r. Return (case r of
          Inl err \<Rightarrow> strictError (strict c) err
        | Inr data \<Rightarrow>
            (case ParseOBDStats data (StatsPath t) ''client'' (TName t) (Component t) of
               Inl err \<Rightarrow> strictError (strict c) err
             | Inr os \<Rightarrow> Inr os))))"

definition collectRPCStats_program :: "ClientCollector \<Rightarrow> ClientTarget \<Rightarrow> observation list result program" where
  "collectRPCStats_program c t =
     (if RpcStatsPath t = [] then Return (Inr [])
      else CallRead (RpcStatsPath t) (\<lambda>r. Return (case r of
          Inl err \<Rightarrow> if is_not_exist err then Inr [] else strictError (strict c) err
        | Inr data \<Rightarrow>
            (case ParseRPCStats data (RpcStatsPath t) ''client'' (TName t) (Component t) of
               Inl err \<Rightarrow> strictError (strict c) err
             | Inr os \<Rightarrow> Inr os))))"

definition clientParamFile_program ::
  "ClientCollector \<Rightarrow> ClientTarget \<Rightarrow> string \<Rightarrow> observation list result program" where
  "clientParamFile_program c t nm =
     andThen (readParamFile_program t nm) (\<lambda>r. Return (case r of
         Inl err \<Rightarrow> Inr []
       | Inr (data, path) \<Rightarrow>
           (case parseClientParamFile data path nm t of
              Inl err \<Rightarrow> if strict c then Inl err else Inr []
            | Inr os \<Rightarrow> Inr os)))"

definition collectRPC_program :: "ClientCollector \<Rightarrow> ClientTarget \<Rightarrow> observation list result program" where
  "collectRPC_program c t =
     thenResult (collectOBDStats_program c t) (\<lambda>os1.
     thenResult (collectRPCStats_program c t) (\<lambda>os2.
     thenResult (forEach (clientParamFile_program c t) (clientParamFiles (Component t))) (\<lambda>os3.
       Return (Inr (os1 @ os2 @ os3)))))"

definition collectTarget_program :: "ClientCollector \<Rightarrow> ClientTarget \<Rightarrow> observation list result program" where
  "collectTarget_program c t =
     (let orStrict = (\<lambda>p. andThen p (\<lambda>r. Return (case r of
          Inl err \<Rightarrow> strictError (strict c) err | Inr os \<Rightarrow> Inr os)))
      in if Component t = ''llite'' then orStrict (collectLLite_program c t)
         else if Component t = ''mdc'' \<or> Component t = ''osc'' then orStrict (collectRPC_program c t)
         else Return (Inr []))"

definition client_program :: "ClientCollector \<Rightarrow> observation list result program" where
  "client_program c =
     thenResult (DiscoverClients_program (cpathCfg c)) (\<lambda>ts.
     thenResult
       (andThen (collectLDLMCBD_program c) (\<lambda>r. Return (case r of
            Inr os \<Rightarrow> Inr os
          | Inl err \<Rightarrow> if strict c then Inl err else Inr [])))
       (\<lambda>ldlmObs.
     thenResult (forEach (collectTarget_program c) ts) (\<lambda>os. Return (Inr (ldlmObs @ os)))))"

lemma client_with [simp]:
  "creader (c\<lparr>creader := r\<rparr>) = r" "strict (c\<lparr>creader := r\<rparr>) = strict c"
  "cpathCfg (c\<lparr>creader := r\<rparr>) = cpathCfg c"
  by simp_all

lemma interp_LDLM [simp]: "interp r (collectLDLMCBD_program c) = collectLDLMCBD (c\<lparr>creader := r\<rparr>)"
  by (simp add: collectLDLMCBD_program_def collectLDLMCBD_def)

lemma interp_paramFile [simp]: "interp r (readParamFile_program t nm) = readParamFile r t nm"
  by (simp add: readParamFile_program_def readParamFile_def)

lemma interp_lliteSingle [simp]:
  "interp r (lliteSingleFile_program c t nm) = llite_single_file (c\<lparr>creader := r\<rparr>) t nm"
  unfolding lliteSingleFile_program_def llite_single_file_def client_with by simp

lemma interp_collectLLite [simp]:
  "interp r (collectLLite_program c t) = collectLLite (c\<lparr>creader := r\<rparr>) t"
  by (simp add: collectLLite_program_def collectLLite_def)

lemma interp_OBDStats [simp]:
  "interp r (collectOBDStats_program c t) = collectOBDStats (c\<lparr>creader := r\<rparr>) t"
  unfolding collectOBDStats_program_def collectOBDStats_def client_with by simp

lemma interp_RPCStats [simp]:
  "interp r (collectRPCStats_program c t) = collectRPCStats (c\<lparr>creader := r\<rparr>) t"
  unfolding collectRPCStats_program_def collectRPCStats_def client_with by simp

lemma interp_clientParam [simp]:
  "interp r (clientParamFile_program c t nm) = client_param_file (c\<lparr>creader := r\<rparr>) t nm"
  unfolding clientParamFile_program_def client_param_file_def client_with by simp

lemma interp_collectRPC [simp]:
  "interp r (collectRPC_program c t) = collectRPC (c\<lparr>creader := r\<rparr>) t"
  by (simp add: collectRPC_program_def collectRPC_def collectClientParams_def)

lemma interp_collectTarget [simp]:
  "interp r (collectTarget_program c t) = collectTarget (c\<lparr>creader := r\<rparr>) t"
  unfolding collectTarget_program_def collectTarget_def client_with Let_def by simp

lemma interp_client [simp]: "interp r (client_program c) = client_observations (c\<lparr>creader := r\<rparr>)"
  unfolding client_program_def client_observations_def client_with by simp

section \<open>The LNet collector\<close>

definition netShow_program :: "LNetCollector \<Rightarrow> string result program" where
  "netShow_program c =
     CallCommand (lnetctlBin c) [''net'', ''show'', ''-v'', ''3''] (\<lambda>r. case r of
       Inr netData \<Rightarrow> Return (Inr netData)
     | Inl err \<Rightarrow> CallCommand (lnetctlBin c) [''net'', ''show''] Return)"

definition collectFromDebugFS_program :: "LNetCollector \<Rightarrow> observation list result program" where
  "collectFromDebugFS_program c =
     thenResult (ReadFirstAvailable_program (LNetStatsPaths (npathCfg c)))
       (\<lambda>(data, path). Return (ParseLNetStats data path))"

definition collectFromLNetCtl_program ::
  "lnetctl_decoders \<Rightarrow> LNetCollector \<Rightarrow> observation list result program" where
  "collectFromLNetCtl_program dec c =
     thenResult (CallCommand (lnetctlBin c) [''stats'', ''show''] Return) (\<lambda>data.
     thenResult (Return (ParseLNetCtlStats (yaml_stats dec) data ''lnetctl stats show'')) (\<lambda>os.
     andThen (netShow_program c) (\<lambda>r. Return (case r of
         Inl err \<Rightarrow> Inr os
       | Inr netData \<Rightarrow> Inr (add_net_show dec os netData)))))"

definition collectSupplementalNetNI_program ::
  "lnetctl_decoders \<Rightarrow> LNetCollector \<Rightarrow> observation list program" where
  "collectSupplementalNetNI_program dec c =
     andThen (netShow_program c) (\<lambda>r. Return (case r of
         Inl err \<Rightarrow> []
       | Inr netData \<Rightarrow> or_empty (parse_net_ni dec netData)))"

fun collectParams_program :: "LNetCollector \<Rightarrow> string list \<Rightarrow> observation list program" where
  "collectParams_program c [] = Return []"
| "collectParams_program c (nm # nms) =
     andThen (ReadFirstAvailable_program (LNetParamPaths (npathCfg c) nm)) (\<lambda>r.
     andThen (collectParams_program c nms) (\<lambda>os. Return
       ((case r of Inl err \<Rightarrow> [] | Inr (data, path) \<Rightarrow> or_empty (ParseLNetParam data path nm)) @ os)))"

definition lnetStats_program ::
  "lnetctl_decoders \<Rightarrow> LNetCollector \<Rightarrow> (string list \<times> observation list result) program" where
  "lnetStats_program dec c =
     (case lnet_source c of
        LNetSourceLNetCtl \<Rightarrow> andThen (collectFromLNetCtl_program dec c) (\<lambda>r. Return ([''lctl''], r))
      | LNetSourceDebugFS \<Rightarrow> andThen (collectFromDebugFS_program c) (\<lambda>r. Return ([''sys''], r))
      | LNetSourceAuto \<Rightarrow>
          andThen (collectFromDebugFS_program c) (\<lambda>r. case r of
            Inl err \<Rightarrow> andThen (collectFromLNetCtl_program dec c) (\<lambda>r'. Return ([''sys'', ''lctl''], r'))
          | Inr os \<Rightarrow>
              andThen (collectSupplementalNetNI_program dec c) (\<lambda>niObs. Return ([''sys''], Inr (os @ niObs)))))"

definition lnet_program ::
  "lnetctl_decoders \<Rightarrow> LNetCollector \<Rightarrow> (string list \<times> observation list result) program" where
  "lnet_program dec c =
     andThen (lnetStats_program dec c) (\<lambda>(sources, r). case r of
       Inl err \<Rightarrow> Return (sources, Inl err)
     | Inr os \<Rightarrow> andThen (collectParams_program c LNetParamNames) (\<lambda>ps. Return (sources, Inr (os @ ps))))"

lemma interp_netShow [simp]: "interp r (netShow_program c) = net_show_data (c\<lparr>nreader := r\<rparr>)"
  by (simp add: netShow_program_def net_show_data_def split: sum.split)

lemma interp_fromDebugFS [simp]:
  "interp r (collectFromDebugFS_program c) = collectFromDebugFS (c\<lparr>nreader := r\<rparr>)"
  by (simp add: collectFromDebugFS_program_def collectFromDebugFS_def split_def)

lemma interp_fromLNetCtl [simp]:
  "interp r (collectFromLNetCtl_program dec c) = collectFromLNetCtl dec (c\<lparr>nreader := r\<rparr>)"
  by (simp add: collectFromLNetCtl_program_def collectFromLNetCtl_def)

lemma interp_supplemental [simp]:
  "interp r (collectSupplementalNetNI_program dec c) = collectSupplementalNetNI dec (c\<lparr>nreader := r\<rparr>)"
  by (simp add: collectSupplementalNetNI_program_def collectSupplementalNetNI_def)

lemma interp_params:
  "interp r (collectParams_program c nms) = concat (map (collectParam (c\<lparr>nreader := r\<rparr>)) nms)"
  by (induction nms) (simp_all add: collectParam_def)

lemma interp_lnetStats [simp]:
  "interp r (lnetStats_program dec c) = lnet_stats_observations dec (c\<lparr>nreader := r\<rparr>)"
  by (simp add: lnetStats_program_def lnet_stats_observations_def split: LNetSource.split sum.split)

lemma interp_lnet [simp]:
  "interp r (lnet_program dec c) =
     (fst (lnet_stats_observations dec (c\<lparr>nreader := r\<rparr>)), lnet_observations dec (c\<lparr>nreader := r\<rparr>))"
  by (simp add: lnet_program_def lnet_observations_def interp_params collectParams_def split_def
      split: sum.split)

section \<open>Any collector\<close>


definition with_reader :: "reader \<Rightarrow> collector \<Rightarrow> collector" where
  "with_reader r c =
     (case c of
        CHealth h \<Rightarrow> CHealth (h\<lparr>hreader := r\<rparr>)
      | CSptlrpc s \<Rightarrow> CSptlrpc (s\<lparr>sreader := r\<rparr>)
      | CLNet l \<Rightarrow> CLNet (l\<lparr>nreader := r\<rparr>)
      | CClient k \<Rightarrow> CClient (k\<lparr>creader := r\<rparr>)
      | CLpcc p \<Rightarrow> CLpcc (p\<lparr>lreader := r\<rparr>))"


lemma collectors_with_reader:
  "collectors_of cfg (\<lambda>rt. f rt) = map (with_reader (f (RootFS cfg))) (collectors_of cfg mk)"
  by (simp add: collectors_of_def with_reader_def Let_def)

lemma with_reader_names [simp]:
  "collector_name (with_reader r c) = collector_name c" "ScrapeSource (with_reader r c) = ScrapeSource c"
  by (cases c; simp add: with_reader_def collector_name_def ScrapeSource_def LNet_ScrapeSource_def)+

section \<open>Deadlines\<close>







section \<open>Every collector returns\<close>






section \<open>Two worlds\<close>











end
