(* ===== verification/Go_Flags.thy ===== *)
theory Go_Flags
  imports Parse_Float Go_Strings
begin

text \<open>
  What the exporter uses of Go's standard library on its command line: \<^verbatim>\<open>strconv.ParseBool\<close>,
  \<^verbatim>\<open>time.ParseDuration\<close> and the syntax of one argument of \<^verbatim>\<open>flag.FlagSet.Parse\<close>.
\<close>

section \<open>Booleans\<close>

definition ParseBool :: "string \<Rightarrow> bool option" where
  "ParseBool s =
     (if s \<in> set [''1'', ''t'', ''T'', ''true'', ''TRUE'', ''True''] then Some True
      else if s \<in> set [''0'', ''f'', ''F'', ''false'', ''FALSE'', ''False''] then Some False
      else None)"

section \<open>Durations\<close>

text \<open>
  A duration is a sum of numbers with a unit, in nanoseconds.  The code accumulates in a \<open>uint64\<close>:
  every part is checked against 2^63, and the sum of two such parts wraps only when both are 2^63.
\<close>

definition duration_units :: "(string \<times> int) list" where
  "duration_units =
     [(''ns'', 1), (''us'', 1000), (CHR 0xC2 # CHR 0xB5 # ''s'', 1000), (CHR 0xCE # CHR 0xBC # ''s'', 1000),
      (''ms'', 1000000), (''s'', 1000000000), (''m'', 60000000000), (''h'', 3600000000000)]"

text \<open>The leading digits of a string as a number of at most 2^63, and the rest.\<close>

fun leadingInt :: "int \<Rightarrow> string \<Rightarrow> (int \<times> string) option" where
  "leadingInt x [] = Some (x, [])"
| "leadingInt x (c # s) =
     (if \<not> is_digit c then Some (x, c # s)
      else if x > 2 ^ 63 div 10 then None
      else if x * 10 + digit_of c > 2 ^ 63 then None
      else leadingInt (x * 10 + digit_of c) s)"

text \<open>The digits of a fraction: their value, its scale, and the rest; digits that overflow are dropped.\<close>

fun leadingFraction :: "bool \<Rightarrow> int \<Rightarrow> float64 \<Rightarrow> string \<Rightarrow> int \<times> float64 \<times> string" where
  "leadingFraction over x scale [] = (x, scale, [])"
| "leadingFraction over x scale (c # s) =
     (if \<not> is_digit c then (x, scale, c # s)
      else if over \<or> x > (2 ^ 63 - 1) div 10 \<or> x * 10 + digit_of c > 2 ^ 63
      then leadingFraction True x scale s
      else leadingFraction False (x * 10 + digit_of c) (f_mul scale (f_of_int 10)) s)"

text \<open>\<open>uint64\<close> of a float that is not negative.\<close>

fun f_trunc :: "float64 \<Rightarrow> int" where
  "f_trunc (F_Fin s m e) = (if 0 \<le> e then m * 2 ^ nat e else m div 2 ^ nat (- e))"
| "f_trunc _ = 0"

definition unit_end :: "char \<Rightarrow> bool" where
  "unit_end c \<longleftrightarrow> c = CHR ''.'' \<or> is_digit c"

text \<open>The fraction after the digits: its value, its scale, the rest, and whether it has digits.\<close>

definition duration_fraction :: "string \<Rightarrow> int \<times> float64 \<times> string \<times> bool" where
  "duration_fraction s =
     (if s \<noteq> [] \<and> hd s = CHR ''.'' then
        (case leadingFraction False 0 (f_of_int 1) (tl s) of
           (f, scale, r) \<Rightarrow> (f, scale, r, length r \<noteq> length (tl s)))
      else (0, f_of_int 1, s, False))"

text \<open>One part: its value in nanoseconds and the rest of the string.\<close>

definition duration_part :: "string \<Rightarrow> (int \<times> string) option" where
  "duration_part s =
     (if s = [] \<or> \<not> unit_end (hd s) then None
      else
        (case leadingInt 0 s of
           None \<Rightarrow> None
         | Some (v, s1) \<Rightarrow>
             let pre = length s1 \<noteq> length s;
                 (f, scale, s2, post) = duration_fraction s1;
                 u = takeWhile (\<lambda>c. \<not> unit_end c) s2;
                 s3 = dropWhile (\<lambda>c. \<not> unit_end c) s2
             in if \<not> pre \<and> \<not> post then None
                else if u = [] then None
                else
                  (case map_of duration_units u of
                     None \<Rightarrow> None
                   | Some unit \<Rightarrow>
                       if v > 2 ^ 63 div unit then None
                       else
                         let v1 = v * unit;
                             v2 = (if f > 0
                                   then v1 + f_trunc (f_mul (f_of_int f) (f_div (f_of_int unit) scale))
                                   else v1)
                         in if v2 > 2 ^ 63 then None else Some (v2, s3))))"

lemma leadingInt_shorter: "leadingInt x s = Some (v, r) \<Longrightarrow> length r \<le> length s"
  by (induction x s rule: leadingInt.induct) (auto split: if_splits)

lemma leadingFraction_shorter: "leadingFraction over x sc s = (f, sc', r) \<Longrightarrow> length r \<le> length s"
  by (induction over x sc s rule: leadingFraction.induct) (auto split: if_splits)

lemma unit_end_hd:
  assumes "takeWhile (\<lambda>c. \<not> P c) s \<noteq> []"
  shows "length (dropWhile (\<lambda>c. \<not> P c) s) < length s"
proof -
  have "length s = length (takeWhile (\<lambda>c. \<not> P c) s) + length (dropWhile (\<lambda>c. \<not> P c) s)"
    by (metis length_append takeWhile_dropWhile_id)
  with assms show ?thesis by simp
qed

lemma duration_part_shorter:
  assumes "duration_part s = Some (v, r)"
  shows "length r < length s"
proof -
  from assms obtain w s1 where li: "leadingInt 0 s = Some (w, s1)"
    by (auto simp: duration_part_def split: if_splits option.splits)
  obtain f sc s2 post where fr: "duration_fraction s1 = (f, sc, s2, post)" by (cases "duration_fraction s1")
  have s2: "length s2 \<le> length s1"
    using leadingFraction_shorter [of False 0 "f_of_int 1" "tl s1"] fr
    by (fastforce simp: duration_fraction_def split: if_splits prod.splits)
  from assms li fr have "r = dropWhile (\<lambda>c. \<not> unit_end c) s2 \<and> takeWhile (\<lambda>c. \<not> unit_end c) s2 \<noteq> []"
    unfolding duration_part_def Let_def by (simp split: if_splits option.splits)
  with unit_end_hd [of unit_end s2] s2 leadingInt_shorter [OF li] show ?thesis by simp
qed


function duration_parts :: "int \<Rightarrow> string \<Rightarrow> int option" where
  "duration_parts d s =
     (if s = [] then Some d
      else
        (case duration_part s of
           None \<Rightarrow> None
         | Some (v, r) \<Rightarrow>
             let d' = (d + v) mod 2 ^ 64 in
             if d' > 2 ^ 63 then None else duration_parts d' r))"
  by pat_completeness auto

termination
  by (relation "measure (\<lambda>(d, s). length s)") (auto dest: duration_part_shorter)

declare duration_parts.simps [simp del]

text \<open>A \<open>time.Duration\<close> is an \<open>int64\<close>, so -2^63 is a duration and 2^63 is none.\<close>

definition ParseDuration :: "string \<Rightarrow> int option" where
  "ParseDuration orig =
     (let neg = (orig \<noteq> [] \<and> hd orig = CHR ''-'');
          s = (if orig \<noteq> [] \<and> (hd orig = CHR ''-'' \<or> hd orig = CHR ''+'') then tl orig else orig)
      in if s = ''0'' then Some 0
         else if s = [] then None
         else
           (case duration_parts 0 s of
              None \<Rightarrow> None
            | Some d \<Rightarrow> if neg then Some (- d) else if d > 2 ^ 63 - 1 then None else Some d))"

section \<open>Arguments\<close>

text \<open>
  One argument, as \<^verbatim>\<open>FlagSet.parseOne\<close> reads it: where the flags end, a malformed flag, or a flag
  with its name and the value given after \<open>=\<close>.
\<close>

datatype flag_word =
    NotAFlag
  | EndOfFlags
  | BadSyntax
  | FlagWord string "string option"

definition split_value :: "string \<Rightarrow> string \<times> string option" where
  "split_value nm =
     (let k = takeWhile (\<lambda>c. c \<noteq> CHR ''='') (tl nm) in
      if length k = length (tl nm) then (nm, None)
      else (hd nm # k, Some (drop (length k + 2) nm)))"

definition flag_word :: "string \<Rightarrow> flag_word" where
  "flag_word s =
     (if length s < 2 \<or> hd s \<noteq> CHR ''-'' then NotAFlag
      else if s = ''--'' then EndOfFlags
      else
        let nm = (if s ! 1 = CHR ''-'' then drop 2 s else drop 1 s) in
        if nm = [] \<or> hd nm = CHR ''-'' \<or> hd nm = CHR ''='' then BadSyntax
        else (case split_value nm of (n, v) \<Rightarrow> FlagWord n v))"

end
