(* ===== verification/Flags.thy ===== *)
theory Flags
  imports Go_Flags Exporter_Main
begin

text \<open>
  The command line of the exporter: \<open>parseFlags\<close> of \<^verbatim>\<open>cmd/lustre_client_exporter/main.go\<close> over the
  syntax of Go's \<^verbatim>\<open>flag\<close> package, and \<open>main\<close>.  The flag set is \<open>flag.CommandLine\<close>, which prints the usage
  and exits with 0 when help is asked for and with 2 on any error.
\<close>

section \<open>The flags\<close>

text \<open>A flag is the way its value is read and set; \<open>DurationVar\<close> sets nanoseconds.\<close>

datatype flag_var =
    StringVar "string \<Rightarrow> Config \<Rightarrow> Config"
  | BoolVar "bool \<Rightarrow> Config \<Rightarrow> Config"
  | DurationVar "int \<Rightarrow> Config \<Rightarrow> Config"

definition flag_table :: "(string \<times> flag_var) list" where
  "flag_table =
     [(''web.listen-address'', StringVar (\<lambda>v c. c\<lparr>ListenAddress := v\<rparr>)),
      (''web.telemetry-path'', StringVar (\<lambda>v c. c\<lparr>TelemetryPath := v\<rparr>)),
      (''web.config.file'', StringVar (\<lambda>v c. c\<lparr>WebConfigFile := v\<rparr>)),
      (''collector.client'', BoolVar (\<lambda>v c. c\<lparr>CollectorClient := v\<rparr>)),
      (''collector.lnet'', BoolVar (\<lambda>v c. c\<lparr>CollectorLNet := v\<rparr>)),
      (''collector.health'', BoolVar (\<lambda>v c. c\<lparr>CollectorHealth := v\<rparr>)),
      (''collector.sptlrpc'', BoolVar (\<lambda>v c. c\<lparr>CollectorSptlrpc := v\<rparr>)),
      (''collector.lpcc'', BoolVar (\<lambda>v c. c\<lparr>CollectorLpcc := v\<rparr>)),
      (''collector.lnet.source'', StringVar (\<lambda>v c. c\<lparr>LNetSourceName := v\<rparr>)),
      (''collector.scrape-timeout'', DurationVar (\<lambda>v c. c\<lparr>ScrapeTimeout := v\<rparr>)),
      (''collector.source-timeout'', DurationVar (\<lambda>v c. c\<lparr>SourceTimeout := v\<rparr>)),
      (''collector.strict'', BoolVar (\<lambda>v c. c\<lparr>Strict := v\<rparr>)),
      (''path.rootfs'', StringVar (\<lambda>v c. c\<lparr>RootFS := v\<rparr>)),
      (''path.procfs'', StringVar (\<lambda>v c. c\<lparr>ProcFSPath := v\<rparr>)),
      (''path.sysfs'', StringVar (\<lambda>v c. c\<lparr>SysFSPath := v\<rparr>)),
      (''path.debugfs'', StringVar (\<lambda>v c. c\<lparr>DebugFSPath := v\<rparr>)),
      (''path.lnetctl'', StringVar (\<lambda>v c. c\<lparr>LNetCtl := v\<rparr>)),
      (''path.lpcc'', StringVar (\<lambda>v c. c\<lparr>LpccBinPath := v\<rparr>)),
      (''log.level'', StringVar (\<lambda>v c. c\<lparr>LogLevel := v\<rparr>)),
      (''version'', BoolVar (\<lambda>v c. c\<lparr>ShowVersion := v\<rparr>))]"

definition flag_named :: "string \<rightharpoonup> flag_var" where
  "flag_named = map_of flag_table"

text \<open>\<open>Value.Set\<close> of a flag; \<open>None\<close> is an error.\<close>

fun set_flag :: "flag_var \<Rightarrow> string \<Rightarrow> Config \<Rightarrow> Config option" where
  "set_flag (StringVar f) v c = Some (f v c)"
| "set_flag (BoolVar f) v c = (case ParseBool v of None \<Rightarrow> None | Some b \<Rightarrow> Some (f b c))"
| "set_flag (DurationVar f) v c = (case ParseDuration v of None \<Rightarrow> None | Some d \<Rightarrow> Some (f d c))"

fun is_bool_flag :: "flag_var \<Rightarrow> bool" where
  "is_bool_flag (BoolVar f) = True"
| "is_bool_flag _ = False"

section \<open>Parsing\<close>

text \<open>The configuration and the arguments left over, or how parsing ends the program.\<close>

datatype flags_result =
    Parsed Config "string list"
  | HelpExit
  | UsageExit

text \<open>
  The loop of \<open>FlagSet.Parse\<close>.  A boolean flag takes a value only after \<open>=\<close>; any other flag takes the next
  argument, whatever it looks like.
\<close>

fun parse_args :: "string list \<Rightarrow> Config \<Rightarrow> flags_result" where
  "parse_args [] cfg = Parsed cfg []"
| "parse_args (s # args) cfg =
     (case flag_word s of
        NotAFlag \<Rightarrow> Parsed cfg (s # args)
      | EndOfFlags \<Rightarrow> Parsed cfg args
      | BadSyntax \<Rightarrow> UsageExit
      | FlagWord nm val \<Rightarrow>
          (case flag_named nm of
             None \<Rightarrow> if nm = ''help'' \<or> nm = ''h'' then HelpExit else UsageExit
           | Some fl \<Rightarrow>
               (case val of
                  Some v \<Rightarrow>
                    (case set_flag fl v cfg of None \<Rightarrow> UsageExit | Some cfg' \<Rightarrow> parse_args args cfg')
                | None \<Rightarrow>
                    if is_bool_flag fl then
                      (case set_flag fl ''true'' cfg of None \<Rightarrow> UsageExit | Some cfg' \<Rightarrow> parse_args args cfg')
                    else
                      (case args of
                         [] \<Rightarrow> UsageExit
                       | v # args' \<Rightarrow>
                           (case set_flag fl v cfg of
                              None \<Rightarrow> UsageExit
                            | Some cfg' \<Rightarrow> parse_args args' cfg')))))"

definition parseFlags :: "string list \<Rightarrow> flags_result" where
  "parseFlags args = parse_args args default_flags"

text \<open>\<open>main\<close>: the arguments left over are not looked at.\<close>

definition main_run :: "string list \<Rightarrow> (string \<Rightarrow> reader) \<Rightarrow> run_result" where
  "main_run args mk =
     (case parseFlags args of
        Parsed cfg rest \<Rightarrow> run cfg mk
      | HelpExit \<Rightarrow> Exit 0
      | UsageExit \<Rightarrow> Exit 2)"

section \<open>Flags with a value\<close>








section \<open>Printed configurations\<close>













section \<open>Properties\<close>



lemma parse_rest:
  "parse_args us c = Parsed c' [] \<Longrightarrow> ''--'' \<notin> set us \<Longrightarrow> parse_args (us @ vs) c = parse_args vs c'"
proof (induction us c rule: parse_args.induct)
  case (2 s args cfg)
  show ?case
  proof (cases "flag_word s")
    case NotAFlag
    with 2 show ?thesis by simp
  next
    case EndOfFlags
    with 2 show ?thesis by (auto simp: flag_word_def Let_def split: if_splits prod.splits)
  next
    case BadSyntax
    with 2 show ?thesis by simp
  next
    case (FlagWord nm val)
    with "2.prems"(1) obtain fl where fl: "flag_named nm = Some fl"
      by (auto split: option.splits if_splits)
    show ?thesis
    proof (cases val)
      case (Some v)
      with "2.prems"(1) FlagWord fl obtain c1 where "set_flag fl v cfg = Some c1"
        by (auto split: option.splits)
      with 2 FlagWord fl Some show ?thesis by simp
    next
      case None
      show ?thesis
      proof (cases "is_bool_flag fl")
        case True
        with "2.prems"(1) FlagWord fl None obtain c1 where "set_flag fl ''true'' cfg = Some c1"
          by (auto split: option.splits)
        with 2 FlagWord fl None True show ?thesis by simp
      next
        case False
        with "2.prems"(1) FlagWord fl None obtain v args' c1 where
          "args = v # args'" "set_flag fl v cfg = Some c1"
          by (auto split: option.splits list.splits)
        with 2 FlagWord fl None False show ?thesis by simp
      qed
    qed
  qed
qed simp

text \<open>
  C38: Parsing stops at the first argument that is no flag, and the program never looks at the rest: everything
  after it, unknown flags and \<open>-collector.strict\<close> included, has no effect.
\<close>

theorem trailing_arguments_ignored:
  assumes "parseFlags us = Parsed c []" "''--'' \<notin> set us" "flag_word a = NotAFlag"
  shows "main_run (us @ a # vs) mk = main_run us mk"
  using assms(1,3) parse_rest [OF assms(1) [unfolded parseFlags_def] assms(2)]
  by (simp add: main_run_def parseFlags_def)

lemma trailing_arguments_ignored_witness:
  "main_run [''-collector.lpcc'', ''true'', ''-collector.strict'', ''-no-such-flag''] (\<lambda>p. demo_lnetctl) =
     main_run [''-collector.lpcc''] (\<lambda>p. demo_lnetctl)"
  using trailing_arguments_ignored [of "[''-collector.lpcc'']" _ "''true''"
      "[''-collector.strict'', ''-no-such-flag'']"]
  by (simp add: parseFlags_def flag_word_def split_value_def flag_named_def flag_table_def ParseBool_def)

text \<open>
  The collector flags that the design documents besides those of the program are unknown to it: each of
  them makes it exit with status 2.
\<close>

theorem documented_flags_rejected:
  "list_all (\<lambda>f. main_run [f] mk = Exit 2)
     [''--collector.disable-defaults'', ''--no-collector.client'', ''--no-collector.lnet'',
      ''--no-collector.health'', ''--no-collector.sptlrpc'']"
  by (simp add: main_run_def parseFlags_def flag_word_def split_value_def flag_named_def flag_table_def)

end
