(* ===== verification/Web.thy ===== *)
theory Web
  imports Flags
begin

text \<open>
  The HTTP side of \<^verbatim>\<open>cmd/lustre_client_exporter/main.go\<close>: the two handlers that \<open>run\<close> registers, the
  landing page, and which of them answers a request.  What the handler of the Prometheus library writes
  is not modelled, nor are \<open>CONNECT\<close> requests and the request target \<open>*\<close>.
\<close>

section \<open>The handlers\<close>

text \<open>What a request is answered with; a redirect has the path of its target.\<close>

datatype response =
    MetricsPage
  | Html string
  | MovedPermanently string

text \<open>\<open>~\<close> stands for a quotation mark.\<close>

definition quoted :: "string \<Rightarrow> string" where
  "quoted s = map (\<lambda>c. if c = CHR ''~'' then CHR 0x22 else c) s"

definition landing_page :: "string \<Rightarrow> string" where
  "landing_page telemetryPath =
     ''<html><head><title>Lustre Client Exporter</title></head>'' @
     ''<body><h1>Lustre Client Exporter</h1>'' @
     quoted ''<p><a href=~'' @ telemetryPath @ quoted ''~>Metrics</a></p></body></html>''"

text \<open>
  The handler of a path that needs no redirect: the telemetry pattern wins over \<open>/\<close> whenever it matches,
  since it is the more specific of the two.
\<close>

definition handler_for :: "pattern \<Rightarrow> string \<Rightarrow> string \<Rightarrow> string \<Rightarrow> pattern" where
  "handler_for p host m path = (if matches_request p host m path then p else root_pattern)"

text \<open>A path that would match exactly with a slash at its end is redirected there.\<close>

definition slash_redirect :: "pattern \<Rightarrow> string \<Rightarrow> string \<Rightarrow> string \<Rightarrow> bool" where
  "slash_redirect p host m path \<longleftrightarrow>
     \<not> exactMatch (handler_for p host m path) path \<and> path \<noteq> [] \<and> last path \<noteq> slash \<and>
     exactMatch (handler_for p host m (path @ ''/'')) (path @ ''/'')"

text \<open>\<open>ServeMux.ServeHTTP\<close> for a request with the method \<open>m\<close>, the host without its port and the escaped path.\<close>

definition respond :: "string \<Rightarrow> pattern \<Rightarrow> string \<Rightarrow> string \<Rightarrow> string \<Rightarrow> response" where
  "respond telemetryPath p host m path =
     (let path' = cleanPath path in
      if slash_redirect p host m path' then MovedPermanently (cleanPath (pathUnescape path) @ ''/'')
      else if path' \<noteq> path then MovedPermanently path'
      else if handler_for p host m path' = p then MetricsPage
      else Html (landing_page telemetryPath))"

text \<open>The answers of a running exporter; \<open>None\<close> when it does not come to serve.\<close>

definition answer :: "run_result \<Rightarrow> string \<Rightarrow> string \<Rightarrow> string \<Rightarrow> response option" where
  "answer rr host m path =
     (case rr of
        Serve addr telemetryPath reg \<Rightarrow>
          map_option (\<lambda>p. respond telemetryPath p host m path) (parsePattern telemetryPath)
      | _ \<Rightarrow> None)"

section \<open>Conflicts with the root\<close>

lemma combine_root:
  "combineRelationships Equivalent r = r"
  "combineRelationships MoreGeneral Equivalent = MoreGeneral"
  "combineRelationships MoreGeneral MoreGeneral = MoreGeneral"
  "combineRelationships MoreGeneral Disjoint = Disjoint"
  by (simp_all add: combineRelationships_def inverseRelationship_def)

lemma compare_root:
  assumes "segs \<noteq> []"
  shows "compare_loop True b Equivalent [Multi []] segs =
     (case segs of [Multi nm] \<Rightarrow> Equivalent | _ \<Rightarrow> MoreGeneral)"
proof (cases segs)
  case (Cons s ss)
  then show ?thesis by (cases s; cases ss) (simp_all add: combineRelationships_def inverseRelationship_def)
qed (use assms in simp)

lemma parse_segments_ne: "parse_segments names (s # ss) = Some segs \<Longrightarrow> segs \<noteq> []"
  by (auto simp: Let_def split: if_splits)

lemma parsePattern_ne:
  assumes "parsePattern s = Some p"
  shows "psegments p \<noteq> []"
proof -
  obtain path where "parse_segments [] (Split slash (tl path)) = Some (psegments p)"
    using assms by (auto simp: parsePattern_def Let_def split: if_splits)
  then show ?thesis
    using Split_ne [of slash "tl path"] parse_segments_ne by (metis list.exhaust)
qed

lemma conflicts_root:
  assumes "psegments p \<noteq> []"
  shows "conflictsWith root_pattern p \<longleftrightarrow> phost p = [] \<and> pmethod p = [] \<and> (\<exists>nm. psegments p = [Multi nm])"
proof -
  have paths: "comparePaths root_pattern p = (case psegments p of [Multi nm] \<Rightarrow> Equivalent | _ \<Rightarrow> MoreGeneral)"
    using compare_root [OF assms] by (simp add: comparePaths_def root_pattern_def)
  show ?thesis
  proof (cases "\<exists>nm. psegments p = [Multi nm]")
    case True
    then show ?thesis
      unfolding conflictsWith_def paths Let_def
      by (auto simp: compareMethods_def root_pattern_def combine_root)
  next
    case False
    then have "comparePaths root_pattern p = MoreGeneral"
      unfolding paths by (auto split: list.splits segment.splits)
    with False show ?thesis
      by (auto simp: conflictsWith_def compareMethods_def root_pattern_def combine_root Let_def)
  qed
qed


section \<open>Plain telemetry paths\<close>

text \<open>
  A path of segments that are not empty, without escapes, wildcards and blanks; \<open>/metrics\<close> is one.
\<close>

definition plain_char :: "char \<Rightarrow> bool" where
  "plain_char c \<longleftrightarrow> c \<noteq> CHR 0x25 \<and> c \<noteq> CHR ''{'' \<and> \<not> blank c"

definition plain_path :: "string \<Rightarrow> bool" where
  "plain_path p \<longleftrightarrow> rooted p \<and> list_all plain_char p \<and> list_all (\<lambda>w. w \<noteq> []) (Split slash (tl p))"

lemma Split_all_chars: "list_all (\<lambda>w. set w \<subseteq> set s) (Split c s)"
proof (induction s)
  case (Cons x s)
  then show ?case by (cases "Split c s") (auto simp: list_all_iff)
qed simp

lemma Split_chars: "w \<in> set (Split c s) \<Longrightarrow> x \<in> set w \<Longrightarrow> x \<in> set s"
  using Split_all_chars [of s c] by (auto simp: list_all_iff)

lemma pathUnescape_plain: "CHR 0x25 \<notin> set w \<Longrightarrow> pathUnescape w = w"
proof -
  assume "CHR 0x25 \<notin> set w"
  then have "path_unescape w = Some w" by (induction w) auto
  then show ?thesis by (simp add: pathUnescape_def)
qed

lemma parse_plain:
  assumes "list_all (\<lambda>w. w \<noteq> [] \<and> CHR 0x25 \<notin> set w \<and> CHR ''{'' \<notin> set w) ws"
  shows "parse_segments names ws = Some (map Literal ws)"
  using assms by (induction ws) (simp_all add: pathUnescape_plain)

lemma plain_words:
  assumes "plain_path p"
  shows "list_all (\<lambda>w. w \<noteq> [] \<and> CHR 0x25 \<notin> set w \<and> CHR ''{'' \<notin> set w) (Split slash (tl p))"
proof -
  from assms obtain q where q: "p = slash # q" by (cases p) (auto simp: plain_path_def rooted_def)
  have "w \<noteq> [] \<and> CHR 0x25 \<notin> set w \<and> CHR ''{'' \<notin> set w" if "w \<in> set (Split slash q)" for w
  proof -
    have "\<forall>x \<in> set q. x \<noteq> CHR 0x25 \<and> x \<noteq> CHR ''{''" "w \<noteq> []"
      using assms that by (simp_all add: plain_path_def plain_char_def q list_all_iff)
    then show ?thesis using Split_chars [OF that] by blast
  qed
  then show ?thesis
    by (simp add: q list_all_iff)
qed

lemma plain_parses:
  assumes "plain_path p"
  shows "parsePattern p = Some \<lparr>pmethod = [], phost = [], psegments = map Literal (Split slash (tl p))\<rparr>"
proof -
  have "\<forall>c \<in> set p. \<not> blank c" using assms by (simp add: plain_path_def plain_char_def list_all_iff)
  then have "takeWhile (\<lambda>c. \<not> blank c) p = p" by (simp add: takeWhile_eq_all_conv)
  moreover obtain q where "p = slash # q" using assms by (cases p) (auto simp: plain_path_def rooted_def)
  ultimately show ?thesis
    using parse_plain [OF plain_words [OF assms], of "[]"] by (simp add: parsePattern_def Let_def)
qed

text \<open>The first piece of a path, and the rest from the next slash on.\<close>

lemma Split_first:
  "Split slash s =
     (let rest = dropWhile (\<lambda>c. c \<noteq> slash) s
      in takeWhile (\<lambda>c. c \<noteq> slash) s # (if rest = [] then [] else Split slash (tl rest)))"
  by (induction s) (auto simp: Let_def)

text \<open>Literals match a path when its segments are the same after they are unescaped.\<close>

lemma match_literals:
  assumes "list_all (\<lambda>w. w \<noteq> [] \<and> slash \<notin> set w) ws" "q = [] \<or> hd q = slash"
  shows "match_segments (map Literal ws) q \<longleftrightarrow>
     (if q = [] then ws = [] else map pathUnescape (Split slash (tl q)) = ws)"
  using assms
proof (induction ws arbitrary: q)
  case (Cons w ws)
  have w: "w \<noteq> ''/''" "w \<noteq> []" and ws: "list_all (\<lambda>w. w \<noteq> [] \<and> slash \<notin> set w) ws"
    using Cons.prems(1) by auto
  show ?case
  proof (cases "tl q = []")
    case True
    then show ?thesis
      using w Cons.prems(2) by (cases q) (auto simp: firstSegment_def pathUnescape_def)
  next
    case False
    let ?tw = "takeWhile (\<lambda>c. c \<noteq> slash) (tl q)" and ?dw = "dropWhile (\<lambda>c. c \<noteq> slash) (tl q)"
    have dw: "?dw = [] \<or> hd ?dw = slash" using hd_dropWhile [of "\<lambda>c. c \<noteq> slash" "tl q"] by auto
    have "Split slash (tl q) = ?tw # (if ?dw = [] then [] else Split slash (tl ?dw))"
      using Split_first [of "tl q"] by (simp add: Let_def)
    moreover have "firstSegment q = (pathUnescape ?tw, ?dw)" "q \<noteq> []"
      using False by (auto simp: firstSegment_def)
    ultimately show ?thesis using Cons.IH [OF ws dw] by auto
  qed
qed (simp add: Split_ne)

lemma Split_last_slash: "Split slash (s @ [slash]) = Split slash s @ [[]]"
  using Split_append [of slash s "[]"] by simp

lemma Clean_rooted: "\<exists>r. Clean (slash # q) = slash # r"
  by (simp add: Clean_def rooted_def Let_def)

lemma hd_cleanPath: "\<exists>r. cleanPath q = slash # r"
proof (cases q)
  case (Cons c q')
  have "(if hd q = slash then q else slash # q) = slash # (if c = slash then q' else q)"
    by (simp add: Cons)
  then show ?thesis
    using Clean_rooted [of "if c = slash then q' else q"] by (auto simp: cleanPath_def Let_def Cons)
qed (simp add: cleanPath_def)

definition plain_pattern :: "string \<Rightarrow> pattern" where
  "plain_pattern tp = \<lparr>pmethod = [], phost = [], psegments = map Literal (Split slash (tl tp))\<rparr>"

lemma Split_no_sep_inside: "list_all (\<lambda>w. c \<notin> set w) (Split c s)"
proof (induction s)
  case (Cons x s)
  then show ?case by (cases "Split c s") auto
qed simp

lemma plain_matches:
  assumes "plain_path tp" "path = slash # r"
  shows "matches_request (plain_pattern tp) host m path \<longleftrightarrow>
     map pathUnescape (Split slash r) = Split slash (tl tp)"
proof -
  have "list_all (\<lambda>w. w \<noteq> [] \<and> slash \<notin> set w) (Split slash (tl tp))"
    using assms(1) Split_no_sep_inside [of slash "tl tp"] by (auto simp: plain_path_def list_all_iff)
  then show ?thesis
    using match_literals [of "Split slash (tl tp)" path] assms(2)
    by (simp add: matches_request_def plain_pattern_def match_method_def)
qed

lemma plain_exact: "exactMatch (plain_pattern tp) path"
  using Split_ne [of slash "tl tp"] by (simp add: exactMatch_def plain_pattern_def last_map)

lemma plain_not_root: "plain_pattern tp \<noteq> root_pattern"
  by (simp add: plain_pattern_def root_pattern_def map_eq_Cons_conv)

lemma plain_no_slash:
  assumes "plain_path tp"
  shows "\<not> matches_request (plain_pattern tp) host m (slash # r @ [slash])"
proof -
  have "pathUnescape [] = []" by (simp add: pathUnescape_def)
  then have "[] \<in> set (map pathUnescape (Split slash (r @ [slash])))" by (simp add: Split_last_slash)
  moreover have "[] \<notin> set (Split slash (tl tp))" using assms by (auto simp: plain_path_def list_all_iff)
  ultimately have "map pathUnescape (Split slash (r @ [slash])) \<noteq> Split slash (tl tp)" by metis
  then show ?thesis by (simp add: plain_matches [OF assms])
qed

lemma plain_no_redirect:
  assumes "plain_path tp"
  shows "\<not> slash_redirect (plain_pattern tp) host m (slash # r)"
proof (cases "matches_request (plain_pattern tp) host m (slash # r)")
  case True
  then show ?thesis by (simp add: slash_redirect_def handler_for_def plain_exact)
next
  case False
  have "handler_for (plain_pattern tp) host m (slash # r @ [slash]) = root_pattern"
    using plain_no_slash [OF assms, of host m r] by (simp add: handler_for_def)
  moreover have "\<not> exactMatch root_pattern (slash # r @ [slash])"
    by (simp add: exactMatch_def root_pattern_def)
  ultimately show ?thesis by (simp add: slash_redirect_def)
qed

lemma run_plain:
  assumes "\<not> ShowVersion cfg" "validateConfig cfg = None" "plain_path (TelemetryPath cfg)"
  shows "\<exists>reg. run cfg mk = Serve (ListenAddress cfg) (TelemetryPath cfg) reg"
    "parsePattern (TelemetryPath cfg) = Some (plain_pattern (TelemetryPath cfg))"
proof -
  show p: "parsePattern (TelemetryPath cfg) = Some (plain_pattern (TelemetryPath cfg))"
    using plain_parses [OF assms(3)] by (simp add: plain_pattern_def)
  have "\<not> conflictsWith root_pattern (plain_pattern (TelemetryPath cfg))"
    using conflicts_root [OF parsePattern_ne [OF p]] by (auto simp: plain_pattern_def map_eq_Cons_conv)
  with assms p show "\<exists>reg. run cfg mk = Serve (ListenAddress cfg) (TelemetryPath cfg) reg"
    by (simp add: run_def mux_panics_def)
qed

lemma served_at:
  assumes "\<not> ShowVersion cfg" "validateConfig cfg = None" "plain_path (TelemetryPath cfg)"
  shows "answer (run cfg mk) host m (slash # r) =
     Some (if cleanPath (slash # r) \<noteq> slash # r then MovedPermanently (cleanPath (slash # r))
           else if map pathUnescape (Split slash r) = Split slash (tl (TelemetryPath cfg)) then MetricsPage
           else Html (landing_page (TelemetryPath cfg)))"
proof -
  obtain r' where c: "cleanPath (slash # r) = slash # r'" using hd_cleanPath by blast
  show ?thesis
    using run_plain(1) [OF assms, of mk] run_plain(2) [OF assms] c
    by (auto simp: answer_def respond_def handler_for_def Let_def plain_no_redirect [OF assms(3)] plain_not_root
        plain_not_root [symmetric] plain_matches [OF assms(3) refl])
qed



section \<open>The link of the landing page\<close>

text \<open>The text between the first two quotation marks, where a browser reads the link.\<close>

definition link_target :: "string \<Rightarrow> string option" where
  "link_target page =
     (case cut_first (CHR 0x22) page of
        None \<Rightarrow> None
      | Some (a, b) \<Rightarrow> map_option fst (cut_first (CHR 0x22) b))"

text \<open>Characters that stand for themselves in the path of a link.\<close>

definition link_char :: "char \<Rightarrow> bool" where
  "link_char c \<longleftrightarrow> c \<notin> {CHR 0x22, CHR ''&'', CHR ''?'', CHR ''#''}"

lemma landing_link:
  assumes "CHR 0x22 \<notin> set tp"
  shows "link_target (landing_page tp) = Some tp"
proof -
  let ?a = "''<html><head><title>Lustre Client Exporter</title></head><body><h1>Lustre Client Exporter</h1><p><a href=''"
  let ?b = "''>Metrics</a></p></body></html>''"
  have "landing_page tp = ?a @ CHR 0x22 # tp @ CHR 0x22 # ?b" by (simp add: landing_page_def quoted_def)
  moreover have "cut_first (CHR 0x22) (?a @ CHR 0x22 # tp @ CHR 0x22 # ?b) = Some (?a, tp @ CHR 0x22 # ?b)"
    by (subst cut_first_Some) simp
  moreover have "cut_first (CHR 0x22) (tp @ CHR 0x22 # ?b) = Some (tp, ?b)"
    using assms by (subst cut_first_Some) simp
  ultimately show ?thesis by (simp add: link_target_def)
qed

lemma plain_unescape:
  assumes "plain_path tp"
  shows "map pathUnescape (Split slash (tl tp)) = Split slash (tl tp)"
  using plain_words [OF assms] by (intro map_idI) (auto simp: list_all_iff pathUnescape_plain)

text \<open>
  The landing page leads to the metrics: with a valid configuration and a plain, clean telemetry path of
  characters that need no escape in HTML or in a link, the page at \<open>/\<close> links to the telemetry path, and a
  request for it is answered with the metrics.
\<close>

lemma landing_link_works:
  assumes "\<not> ShowVersion cfg" "validateConfig cfg = None" "plain_path (TelemetryPath cfg)"
    "cleanPath (TelemetryPath cfg) = TelemetryPath cfg" "list_all link_char (TelemetryPath cfg)"
  shows "\<exists>page. answer (run cfg mk) host m ''/'' = Some (Html page) \<and>
     link_target page = Some (TelemetryPath cfg) \<and>
     answer (run cfg mk) host m (TelemetryPath cfg) = Some MetricsPage"
proof -
  let ?tp = "TelemetryPath cfg"
  obtain r where r: "?tp = slash # r" using assms(3) by (cases ?tp) (auto simp: plain_path_def rooted_def)
  have "[] \<notin> set (Split slash (tl ?tp))" using assms(3) by (auto simp: plain_path_def list_all_iff)
  then have "Split slash (tl ?tp) \<noteq> [[]]" by auto
  moreover have "cleanPath ''/'' = ''/''" by (simp add: cleanPath_def path_eval)
  ultimately have "answer (run cfg mk) host m ''/'' = Some (Html (landing_page ?tp))"
    using served_at [OF assms(1-3), of mk host m "[]"] by (simp add: pathUnescape_def)
  moreover have "CHR 0x22 \<notin> set ?tp" using assms(5) by (auto simp: list_all_iff link_char_def)
  moreover have "answer (run cfg mk) host m ?tp = Some MetricsPage"
    using served_at [OF assms(1-3), of mk host m r] assms(4) plain_unescape [OF assms(3)] by (simp add: r)
  ultimately show ?thesis using landing_link by blast
qed

lemma landing_link_works_witness:
  "\<exists>page. answer (run default_flags (\<lambda>_. undefined)) ''localhost'' ''GET'' ''/'' = Some (Html page) \<and>
     link_target page = Some ''/metrics'' \<and>
     answer (run default_flags (\<lambda>_. undefined)) ''localhost'' ''GET'' ''/metrics'' = Some MetricsPage"
  using landing_link_works [of default_flags "\<lambda>_. undefined" "''localhost''" "''GET''"]
  by (simp add: default_flags_def validateConfig_def plain_path_def plain_char_def blank_def rooted_def
      cleanPath_def path_eval link_char_def)

end
