(* ===== verification/Families.thy ===== *)
theory Families
  imports Exporter
begin

text \<open>
  What identifies a series, and the families of metrics: every metric of the contract belongs to one
  family, and every parser yields metrics of its own families only.
\<close>

section \<open>Series\<close>

definition series :: "observation \<Rightarrow> string \<times> (string \<rightharpoonup> string)" where
  "series ob = (case Registry (MetricID ob) of None \<Rightarrow> ([], Map.empty) | Some d \<Rightarrow> (Name d, Labels ob))"

definition identity :: "observation \<Rightarrow> string \<times> (string \<rightharpoonup> string)" where
  "identity ob = (MetricID ob, Labels ob)"

lemma identity_obs [simp]: "identity (obs col src mid mt ls v) = (mid, ls)"
  by (simp add: identity_def)

text \<open>Two metric IDs of the same name differ in the label \<open>nid\<close>.\<close>

lemma registered_label_set:
  assumes "Registry i = Some d" "Registry j = Some e" "Name d = Name e" "set (LabelKeys d) = set (LabelKeys e)"
  shows "i = j"
proof -
  have cases: "public_id k = k \<or> (k, public_id k) \<in> set nid_alias" for k
    by (auto simp: public_id_def dest: map_of_SomeD split: option.split)
  have same: "public_id i = public_id j"
    using registered_name [OF assms(1)] registered_name [OF assms(2)] assms(3) by simp
  consider "public_id i = i" "public_id j = j" | "(i, j) \<in> set nid_alias" | "(j, i) \<in> set nid_alias"
    | "(i, public_id j) \<in> set nid_alias" "(j, public_id j) \<in> set nid_alias"
    using cases [of i] cases [of j] same by metis
  then show ?thesis
  proof cases
    case 1
    with same show ?thesis by simp
  next
    case 2
    from nid_label [OF 2 assms(1)] no_nid_label [OF 2 assms(2)] assms(4) show ?thesis by simp
  next
    case 3
    from nid_label [OF 3 assms(2)] no_nid_label [OF 3 assms(1)] assms(4) show ?thesis by simp
  next
    case 4
    then show ?thesis by (rule nid_alias_inj)
  qed
qed

lemma series_identity:
  assumes "conforms ob" "conforms ob'"
  shows "series ob = series ob' \<longleftrightarrow> identity ob = identity ob'"
proof -
  from assms(1) obtain d where d: "Registry (MetricID ob) = Some d" "dom (Labels ob) = set (LabelKeys d)"
    by (auto simp: conforms_def split: option.splits)
  from assms(2) obtain e where e: "Registry (MetricID ob') = Some e" "dom (Labels ob') = set (LabelKeys e)"
    by (auto simp: conforms_def split: option.splits)
  show ?thesis
    using registered_label_set [OF d(1) e(1)] d e by (auto simp: series_def identity_def)
qed

definition distinct_series :: "observation list \<Rightarrow> bool" where
  "distinct_series os \<longleftrightarrow> distinct (map identity os)"

lemma distinct_series_simps [simp]:
  "distinct_series []"
  "distinct_series (ob # os) \<longleftrightarrow> identity ob \<notin> identity ` set os \<and> distinct_series os"
  by (simp_all add: distinct_series_def)

lemma distinct_series_filter: "distinct_series os \<Longrightarrow> distinct_series (filter p os)"
  by (simp add: distinct_series_def distinct_map_filter)

lemma distinct_series_iff: "all_conform os \<Longrightarrow> distinct_series os \<longleftrightarrow> distinct (map series os)"
  by (induction os) (auto simp: series_identity all_conform_def image_iff)

text \<open>Lists whose series carry distinct keys do not share one.\<close>

lemma distinct_series_keyed:
  assumes "distinct (map k xs)"
    and "\<And>x ob. x \<in> set xs \<Longrightarrow> ob \<in> set (f x) \<Longrightarrow> g (identity ob) = k x"
  shows "distinct_series (concat (map f xs)) \<longleftrightarrow> (\<forall>x \<in> set xs. distinct_series (f x))"
  using assms
proof (induction xs)
  case (Cons x xs)
  have "identity ` set (f x) \<inter> identity ` set (concat (map f xs)) = {}"
  proof (rule ccontr)
    assume "identity ` set (f x) \<inter> identity ` set (concat (map f xs)) \<noteq> {}"
    then obtain z where "z \<in> identity ` set (f x)" "z \<in> identity ` set (concat (map f xs))" by blast
    then obtain ob y ob' where "ob \<in> set (f x)" "y \<in> set xs" "ob' \<in> set (f y)" "identity ob = identity ob'"
      by auto
    with Cons.prems(2) [of x ob] Cons.prems(2) [of y ob'] have "k x = k y" by simp
    with Cons.prems(1) \<open>y \<in> set xs\<close> show False by (auto simp: image_iff)
  qed
  with Cons show ?case by (auto simp: distinct_series_def)
qed simp

section \<open>Families of metrics\<close>

datatype family =
    FHealth | FSptlrpc | FLNetCount | FLNetNid | FLNetNI | FLNetParam | FLdlm | FStats
  | FLliteFile | FClientFile | FRpc | FLpcc

definition metric_families :: "(string \<times> family) list" where
  "metric_families =
     [(''health_check'', FHealth)] @
     map (\<lambda>(k, i, t). (i, FSptlrpc)) sptlrpc_keys @
     map (\<lambda>(i, t). (i, FLNetCount)) lnetStatsFields @
     map (\<lambda>(i, j). (i, FLNetNid)) nid_alias @
     map (\<lambda>i. (i, FLNetNI))
       [''lnet_ni_up'', ''lnet_ni_health'', ''lnet_ni_health_interrupts_total'',
        ''lnet_ni_health_dropped_total'', ''lnet_ni_health_aborted_total'',
        ''lnet_ni_health_no_route_total'', ''lnet_ni_health_timeouts_total'',
        ''lnet_ni_health_errors_total''] @
     map (\<lambda>i. (i, FLNetParam))
       [''console_backoff_enabled'', ''console_max_delay_centiseconds'', ''console_min_delay_centiseconds'',
        ''console_ratelimit_enabled'', ''debug_megabytes'', ''panic_on_lbug_enabled'',
        ''watchdog_ratelimit_enabled'', ''catastrophe_enabled'', ''lnet_memory_used_bytes'',
        ''fail_error_total'', ''fail_maximum''] @
     [(''ldlm_cbd_stats'', FLdlm)] @
     map (\<lambda>i. (i, FStats))
       [''stats_total'', ''stats_seconds_sum'',
        ''read_samples_total'', ''read_minimum_size_bytes'', ''read_maximum_size_bytes'', ''read_bytes_total'',
        ''write_samples_total'', ''write_minimum_size_bytes'', ''write_maximum_size_bytes'', ''write_bytes_total''] @
     map (\<lambda>(p, i, t). (i, FLliteFile)) llite_single_files @
     map (\<lambda>(p, i, ty, n). (i, FClientFile)) client_single_files @ [(''target_state'', FClientFile)] @
     map (\<lambda>i. (i, FRpc))
       [''rpcs_current'', ''pending_pages'', ''pages_per_rpc_total'', ''rpcs_in_flight'', ''rpcs_offset''] @
     map (\<lambda>(i, t, v). (i, FLpcc)) (cache_table zero_cache_entry) @
     map (\<lambda>(i, t, v). (i, FLpcc)) (fs_table zero_fs_stats)"

definition family_of :: "string \<Rightarrow> family option" where
  "family_of i = map_of metric_families i"

lemmas family_tables =
  metric_families_def sptlrpc_keys_def lnetStatsFields_def nid_alias_def
  llite_single_files_def client_single_files_def cache_table_def fs_table_def Let_def

lemma distinct_families: "distinct (map fst metric_families)"
  by (simp only: family_tables append.simps list.map fst_conv prod.case distinct.simps
      list.set insert_iff empty_iff list.inject list.distinct char.inject simp_thms)

lemma family_member: "(i, f) \<in> set metric_families \<Longrightarrow> family_of i = Some f"
  by (simp add: family_of_def distinct_families)

lemma family_entries: "list_all (\<lambda>(i, f). family_of i = Some f) metric_families"
  by (auto simp: list_all_iff family_member)

lemmas family_lookup [simp] =
  family_entries [unfolded family_tables append.simps list.map prod.case list.pred_inject simp_thms]

text \<open>All observations of a list belong to one of the families.\<close>

definition in_families :: "family list \<Rightarrow> observation list \<Rightarrow> bool" where
  "in_families fs os \<longleftrightarrow> list_all (\<lambda>ob. list_ex (\<lambda>f. family_of (MetricID ob) = Some f) fs) os"

lemma in_families_simps [simp]:
  "in_families fs []"
  "in_families fs (ob # os) \<longleftrightarrow> list_ex (\<lambda>f. family_of (MetricID ob) = Some f) fs \<and> in_families fs os"
  "in_families fs (os @ os') \<longleftrightarrow> in_families fs os \<and> in_families fs os'"
  by (simp_all add: in_families_def)

lemma in_families_concat: "in_families fs (concat oss) \<longleftrightarrow> list_all (in_families fs) oss"
  by (induction oss) simp_all

lemma in_families_filter: "in_families fs os \<Longrightarrow> in_families fs (filter p os)"
  by (simp add: in_families_def list_all_iff)

lemma in_families_mono: "in_families fs os \<Longrightarrow> set fs \<subseteq> set gs \<Longrightarrow> in_families gs os"
  by (auto simp: in_families_def list_all_iff list_ex_iff)

lemma in_families_or_empty: "(\<And>os. r = Inr os \<Longrightarrow> in_families fs os) \<Longrightarrow> in_families fs (or_empty r)"
  by (cases r) simp_all

lemma in_families_collect:
  assumes "collect_all f xs = Inr os" and "\<And>x ys. x \<in> set xs \<Longrightarrow> f x = Inr ys \<Longrightarrow> in_families fs ys"
  shows "in_families fs os"
  unfolding in_families_def list_all_iff
proof
  fix ob
  assume ob: "ob \<in> set os"
  show "list_ex (\<lambda>f. family_of (MetricID ob) = Some f) fs"
    by (rule collect_all_invariant [OF assms(1) _ ob])
       (use assms(2) in \<open>auto simp: in_families_def list_all_iff\<close>)
qed

lemma disjoint_images: "(\<And>x y. x \<in> A \<Longrightarrow> y \<in> B \<Longrightarrow> h x \<noteq> h y) \<Longrightarrow> h ` A \<inter> h ` B = {}"
  by blast

text \<open>Lists of different families have no series in common.\<close>

lemma in_families_disjoint:
  assumes "in_families fs os" "in_families gs os'" "set fs \<inter> set gs = {}"
  shows "identity ` set os \<inter> identity ` set os' = {}"
proof -
  have "identity ob \<noteq> identity ob'" if "ob \<in> set os" "ob' \<in> set os'" for ob ob'
    using assms that by (fastforce simp: in_families_def list_all_iff list_ex_iff identity_def)
  then show ?thesis by (rule disjoint_images)
qed

lemma distinct_series_append:
  assumes "in_families fs os" "in_families gs os'" "set fs \<inter> set gs = {}"
  shows "distinct_series (os @ os') \<longleftrightarrow> distinct_series os \<and> distinct_series os'"
  using in_families_disjoint [OF assms] by (simp add: distinct_series_def)

section \<open>The families of the parsers\<close>

lemma health_family: "ParseHealth d source = Inr os \<Longrightarrow> in_families [FHealth] os \<and> distinct_series os"
  by (auto simp: ParseHealth_def Let_def)

lemma sptlrpc_family: "ParseEncryptPagePools d source = Inr os \<Longrightarrow> in_families [FSptlrpc] os"
proof -
  have ids: "family_of i = Some FSptlrpc" if "sptlrpcKeyMap k = Some (i, t)" for k i t
  proof -
    have "(k, i, t) \<in> set sptlrpc_keys" using that by (simp add: sptlrpcKeyMap_def map_of_SomeD)
    then show ?thesis by (auto simp: sptlrpc_keys_def)
  qed
  have line: "in_families [FSptlrpc] os" if "sptlrpc_line source l = Inr os" for l os
    using that by (auto simp: sptlrpc_line_def Let_def res_iff ids split: if_splits option.splits prod.splits)
  show "ParseEncryptPagePools d source = Inr os \<Longrightarrow> in_families [FSptlrpc] os"
    unfolding ParseEncryptPagePools_def by (erule in_families_collect) (rule line)
qed

lemma ldlm_family: "ParseLDLMCBDStats d source = Inr os \<Longrightarrow> in_families [FLdlm] os"
  unfolding ParseLDLMCBDStats_def
  by (erule in_families_collect) (auto simp: ldlm_line_def Let_def res_iff split: if_splits)

lemma lnet_stats_family: "ParseLNetStats d source = Inr os \<Longrightarrow> in_families [FLNetCount] os"
proof -
  have "list_all (\<lambda>x. family_of (fst x) = Some FLNetCount) lnetStatsFields" by (simp add: lnetStatsFields_def)
  then have "i < length lnetStatsFields \<Longrightarrow> lnet_stats_field source (i, f) = Inr os \<Longrightarrow> in_families [FLNetCount] os"
    for i f os by (auto simp: lnet_stats_field_def res_iff list_all_length)
  then show "ParseLNetStats d source = Inr os \<Longrightarrow> in_families [FLNetCount] os"
    by (auto simp: ParseLNetStats_def Let_def in_set_enumerate_eq split: if_splits elim!: in_families_collect)
qed

lemma lnetctl_stats_family: "ParseLNetCtlStats y d source = Inr os \<Longrightarrow> in_families [FLNetCount] os \<and> distinct_series os"
  by (auto simp: ParseLNetCtlStats_def res_iff lnetctl_observations_def)

lemma ni_count_family: "in_families [FLNetNid] (ni_count_observations source ni)"
  by (simp add: ni_count_observations_def)

lemma net_stats_family: "ParseLNetCtlNetStats y d source = Inr os \<Longrightarrow> in_families [FLNetNid] os"
  by (auto simp: ParseLNetCtlNetStats_def res_iff in_families_concat list_all_iff ni_count_family)

lemma ni_family: "in_families [FLNetNI] (lnetNIObservations source nid status hs)"
  by (simp add: lnetNIObservations_def Let_def split: option.split)

lemma net_ni_family: "ParseLNetCtlNetNI y d source = Inr os \<Longrightarrow> in_families [FLNetNI] os"
  by (auto simp: ParseLNetCtlNetNI_def res_iff in_families_concat list_all_iff ni_family)

lemma lnet_param_family: "ParseLNetParam d source nm = Inr os \<Longrightarrow> in_families [FLNetParam] os"
proof -
  have ids: "family_of i = Some FLNetParam" if "lnetParamMap nm = Some (i, t)" for i t
  proof -
    have "(nm, i, t) \<in> set lnet_params" using that by (simp add: lnetParamMap_def map_of_SomeD)
    then show ?thesis by (auto simp: lnet_params_def)
  qed
  show "ParseLNetParam d source nm = Inr os \<Longrightarrow> in_families [FLNetParam] os"
    by (auto simp: ParseLNetParam_def res_iff ids split: option.splits)
qed

lemma bytes_family: "parseBytesStat fs source component target = Inr os \<Longrightarrow> in_families [FStats] os"
  by (auto simp: parseBytesStat_def Let_def res_iff split: if_splits)

lemma llite_stats_family: "ParseLLiteStats d source component target = Inr os \<Longrightarrow> in_families [FStats] os"
  unfolding ParseLLiteStats_def
  by (erule in_families_collect)
     (auto simp: llite_line_def parseOperationStat_def Let_def res_iff bytes_family split: if_splits)

lemma obd_stats_family: "ParseOBDStats d source component target ty = Inr os \<Longrightarrow> in_families [FStats] os"
  unfolding ParseOBDStats_def
  by (erule in_families_collect)
     (auto simp: obd_line_def parseOBDStatLine_def Let_def res_iff bytes_family
        split: if_splits option.splits)

lemma llite_file_family: "ParseLLiteSingleFile d source nm component target = Inr os \<Longrightarrow> in_families [FLliteFile] os"
proof -
  have ids: "family_of i = Some FLliteFile" if "lliteSingleFileMap nm = Some (i, t)" for i t
  proof -
    have "(nm, i, t) \<in> set llite_single_files" using that by (simp add: lliteSingleFileMap_def map_of_SomeD)
    then show ?thesis by (auto simp: llite_single_files_def)
  qed
  show "ParseLLiteSingleFile d source nm component target = Inr os \<Longrightarrow> in_families [FLliteFile] os"
    by (auto simp: ParseLLiteSingleFile_def res_iff ids split: option.splits)
qed

lemma client_file_family: "ParseClientSingleFile d source nm component target ty = Inr os \<Longrightarrow> in_families [FClientFile] os"
proof -
  have ids: "family_of i = Some FClientFile" if "clientSingleFileMap nm = Some (i, h, n)" for i h n
  proof -
    have "(nm, i, h, n) \<in> set client_single_files" using that by (simp add: clientSingleFileMap_def map_of_SomeD)
    then show ?thesis by (auto simp: client_single_files_def)
  qed
  show "ParseClientSingleFile d source nm component target ty = Inr os \<Longrightarrow> in_families [FClientFile] os"
    by (auto simp: ParseClientSingleFile_def Let_def res_iff ids split: option.splits)
qed

lemma client_state_family: "ParseClientState d source component target ty = Inr os \<Longrightarrow> in_families [FClientFile] os"
  by (auto simp: ParseClientState_def Let_def split: if_splits)

lemma lpcc_family: "ParseLpccStatus order d source = Inr os \<Longrightarrow> in_families [FLpcc] os"
proof -
  have "in_families [FLpcc] (table_observations source ls (cache_table pcc))"
    "in_families [FLpcc] (table_observations source ls (fs_table fs))" for ls pcc fs
    by (simp_all add: table_observations_def cache_table_def fs_table_def Let_def)
  then show "ParseLpccStatus order d source = Inr os \<Longrightarrow> in_families [FLpcc] os"
    by (auto simp: ParseLpccStatus_def mount_observations_def in_families_concat list_all_iff
        split: prod.splits option.splits)
qed

text \<open>A bucket is parsed only in a section, so its metric is one of the histograms.\<close>

lemma rpc_step_family:
  assumes "rpc_section_ok s" "snd (rpc_step source component target ty s l) = Inr os"
  shows "in_families [FRpc] os"
proof -
  have scalar: "in_families [FRpc] (case parseRPCScalar ln of None \<Rightarrow> [] | Some sc \<Rightarrow> [scalar_obs source component target ty sc])"
    for ln
  proof (cases "parseRPCScalar ln")
    case (Some sc)
    then have "fst sc = ''rpcs_current'' \<or> fst sc = ''pending_pages''"
      by (auto simp: parseRPCScalar_def Let_def dest!: rpc_scalar_registered
          split: option.splits sum.splits prod.splits if_splits)
    with Some show ?thesis by (cases sc) (auto simp: scalar_obs_def)
  qed simp
  have bucket: "in_families [FRpc] os" if "parseRPCLine ln source component target ty (name s') opn = Inr os"
    "rpc_section_ok s'" "name s' \<noteq> []" for ln s' opn os
  proof -
    have "family_of (fst (rpcSectionMetric (name s'))) = Some FRpc"
      using that(2,3) by (auto simp: rpc_section_ok_def rpcSectionMetric_def)
    with that(1) show ?thesis
      by (cases "rpcSectionMetric (name s')")
         (auto simp: parseRPCLine_def Let_def res_iff in_families_def list_all_iff split: if_splits)
  qed
  show ?thesis
    using assms(2) applyHeader_ok [OF assms(1), of "TrimSpace l"] scalar [of "TrimSpace l"]
    by (auto simp: rpc_step_def Let_def res_iff split: if_splits prod.splits intro: bucket)
qed

lemma rpc_family: "ParseRPCStats d source component target ty = Inr os \<Longrightarrow> in_families [FRpc] os"
proof -
  have "in_families [FRpc] os" if "rpc_loop source component target ty s ls = Inr os" "rpc_section_ok s" for s ls os
    using that
  proof (induction ls arbitrary: s os)
    case (Cons l ls)
    then show ?case
      using rpc_step_family [OF Cons.prems(2), of source component target ty l]
        rpc_step_ok [OF Cons.prems(2), of source component target ty l]
      by (auto split: prod.splits sum.splits)
  qed simp
  then show "ParseRPCStats d source component target ty = Inr os \<Longrightarrow> in_families [FRpc] os"
    unfolding ParseRPCStats_def using rpc_init_ok by blast
qed

end
