(* ===== verification/Series_Client.thy ===== *)
theory Series_Client
  imports Families
begin

text \<open>
  The series of the client collector: which file of which target a duplicate can come from, and when a
  statistics file holds none.
\<close>

section \<open>Statistics files\<close>

definition line_fields :: "string \<Rightarrow> string list" where
  "line_fields l = Fields (TrimSpace l)"

definition counter_line :: "string \<Rightarrow> bool" where
  "counter_line l \<longleftrightarrow> 2 \<le> length (line_fields l) \<and> line_fields l ! 0 \<noteq> ''snapshot_time''"

text \<open>The names of the counters of a file, in their order.\<close>

definition counter_names :: "string list \<Rightarrow> string list" where
  "counter_names ls = map (\<lambda>l. line_fields l ! 0) (filter counter_line ls)"

text \<open>The counter that a series of the family \<^const>\<open>FStats\<close> comes from.\<close>

definition counter_of :: "string \<times> (string \<rightharpoonup> string) \<Rightarrow> string" where
  "counter_of il =
     (case snd il ''operation'' of
        Some opn \<Rightarrow> opn
      | None \<Rightarrow> if HasPrefix (fst il) ''write'' then ''write_bytes'' else ''read_bytes'')"

definition from_counter :: "string \<Rightarrow> observation list \<Rightarrow> bool" where
  "from_counter nm os \<longleftrightarrow> distinct_series os \<and> (\<forall>ob \<in> set os. counter_of (identity ob) = nm)"

lemma from_counter_simps [simp]:
  "from_counter nm []"
  "from_counter nm (ob # os) \<longleftrightarrow>
     counter_of (identity ob) = nm \<and> identity ob \<notin> identity ` set os \<and> from_counter nm os"
  by (auto simp: from_counter_def)

lemma bytes_from:
  assumes "parseBytesStat fs source component target = Inr os" "fs ! 0 = ''read_bytes'' \<or> fs ! 0 = ''write_bytes''"
  shows "from_counter (fs ! 0) os"
  using assms
  by (auto simp: parseBytesStat_def Let_def res_iff counter_of_def client_labels_def HasPrefix_def
      split: if_splits)

lemma llite_line_from:
  "llite_line source component target l = Inr os \<Longrightarrow> from_counter (line_fields l ! 0) os"
  by (auto simp: llite_line_def parseOperationStat_def Let_def res_iff line_fields_def bytes_from
      counter_of_def split: if_splits)

lemma obd_line_from:
  "obd_line source component target ty l = Inr os \<Longrightarrow> from_counter (line_fields l ! 0) os"
  by (auto simp: obd_line_def parseOBDStatLine_def Let_def res_iff line_fields_def bytes_from
      counter_of_def split: if_splits option.splits)

lemma Fields_empty [simp]: "Fields [] = []"
  by (simp add: Fields_def)

lemma not_counter:
  assumes "\<not> counter_line l"
  shows "llite_line source component target l = Inr []" "obd_line source component target ty l = Inr []"
  using assms by (auto simp: counter_line_def line_fields_def llite_line_def obd_line_def Let_def)

lemma counters_distinct:
  assumes "collect_all f ls = Inr os" "distinct (counter_names ls)"
    and from_line: "\<And>l os. f l = Inr os \<Longrightarrow> from_counter (line_fields l ! 0) os"
    and skip: "\<And>l. \<not> counter_line l \<Longrightarrow> f l = Inr []"
  shows "distinct_series os"
proof -
  let ?ls = "filter counter_line ls"
  have "collect_all f ?ls = Inr os" using assms(1) by (subst collect_all_filter) (simp_all add: skip)
  then have os: "os = concat (map (\<lambda>l. or_empty (f l)) ?ls)" by (simp add: res_iff)
  have one: "from_counter (line_fields l ! 0) (or_empty (f l))" for l
    using from_line [of l] by (cases "f l") (simp_all add: from_counter_def)
  have "distinct_series os \<longleftrightarrow> (\<forall>l \<in> set ?ls. distinct_series (or_empty (f l)))"
    unfolding os
    by (rule distinct_series_keyed [where g = counter_of and k = "\<lambda>l. line_fields l ! 0"])
       (use assms(2) one in \<open>auto simp: counter_names_def from_counter_def\<close>)
  with one show ?thesis by (simp add: from_counter_def)
qed

text \<open>A statistics file that names no counter twice holds no series twice.\<close>

lemma llite_stats_distinct:
  "ParseLLiteStats d source component target = Inr os \<Longrightarrow> distinct (counter_names (lines (TrimSpace d))) \<Longrightarrow>
     distinct_series os"
  unfolding ParseLLiteStats_def by (erule counters_distinct) (simp_all add: llite_line_from not_counter)

lemma obd_stats_distinct:
  "ParseOBDStats d source component target ty = Inr os \<Longrightarrow> distinct (counter_names (lines d)) \<Longrightarrow>
     distinct_series os"
  unfolding ParseOBDStats_def by (erule counters_distinct) (simp_all add: obd_line_from not_counter)

section \<open>One target\<close>

definition target_stats :: "ClientCollector \<Rightarrow> ClientTarget \<Rightarrow> observation list" where
  "target_stats c t =
     (if Component t = ''llite'' then
        or_empty (bind_res (ReadFile (creader c) (StatsPath t))
          (\<lambda>d. ParseLLiteStats d (StatsPath t) ''client'' (TName t)))
      else if Component t = ''mdc'' \<or> Component t = ''osc'' then or_empty (collectOBDStats c t)
      else [])"

definition target_rpc :: "ClientCollector \<Rightarrow> ClientTarget \<Rightarrow> observation list" where
  "target_rpc c t =
     (if Component t = ''mdc'' \<or> Component t = ''osc'' then or_empty (collectRPCStats c t) else [])"

text \<open>What a loop over single-value files yields: metrics of one family, one of its own for each file.\<close>

lemma files_distinct:
  assumes "collect_all f nms = Inr os" "distinct (map k nms)"
    and "\<And>nm xs. f nm = Inr xs \<Longrightarrow> in_families fs xs \<and> length xs \<le> 1 \<and> (\<forall>ob \<in> set xs. MetricID ob = k nm)"
  shows "in_families fs os \<and> distinct_series os"
proof
  show "in_families fs os" using assms(1,3) in_families_collect by blast
  have os: "os = concat (map (\<lambda>nm. or_empty (f nm)) nms)" using assms(1) by (simp add: res_iff)
  have one: "length (or_empty (f nm)) \<le> 1 \<and> (\<forall>ob \<in> set (or_empty (f nm)). MetricID ob = k nm)" for nm
    using assms(3) [of nm] by (cases "f nm") simp_all
  have single: "length xs \<le> 1 \<Longrightarrow> distinct_series xs" for xs by (cases xs) auto
  have "distinct_series os \<longleftrightarrow> (\<forall>nm \<in> set nms. distinct_series (or_empty (f nm)))"
    unfolding os by (rule distinct_series_keyed [OF assms(2), where g = fst]) (use one in \<open>auto simp: identity_def\<close>)
  with one single show "distinct_series os" by blast
qed

lemma llite_files_distinct:
  assumes "collect_all (llite_single_file c t) lliteSingleFiles = Inr os"
  shows "in_families [FLliteFile] os \<and> distinct_series os"
proof (rule files_distinct [OF assms])
  show "distinct (map (\<lambda>nm. fst (the (lliteSingleFileMap nm))) lliteSingleFiles)"
    by (simp add: lliteSingleFiles_def lliteSingleFileMap_def llite_single_files_def)
  have one: "length xs \<le> 1 \<and> (\<forall>ob \<in> set xs. MetricID ob = fst (the (lliteSingleFileMap nm)))"
    if "ParseLLiteSingleFile d p nm ''client'' tgt = Inr xs" for d p nm tgt xs
    using that by (auto simp: ParseLLiteSingleFile_def res_iff split: option.splits)
  show "in_families [FLliteFile] xs \<and> length xs \<le> 1 \<and>
      (\<forall>ob \<in> set xs. MetricID ob = fst (the (lliteSingleFileMap nm)))"
    if "llite_single_file c t nm = Inr xs" for nm xs
    using that by (auto simp: llite_single_file_def llite_file_family dest!: one split: sum.splits if_splits)
qed

lemma client_params_distinct:
  assumes "collectClientParams c t = Inr os"
  shows "in_families [FClientFile] os \<and> distinct_series os"
  using assms unfolding collectClientParams_def
proof (rule files_distinct)
  let ?k = "\<lambda>nm. if nm = ''state'' then ''target_state'' else fst (the (clientSingleFileMap nm))"
  show "distinct (map ?k (clientParamFiles (Component t)))"
    by (simp add: clientParamFiles_def mdcParamFiles_def oscParamFiles_def clientSingleFileMap_def
        client_single_files_def)
  have one: "length xs \<le> 1 \<and> (\<forall>ob \<in> set xs. MetricID ob = ?k nm) \<and> in_families [FClientFile] xs"
    if "parseClientParamFile d p nm t = Inr xs" for d p nm xs
    using that client_file_family client_state_family
    by (auto simp: parseClientParamFile_def ParseClientState_def ParseClientSingleFile_def Let_def res_iff
        split: option.splits if_splits)
  show "in_families [FClientFile] xs \<and> length xs \<le> 1 \<and> (\<forall>ob \<in> set xs. MetricID ob = ?k nm)"
    if "client_param_file c t nm = Inr xs" for nm xs
    using that by (auto simp: client_param_file_def dest!: one split: sum.splits if_splits)
qed

text \<open>A target is its statistics file, its \<open>rpc_stats\<close> file and its single-value files.\<close>

lemma target_split:
  assumes "collectTarget c t = Inr os"
  shows "\<exists>files. os = target_stats c t @ target_rpc c t @ files \<and>
     in_families [FStats] (target_stats c t) \<and> in_families [FRpc] (target_rpc c t) \<and>
     in_families [FLliteFile, FClientFile] files \<and> distinct_series files"
proof -
  consider (llite) "Component t = ''llite''"
    | (obd) "Component t = ''mdc'' \<or> Component t = ''osc''"
    | (other) "Component t \<noteq> ''llite''" "Component t \<noteq> ''mdc''" "Component t \<noteq> ''osc''" by blast
  then show ?thesis
  proof cases
    case llite
    let ?parsed = "bind_res (ReadFile (creader c) (StatsPath t))
      (\<lambda>d. ParseLLiteStats d (StatsPath t) ''client'' (TName t))"
    have stats: "target_stats c t = or_empty ?parsed" "target_rpc c t = []"
      by (simp_all add: target_stats_def target_rpc_def llite)
    have fam: "in_families [FStats] (or_empty ?parsed)"
      by (rule in_families_or_empty) (auto simp: res_iff llite_stats_family)
    have run: "collectLLite c t = bind_res ?parsed (\<lambda>xs. bind_res (collect_all (llite_single_file c t) lliteSingleFiles)
        (\<lambda>ys. Inr (xs @ ys)))"
      unfolding collectLLite_def by (cases "ReadFile (creader c) (StatsPath t)") simp_all
    show ?thesis
    proof (cases ?parsed)
      case (Inl err)
      then have "os = []" using assms run llite by (simp add: collectTarget_def strictError_def split: if_splits)
      with Inl stats show ?thesis by (intro exI [of _ "[]"]) simp
    next
      case (Inr xs)
      have "is_ok (collect_all (llite_single_file c t) lliteSingleFiles)"
      proof (cases "strict c")
        case True
        with assms run Inr llite show ?thesis
          by (cases "collect_all (llite_single_file c t) lliteSingleFiles") (simp_all add: collectTarget_def)
      next
        case False
        then have "c\<lparr>strict := False\<rparr> = c" by simp
        with single.all_never_fail [of c t lliteSingleFiles] show ?thesis by simp
      qed
      then obtain ys where ys: "collect_all (llite_single_file c t) lliteSingleFiles = Inr ys" by (auto simp: is_ok_iff)
      then have "os = xs @ ys" using assms run Inr llite by (simp add: collectTarget_def)
      with Inr stats fam llite_files_distinct [OF ys] show ?thesis
        by (intro exI [of _ ys]) (auto intro: in_families_mono)
    qed
  next
    case obd
    then have ne: "Component t \<noteq> ''llite''" by auto
    have stats: "target_stats c t = or_empty (collectOBDStats c t)" "target_rpc c t = or_empty (collectRPCStats c t)"
      using obd ne by (auto simp: target_stats_def target_rpc_def)
    have fam: "in_families [FStats] (target_stats c t)" "in_families [FRpc] (target_rpc c t)"
      unfolding stats
      by (auto simp: collectOBDStats_def collectRPCStats_def strictError_def obd_stats_family rpc_family
          split: sum.splits if_splits intro!: in_families_or_empty)
    have ok: "is_ok (collectRPC c t)"
    proof (cases "strict c")
      case True
      with assms obd ne show ?thesis by (auto simp: collectTarget_def split: sum.splits if_splits)
    next
      case False
      then have "c\<lparr>strict := False\<rparr> = c" by simp
      with rpc_target.never_fails [of c t] show ?thesis by simp
    qed
    then obtain xs ys zs where parts: "collectOBDStats c t = Inr xs" "collectRPCStats c t = Inr ys"
        "collectClientParams c t = Inr zs"
      by (auto simp: collectRPC_def is_ok_iff res_iff)
    then have "os = xs @ ys @ zs" using assms obd ne by (auto simp: collectTarget_def collectRPC_def)
    with parts stats fam client_params_distinct [OF parts(3)] show ?thesis
      by (intro exI [of _ zs]) (auto intro: in_families_mono)
  next
    case other
    with assms show ?thesis by (simp add: collectTarget_def target_stats_def target_rpc_def)
  qed
qed

lemma target_distinct:
  assumes "collectTarget c t = Inr os"
  shows "distinct_series os \<longleftrightarrow> distinct_series (target_stats c t) \<and> distinct_series (target_rpc c t)"
    "in_families [FStats, FRpc, FLliteFile, FClientFile] os"
proof -
  obtain files where f: "os = target_stats c t @ target_rpc c t @ files"
    "in_families [FStats] (target_stats c t)" "in_families [FRpc] (target_rpc c t)"
    "in_families [FLliteFile, FClientFile] files" "distinct_series files"
    using target_split [OF assms] by blast
  have tail: "in_families [FRpc, FLliteFile, FClientFile] (target_rpc c t @ files)"
    using f by (auto intro: in_families_mono)
  show "distinct_series os \<longleftrightarrow> distinct_series (target_stats c t) \<and> distinct_series (target_rpc c t)"
    using distinct_series_append [OF f(2) tail] distinct_series_append [OF f(3,4)] f(1,5) by simp
  show "in_families [FStats, FRpc, FLliteFile, FClientFile] os"
    unfolding f(1) using f(2) tail by (auto intro: in_families_mono)
qed

section \<open>The client collector\<close>

text \<open>
  C14: When its targets have different names, the client collector yields a series twice exactly when the
  LDLM file, or the statistics file or the \<open>rpc_stats\<close> file of a single target, does by itself.
\<close>

theorem client_series_distinct:
  assumes "client_observations c = Inr os" "DiscoverClients (creader c) (cpathCfg c) = Inr ts"
    and "distinct (map TName ts)"
  shows "distinct_series os \<longleftrightarrow>
     distinct_series (or_empty (collectLDLMCBD c)) \<and>
     list_all (\<lambda>t. distinct_series (target_stats c t) \<and> distinct_series (target_rpc c t)) ts"
proof -
  let ?f = "\<lambda>t. or_empty (collectTarget c t)"
  have ok: "\<forall>t \<in> set ts. is_ok (collectTarget c t)" and
    os: "os = or_empty (collectLDLMCBD c) @ concat (map ?f ts)"
    using assms(1,2) by (auto simp: client_observations_def res_iff split: sum.splits if_splits)
  have "in_families [FLdlm] (or_empty (collectLDLMCBD c))"
    by (rule in_families_or_empty) (auto simp: collectLDLMCBD_def ldlm_family split: sum.splits)
  moreover have one: "distinct_series (?f t) \<longleftrightarrow> distinct_series (target_stats c t) \<and> distinct_series (target_rpc c t)"
    "in_families [FStats, FRpc, FLliteFile, FClientFile] (?f t)"
    "all_of (TName t) (?f t)" if "t \<in> set ts" for t
    using ok that target_distinct [of c t] target_labelled [of c t] by (auto simp: is_ok_iff)
  then have "in_families [FStats, FRpc, FLliteFile, FClientFile] (concat (map ?f ts))"
    by (simp add: in_families_concat list_all_iff)
  moreover have "distinct_series (concat (map ?f ts)) \<longleftrightarrow> (\<forall>t \<in> set ts. distinct_series (?f t))"
    by (rule distinct_series_keyed [OF assms(3), where g = "\<lambda>il. the (snd il ''target'')"])
       (use one(3) in \<open>auto simp: identity_def all_of_def of_target_def list_all_iff\<close>)
  ultimately show ?thesis
    unfolding os by (subst distinct_series_append) (auto simp: one(1) list_all_iff)
qed

text \<open>A machine with one \<open>osc\<close> target.\<close>

definition osc_files :: reader where
  "osc_files =
     \<lparr>ReadFile = (\<lambda>p. if p = ''/proc/fs/lustre/osc/a/stats'' then Inr ''snapshot_time 1 secs''
                      else if p = ''/proc/fs/lustre/osc/a/state'' then Inr ''FULL'' else Inl NotExist),
      Glob = (\<lambda>p. Inr (if p = ''/proc/fs/lustre/osc/*/stats'' then [''/proc/fs/lustre/osc/a/stats''] else [])),
      RunCommand = (\<lambda>b args. Inl NotExist)\<rparr>"

lemma osc_target: "map TName (targets (discover_index osc_files DefaultPathConfig)) = [''a'']"
  by code_simp

lemma client_series_distinct_witness:
  "\<exists>os. client_observations (NewClientCollector osc_files DefaultPathConfig) = Inr os \<and>
     (distinct_series os \<longleftrightarrow>
        distinct_series (or_empty (collectLDLMCBD (NewClientCollector osc_files DefaultPathConfig))) \<and>
        list_all (\<lambda>t. distinct_series (target_stats (NewClientCollector osc_files DefaultPathConfig) t) \<and>
                      distinct_series (target_rpc (NewClientCollector osc_files DefaultPathConfig) t))
          (targets (discover_index osc_files DefaultPathConfig)))"
proof -
  let ?c = "NewClientCollector osc_files DefaultPathConfig"
  have "run_client False ?c = client_observations ?c" by (simp add: run_client_def NewClientCollector_def)
  with client_run.never_fails [of ?c] obtain os where "client_observations ?c = Inr os"
    by (auto simp: is_ok_iff)
  with client_series_distinct [of ?c os "targets (discover_index osc_files DefaultPathConfig)"] osc_target
  show ?thesis by (simp add: DiscoverClients_def NewClientCollector_def)
qed

end
