(* ===== verification/Series_Scrape.thy ===== *)
theory Series_Scrape
  imports Series_Client
begin

text \<open>
  Which series a scrape holds.  A Prometheus registry rejects a whole scrape when two of its metrics have
  the same name and the same labels, and nothing in the exporter checks for that.  Series of different
  collectors, and of different files of a target, are never the same, so a scrape is free of duplicates
  exactly when the output of every single collector is, and that comes down to the contents of single
  files.
\<close>

section \<open>LNet\<close>

text \<open>No NID is shown twice, neither with counters nor with a state.\<close>

definition distinct_nids :: "('ni \<Rightarrow> string) \<Rightarrow> 'ni net_show result \<Rightarrow> bool" where
  "distinct_nids nid r =
     (case r of Inl err \<Rightarrow> True | Inr nets \<Rightarrow> distinct (filter (\<lambda>n. n \<noteq> []) (map nid (concat nets))))"

definition nids_unique :: "lnetctl_decoders \<Rightarrow> string \<Rightarrow> bool" where
  "nids_unique dec data \<longleftrightarrow>
     distinct_nids NID (unmarshalJSONOrYAML (yaml_net dec)
       (json_unmarshal (decode_net_show zero_local_ni decode_local_ni)) data [] ''lnetctl net show'') \<and>
     distinct_nids HNID (unmarshalJSONOrYAML (yaml_ni dec)
       (json_unmarshal (decode_net_show zero_local_ni_health decode_local_ni_health)) data [] ''lnetctl net show NI'')"

lemma concat_nets: "concat (map (\<lambda>nis. concat (map h nis)) nets) = concat (map h (concat nets))"
  by (induction nets) simp_all

lemma concat_skip:
  "concat (map (\<lambda>x. if p x then [] else h x) xs) = concat (map h (filter (\<lambda>x. \<not> p x) xs))"
  by (induction xs) simp_all

lemma distinct_filter_map:
  "distinct (filter (\<lambda>n. n \<noteq> []) (map f xs)) \<longleftrightarrow> distinct (map f (filter (\<lambda>x. f x \<noteq> []) xs))"
  by (simp add: filter_map comp_def)

lemma nid_of [simp]: "nid_labels n ''nid'' = Some n"
  by (simp add: nid_labels_def)

lemma net_stats_distinct:
  assumes "ParseLNetCtlNetStats y d source = Inr os"
    and "distinct_nids NID (unmarshalJSONOrYAML y (json_unmarshal (decode_net_show zero_local_ni decode_local_ni))
           d [] ''lnetctl net show'')"
  shows "distinct_series os"
proof -
  obtain nets where nets: "distinct (map NID (filter (\<lambda>ni. NID ni \<noteq> []) (concat nets)))"
    "os = concat (map (ni_count_observations source) (concat nets))"
    using assms by (auto simp: ParseLNetCtlNetStats_def res_iff distinct_nids_def distinct_filter_map concat_nets)
  define full where "full ni = [obs ''lnet'' source ''send_count_by_nid_total'' Counter (nid_labels (NID ni)) (NISendCount ni),
         obs ''lnet'' source ''receive_count_by_nid_total'' Counter (nid_labels (NID ni)) (NIRecvCount ni),
         obs ''lnet'' source ''drop_count_by_nid_total'' Counter (nid_labels (NID ni)) (NIDropCount ni)]" for ni :: local_ni
  have "ni_count_observations source = (\<lambda>ni. if NID ni = [] then [] else full ni)"
    by (rule ext) (simp add: ni_count_observations_def full_def)
  then have "os = concat (map full (filter (\<lambda>ni. NID ni \<noteq> []) (concat nets)))"
    by (simp add: nets(2) concat_skip)
  moreover have "distinct_series (concat (map full (filter (\<lambda>ni. NID ni \<noteq> []) (concat nets)))) \<longleftrightarrow>
      (\<forall>ni \<in> set (filter (\<lambda>ni. NID ni \<noteq> []) (concat nets)). distinct_series (full ni))"
    by (rule distinct_series_keyed [OF nets(1), of _ "\<lambda>il. the (snd il ''nid'')"]) (auto simp: full_def)
  ultimately show ?thesis by (simp add: full_def)
qed

lemma ni_key: "ob \<in> set (lnetNIObservations source nid status hs) \<Longrightarrow> Labels ob ''nid'' = Some nid"
  by (auto simp: lnetNIObservations_def Let_def split: option.splits if_splits)

lemma ni_distinct: "distinct_series (lnetNIObservations source nid status hs)"
  by (simp add: lnetNIObservations_def Let_def split: option.split)

lemma net_ni_distinct:
  assumes "ParseLNetCtlNetNI y d source = Inr os"
    and "distinct_nids HNID (unmarshalJSONOrYAML y
           (json_unmarshal (decode_net_show zero_local_ni_health decode_local_ni_health)) d [] ''lnetctl net show NI'')"
  shows "distinct_series os"
proof -
  let ?h = "\<lambda>ni. lnetNIObservations source (HNID ni) (Status ni) (HealthStats ni)"
  obtain nets :: "local_ni_health net_show" where dist: "distinct (map HNID (filter (\<lambda>ni. HNID ni \<noteq> []) (concat nets)))"
    and all: "os = concat (map (\<lambda>ni. if HNID ni = [] then [] else ?h ni) (concat nets))"
    using assms by (auto simp: ParseLNetCtlNetNI_def res_iff distinct_nids_def distinct_filter_map concat_nets)
  note nets = dist all [unfolded concat_skip]
  have "distinct_series (concat (map ?h (filter (\<lambda>ni. HNID ni \<noteq> []) (concat nets)))) \<longleftrightarrow>
      (\<forall>ni \<in> set (filter (\<lambda>ni. HNID ni \<noteq> []) (concat nets)). distinct_series (?h ni))"
    by (rule distinct_series_keyed [OF nets(1), of _ "\<lambda>il. the (snd il ''nid'')"])
       (auto simp: identity_def ni_key)
  then show ?thesis by (simp add: nets(2) ni_distinct)
qed

lemma lnet_stats_distinct:
  assumes "ParseLNetStats d source = Inr os"
  shows "distinct_series os"
proof -
  consider "os = []" | fs where "length fs = length lnetStatsFields"
      "collect_all (lnet_stats_field source) (enumerate 0 fs) = Inr os"
    using assms by (auto simp: ParseLNetStats_def Let_def split: if_splits)
  then show ?thesis
  proof cases
    case 2
    let ?f = "\<lambda>x. or_empty (lnet_stats_field source x)" and ?k = "\<lambda>x. fst (lnetStatsFields ! fst x)"
    have os: "os = concat (map ?f (enumerate 0 fs))" using 2(2) by (simp add: res_iff)
    have "map ?k (enumerate 0 fs) = map fst lnetStatsFields"
      using 2(1) by (auto intro!: nth_equalityI simp: nth_enumerate_eq)
    moreover have "distinct (map fst lnetStatsFields)" by (simp add: lnetStatsFields_def)
    ultimately have "distinct (map ?k (enumerate 0 fs))" by metis
    moreover have "fst (identity ob) = ?k x" if "ob \<in> set (?f x)" for x ob
      using that by (cases "lnet_stats_field source x") (auto simp: lnet_stats_field_def res_iff split: prod.splits)
    moreover have "distinct_series (?f x)" for x
      by (cases "lnet_stats_field source x") (auto simp: lnet_stats_field_def res_iff split: prod.splits)
    ultimately show ?thesis unfolding os by (subst distinct_series_keyed [where g = fst and k = ?k]) simp_all
  qed simp
qed

lemma params_distinct: "distinct_series (collectParams c) \<and> in_families [FLNetParam] (collectParams c)"
proof -
  let ?k = "\<lambda>nm. fst (the (lnetParamMap nm))"
  have one: "in_families [FLNetParam] os \<and> distinct_series os \<and> (\<forall>ob \<in> set os. fst (identity ob) = ?k nm)"
    if "ParseLNetParam d p nm = Inr os" for d p nm os
    using lnet_param_family [OF that] that by (auto simp: ParseLNetParam_def res_iff split: option.splits)
  have "in_families [FLNetParam] (or_empty (ParseLNetParam d p nm)) \<and>
      distinct_series (or_empty (ParseLNetParam d p nm)) \<and>
      (\<forall>ob \<in> set (or_empty (ParseLNetParam d p nm)). fst (identity ob) = ?k nm)" for d p nm
    by (cases "ParseLNetParam d p nm") (use one [of d p nm] in simp_all)
  then have param: "in_families [FLNetParam] (collectParam c nm)" "distinct_series (collectParam c nm)"
    "ob \<in> set (collectParam c nm) \<Longrightarrow> fst (identity ob) = ?k nm" for nm ob
    by (auto simp: collectParam_def split: sum.splits)
  have "distinct (map ?k LNetParamNames)" by (simp add: LNetParamNames_def lnetParamMap_def lnet_params_def)
  then have "distinct_series (collectParams c) \<longleftrightarrow> (\<forall>nm \<in> set LNetParamNames. distinct_series (collectParam c nm))"
    unfolding collectParams_def by (rule distinct_series_keyed [where g = fst]) (rule param)
  then show ?thesis by (simp add: collectParams_def in_families_concat list_all_iff param)
qed

lemma parse_net_ni_distinct:
  "nids_unique dec d \<Longrightarrow> distinct_series (or_empty (parse_net_ni dec d)) \<and> in_families [FLNetNI] (or_empty (parse_net_ni dec d))"
  by (cases "parse_net_ni dec d") (auto simp: parse_net_ni_def nids_unique_def net_ni_distinct net_ni_family)

lemma add_net_show_distinct:
  assumes "nids_unique dec d" "distinct_series os" "in_families [FLNetCount] os"
  shows "distinct_series (add_net_show dec os d) \<and> in_families [FLNetCount, FLNetNid, FLNetNI] (add_net_show dec os d)"
proof (cases "ParseLNetCtlNetStats (yaml_net dec) d ''lnetctl net show''")
  case (Inl err)
  with assms show ?thesis by (auto simp: add_net_show_def intro: in_families_mono)
next
  case (Inr cs)
  let ?ni = "or_empty (parse_net_ni dec d)" and ?kept = "dropGlobalLNetCountStats os"
  have cs: "distinct_series cs" "in_families [FLNetNid] cs"
    using Inr assms(1) net_stats_distinct net_stats_family by (auto simp: nids_unique_def)
  have kept: "distinct_series ?kept" "in_families [FLNetCount] ?kept"
    using assms(2,3) by (simp_all add: dropGlobalLNetCountStats_def distinct_series_filter in_families_filter)
  have ni: "distinct_series ?ni" "in_families [FLNetNI] ?ni" using parse_net_ni_distinct [OF assms(1)] by simp_all
  have both: "distinct_series (?kept @ cs)" "in_families [FLNetCount, FLNetNid] (?kept @ cs)"
    using distinct_series_append [OF kept(2) cs(2)] kept cs by (auto intro: in_families_mono)
  then show ?thesis
    using Inr assms(2,3) ni distinct_series_append [OF both(2) ni(2)] distinct_series_append [OF assms(3) ni(2)]
    by (auto simp: add_net_show_def Let_def intro: in_families_mono)
qed

text \<open>The condition on the output of \<open>lnetctl net show\<close>, when it is run at all.\<close>

definition shown_nids_unique :: "lnetctl_decoders \<Rightarrow> LNetCollector \<Rightarrow> bool" where
  "shown_nids_unique dec c = (case net_show_data c of Inl err \<Rightarrow> True | Inr data \<Rightarrow> nids_unique dec data)"

lemma demo_nids_unique: "shown_nids_unique demo_decoders (demo_lnet src)"
  by (simp add: shown_nids_unique_def net_show_data_def demo_lnet_def demo_commands nids_unique_def distinct_nids_def
      unmarshalJSONOrYAML_def demo_decoders_def demo_ni_def)

text \<open>
  C16: A scrape of LNet never holds a series twice when \<open>lnetctl net show\<close> names no interface twice, whatever
  the source is and whatever the files hold.
\<close>

theorem lnet_series_distinct:
  assumes "lnet_observations dec c = Inr os" "shown_nids_unique dec c"
  shows "distinct_series os"
proof -
  obtain os1 where os1: "snd (lnet_stats_observations dec c) = Inr os1" "os = os1 @ collectParams c"
    using assms(1) by (auto simp: lnet_observations_def res_iff)
  have debugfs: "distinct_series xs \<and> in_families [FLNetCount] xs" if "collectFromDebugFS c = Inr xs" for xs
    using that by (auto simp: collectFromDebugFS_def res_iff lnet_stats_distinct lnet_stats_family)
  have ctl: "distinct_series xs \<and> in_families [FLNetCount, FLNetNid, FLNetNI] xs"
    if "collectFromLNetCtl dec c = Inr xs" for xs
  proof (cases "net_show_data c")
    case (Inl err)
    with that show ?thesis
      by (auto simp: collectFromLNetCtl_def res_iff dest!: lnetctl_stats_family intro: in_families_mono)
  next
    case (Inr d)
    with assms(2) have "nids_unique dec d" by (simp add: shown_nids_unique_def)
    with that Inr show ?thesis
      by (auto simp: collectFromLNetCtl_def res_iff add_net_show_distinct dest!: lnetctl_stats_family)
  qed
  have ni: "distinct_series (collectSupplementalNetNI dec c) \<and> in_families [FLNetNI] (collectSupplementalNetNI dec c)"
    using assms(2) parse_net_ni_distinct
    by (auto simp: collectSupplementalNetNI_def shown_nids_unique_def split: sum.splits)
  have "distinct_series os1 \<and> in_families [FLNetCount, FLNetNid, FLNetNI] os1"
  proof (cases "\<exists>xs. collectFromDebugFS c = Inr xs \<and> os1 = xs @ collectSupplementalNetNI dec c")
    case True
    then obtain xs where "collectFromDebugFS c = Inr xs" "os1 = xs @ collectSupplementalNetNI dec c" by blast
    with debugfs [of xs] ni show ?thesis
      using distinct_series_append [of "[FLNetCount]" xs "[FLNetNI]" "collectSupplementalNetNI dec c"]
      by (auto intro: in_families_mono)
  next
    case False
    then have "collectFromDebugFS c = Inr os1 \<or> collectFromLNetCtl dec c = Inr os1"
      using os1(1) by (auto simp: lnet_stats_observations_def split: LNetSource.splits sum.splits)
    with debugfs [of os1] ctl [of os1] show ?thesis by (auto intro: in_families_mono)
  qed
  then show ?thesis
    using distinct_series_append [of _ os1 _ "collectParams c"] params_distinct [of c] os1(2) by fastforce
qed

lemma lnet_series_distinct_witness:
  "distinct_series (dropGlobalLNetCountStats (lnetctl_observations ''lnetctl stats show'' lnetctl_stats_zero) @
     ni_count_observations ''lnetctl net show'' demo_ni @
     lnetNIObservations ''lnetctl net show'' ''10.0.0.1@tcp'' ''up'' None)"
  by (rule lnet_series_distinct [OF demo_lnet_observations demo_nids_unique])

section \<open>LPCC\<close>

lemma decode_entries_keys:
  "distinct (map fst m) \<Longrightarrow> distinct (map fst (snd (decode_entries zero d kvs m)))"
proof (induction zero d kvs m rule: decode_entries.induct)
  case (2 zero d k j kvs m)
  have "distinct (map fst (set_entry k v m))" for v
    using 2(2) by (auto simp: set_entry_def distinct_map_filter)
  with 2(1) show ?case by (auto split: prod.split)
qed simp

lemma status_keys: "distinct (map fst (snd (json_unmarshal decode_status data [])))"
  by (auto simp: json_unmarshal_def decode_status_def decode_map_def decode_entries_keys split: option.split json.split)

definition cache_key :: "string \<times> (string \<rightharpoonup> string) \<Rightarrow> string option" where
  "cache_key il = snd il ''cache''"

lemma table_distinct:
  "distinct_series (table_observations source ls (cache_table pcc))"
  "distinct_series (table_observations source ls (fs_table fs))"
  by (simp_all add: table_observations_def cache_table_def fs_table_def Let_def)

definition cache_observations :: "string \<Rightarrow> string \<Rightarrow> lpccCacheEntry \<Rightarrow> observation list" where
  "cache_observations source p pcc =
     table_observations source [''mount'' \<mapsto> p, ''cache'' \<mapsto> Cache pcc] (cache_table pcc)"

text \<open>The observations of a mount: those of each cache, then those of its file system.\<close>

lemma mount_split:
  "mount_observations source (p, e) =
     concat (map (cache_observations source p) (PCC e)) @
     table_observations source [''mount'' \<mapsto> p] (fs_table (FSStats e))"
  by (simp add: mount_observations_def cache_observations_def [abs_def])

lemma mount_distinct:
  "distinct_series (mount_observations source (p, e)) \<longleftrightarrow> distinct (map Cache (PCC e))"
proof -
  let ?c = "cache_observations source p"
  let ?f = "table_observations source [''mount'' \<mapsto> p] (fs_table (FSStats e))"
  have c: "cache_key (identity ob) = Some (Cache pcc)" if "ob \<in> set (?c pcc)" for ob pcc
    using that by (auto simp: cache_observations_def table_observations_def cache_key_def)
  have "cache_key (identity ob) = None" if "ob \<in> set ?f" for ob
    using that by (auto simp: table_observations_def cache_key_def)
  with c have "identity ` set (concat (map ?c (PCC e))) \<inter> identity ` set ?f = {}"
    by (intro disjoint_images) fastforce
  then have split: "distinct_series (mount_observations source (p, e)) \<longleftrightarrow>
      distinct_series (concat (map ?c (PCC e)))"
    using table_distinct(2) [of source] by (simp add: mount_split distinct_series_def)
  have status: "?c pcc = obs ''lpcc'' source ''pcc_status'' Gauge [''mount'' \<mapsto> p, ''cache'' \<mapsto> Cache pcc]
      (runningToBool (CStatus pcc)) # tl (?c pcc)" for pcc
    by (simp add: cache_observations_def table_observations_def cache_table_def Let_def)
  have "distinct (map Cache (PCC e))" if "distinct_series (concat (map ?c (PCC e)))"
  proof -
    have caches: "distinct_series (concat (map ?c ps)) \<Longrightarrow> distinct (map Cache ps)" for ps
    proof (induction ps)
      case (Cons q ps)
      have "Cache q \<notin> Cache ` set ps"
      proof
        assume "Cache q \<in> Cache ` set ps"
        then obtain r where r: "r \<in> set ps" "Cache r = Cache q" by auto
        have hd_in: "(''pcc_status'', [''mount'' \<mapsto> p, ''cache'' \<mapsto> Cache x]) \<in> identity ` set (?c x)" for x
          by (subst status) simp
        from hd_in [of q] hd_in [of r] r
        have "identity ` set (?c q) \<inter> identity ` set (concat (map ?c ps)) \<noteq> {}" by force
        with Cons.prems show False by (simp add: distinct_series_def)
      qed
      with Cons show ?case by (simp add: distinct_series_def)
    qed simp
    from caches [OF that] show ?thesis .
  qed
  moreover have "distinct_series (concat (map ?c (PCC e)))" if "distinct (map Cache (PCC e))"
    using distinct_series_keyed [OF that, of ?c "\<lambda>il. the (cache_key il)"] c table_distinct(1) by (simp add: cache_observations_def)
  ultimately show ?thesis using split by blast
qed

text \<open>
  C24: The status of LPCC gives a series twice exactly when a mount lists the same cache twice; a mount that is
  listed twice does no harm, and neither does the order in which Go iterates over the mounts.
\<close>

theorem lpcc_series_distinct:
  assumes "\<And>m. mset (order m) = mset m" and "ParseLpccStatus order data source = Inr os"
  shows "distinct_series os \<longleftrightarrow>
     list_all (\<lambda>(p, e). distinct (map Cache (PCC e))) (snd (json_unmarshal decode_status data []))"
proof -
  obtain out where out: "json_unmarshal decode_status data [] = (None, out)"
    "os = concat (map (mount_observations source) (order out))"
    using assms(2) by (auto simp: ParseLpccStatus_def split: prod.splits option.splits)
  have "distinct (map fst (order out))"
    using status_keys [of data] out(1) mset_eq_imp_distinct_iff [of "map fst (order out)" "map fst out"] assms(1)
    by (simp add: mset_map)
  moreover have "the (snd (identity ob) ''mount'') = fst me" if "ob \<in> set (mount_observations source me)" for me ob
    using that by (cases me) (auto simp: mount_observations_def table_observations_def)
  ultimately have "distinct_series os \<longleftrightarrow> (\<forall>me \<in> set (order out). distinct_series (mount_observations source me))"
    unfolding out(2) by (intro distinct_series_keyed [where g = "\<lambda>il. the (snd il ''mount'')"]) auto
  moreover have "set (order out) = set out" using assms(1) mset_eq_setD by blast
  ultimately show ?thesis by (auto simp: out(1) list_all_iff mount_distinct)
qed

lemma lpcc_series_distinct_witness:
  "distinct_series (concat (map (mount_observations ''lpcc status'')
     [(''/a'', zero_mount_entry), (''/b'', zero_mount_entry)]))"
proof -
  have "ParseLpccStatus id demo_status ''lpcc status'' =
      Inr (concat (map (mount_observations ''lpcc status'')
        [(''/a'', zero_mount_entry), (''/b'', zero_mount_entry)]))"
    by (simp add: ParseLpccStatus_def demo_status_decoded)
  from lpcc_series_distinct [OF _ this] show ?thesis by (simp add: demo_status_decoded zero_mount_entry_def)
qed

section \<open>A scrape\<close>

text \<open>
  \<open>ms\<close> reads the name and the labels of a metric of the client library; a metric made from a descriptor
  has the name of the descriptor and, for each of its labels, the value it was given.
\<close>

definition reads_series :: "('d, 'm) prometheus \<Rightarrow> ('m \<Rightarrow> string \<times> (string \<rightharpoonup> string)) \<Rightarrow> bool" where
  "reads_series p ms \<longleftrightarrow>
     (\<forall>n h ks vt v ls m. NewConstMetric p (NewDesc p n h ks) vt v ls = Inr m \<longrightarrow> ms m = (n, map_of (zip ks ls)))"

definition metric_series :: "('m \<Rightarrow> string \<times> (string \<rightharpoonup> string)) \<Rightarrow> 'm metric \<Rightarrow> (string \<times> (string \<rightharpoonup> string)) list" where
  "metric_series ms m =
     (case m of
        Collected x \<Rightarrow> [ms x]
      | _ \<Rightarrow> (case own_call m of None \<Rightarrow> [] | Some (d, vs) \<Rightarrow> [(fqName d, map_of (zip (variableLabels d) vs))]))"

definition scrape_series :: "('m \<Rightarrow> string \<times> (string \<rightharpoonup> string)) \<Rightarrow> 'm metric list \<Rightarrow> (string \<times> (string \<rightharpoonup> string)) list" where
  "scrape_series ms ch = concat (map (metric_series ms) ch)"

text \<open>The published metrics of a collector show the series of its observations.\<close>

lemma published_series:
  assumes "reads_series p ms" "all_conform os" "published (NewDesc p) (NewConstMetric p) os = Inr xs"
  shows "map ms xs = map series os"
  using assms(2,3)
proof (induction os arbitrary: xs)
  case Nil
  then show ?case by (simp add: published_def Map_def)
next
  case (Cons ob os)
  have conf: "conforms ob" using Cons.prems(1) by simp
  then obtain d where d: "Registry (MetricID ob) = Some d" by (auto simp: conforms_def split: option.splits)
  let ?m = "\<lparr>Def = d, LabelVals = map (label_val (Labels ob)) (LabelKeys d), MValue = Value ob\<rparr>"
  have map_ob: "map_observation ob = Inr [?m]" using d by (simp add: map_observation_def)
  with map_observation_labels [OF conf]
  have labels: "map_of (zip (LabelKeys d) (LabelVals ?m)) = Labels ob" by auto
  from Cons.prems(2) map_ob obtain x ys where xs: "xs = x # ys"
    "NewConstMetric p (desc_of (NewDesc p) d) (vt_of (Type d)) (Value ob) (LabelVals ?m) = Inr x"
    "published (NewDesc p) (NewConstMetric p) os = Inr ys"
    by (auto simp: published_def Map_def emit_one_def map_err_def bind_res_def split: sum.splits)
  have "ms x = (Name d, map_of (zip (LabelKeys d) (LabelVals ?m)))"
    using assms(1) xs(2) unfolding reads_series_def desc_of_def by blast
  then have "ms x = (Name d, Labels ob)" unfolding labels .
  with d Cons.IH [OF _ xs(3)] Cons.prems(1) xs(1) show ?case by (simp add: series_def)
qed

lemma metrics_series:
  assumes "reads_series p ms" "metrics_of p r = Inr xs" "\<And>os. r = Inr os \<Longrightarrow> all_conform os"
  shows "map ms xs = map series (or_empty r)"
  using assms published_series by (cases r) (auto simp: metrics_of_def)

text \<open>Every family belongs to one collector.\<close>

definition owner :: "family \<Rightarrow> string" where
  "owner f =
     (case f of
        FHealth \<Rightarrow> ''health'' | FSptlrpc \<Rightarrow> ''sptlrpc'' | FLpcc \<Rightarrow> ''lpcc''
      | FLNetCount \<Rightarrow> ''lnet'' | FLNetNid \<Rightarrow> ''lnet'' | FLNetNI \<Rightarrow> ''lnet'' | FLNetParam \<Rightarrow> ''lnet''
      | _ \<Rightarrow> ''client'')"

lemma owned:
  "in_families fs os \<Longrightarrow> ob \<in> set os \<Longrightarrow> list_all (\<lambda>f. owner f = nm) fs \<Longrightarrow>
     map_option owner (family_of (MetricID ob)) = Some nm"
  by (auto simp: in_families_def list_all_iff list_ex_iff)

lemma lnet_families:
  assumes "lnet_observations dec c = Inr os"
  shows "in_families [FLNetCount, FLNetNid, FLNetNI, FLNetParam] os"
proof -
  let ?fs = "[FLNetCount, FLNetNid, FLNetNI, FLNetParam]"
  have ni: "in_families ?fs (or_empty (parse_net_ni dec d))" for d
    by (rule in_families_or_empty) (auto simp: parse_net_ni_def dest!: net_ni_family intro: in_families_mono)
  have debugfs: "in_families ?fs xs" if "collectFromDebugFS c = Inr xs" for xs
    using that by (auto simp: collectFromDebugFS_def res_iff dest!: lnet_stats_family intro: in_families_mono)
  have show_d: "in_families ?fs (add_net_show dec xs d)" if "in_families ?fs xs" for xs d
    using that ni
    by (auto simp: add_net_show_def Let_def dropGlobalLNetCountStats_def in_families_filter
        dest!: net_stats_family intro: in_families_mono split: sum.split)
  have ctl: "in_families ?fs xs" if "collectFromLNetCtl dec c = Inr xs" for xs
  proof -
    from that obtain data ys where parsed: "ParseLNetCtlStats (yaml_stats dec) data ''lnetctl stats show'' = Inr ys"
      and ys: "xs = ys \<or> (\<exists>d. xs = add_net_show dec ys d)"
      by (cases "net_show_data c") (auto simp: collectFromLNetCtl_def bind_res_Inr_iff)
    have "in_families ?fs ys" using lnetctl_stats_family [OF parsed] by (auto intro: in_families_mono)
    with ys show ?thesis using show_d [of ys] by auto
  qed
  have sup: "in_families ?fs (collectSupplementalNetNI dec c)"
    using ni by (simp add: collectSupplementalNetNI_def split: sum.split)
  have par: "in_families ?fs (collectParams c)" using params_distinct [of c] by (auto intro: in_families_mono)
  show ?thesis
    using assms debugfs ctl sup par
    by (auto simp: lnet_observations_def lnet_stats_observations_def res_iff split: LNetSource.splits sum.splits)
qed

lemma client_families:
  assumes "client_observations c = Inr os"
  shows "in_families [FLdlm, FStats, FRpc, FLliteFile, FClientFile] os"
proof -
  let ?fs = "[FLdlm, FStats, FRpc, FLliteFile, FClientFile]"
  obtain ts xs where ts: "collect_all (collectTarget c) ts = Inr xs" "os = or_empty (collectLDLMCBD c) @ xs"
    using assms by (auto simp: client_observations_def bind_res_Inr_iff split: sum.splits if_splits)
  have "in_families [FLdlm] (or_empty (collectLDLMCBD c))"
    by (rule in_families_or_empty) (auto simp: collectLDLMCBD_def ldlm_family split: sum.splits)
  then have "in_families ?fs (or_empty (collectLDLMCBD c))" by (rule in_families_mono) simp
  moreover have "in_families ?fs xs"
    using ts(1) by (rule in_families_collect) (rule in_families_mono [OF target_distinct(2)], auto)
  ultimately show ?thesis by (simp add: ts(2))
qed

lemma gather_owned:
  assumes "gather env c = Inr os" "ob \<in> set os"
  shows "map_option owner (family_of (MetricID ob)) = Some (collector_name c)"
proof (cases c)
  case (CHealth h)
  with assms(1) have "in_families [FHealth] os"
    by (auto simp: gather_def health_observations_def Let_def res_iff dest!: health_family)
  from owned [OF this assms(2)] show ?thesis by (simp add: CHealth collector_name_def owner_def)
next
  case (CSptlrpc h)
  with assms(1) have "in_families [FSptlrpc] os"
    by (auto simp: gather_def sptlrpc_observations_def res_iff dest!: sptlrpc_family)
  from owned [OF this assms(2)] show ?thesis by (simp add: CSptlrpc collector_name_def owner_def)
next
  case (CLNet h)
  with assms(1) have "in_families [FLNetCount, FLNetNid, FLNetNI, FLNetParam] os"
    by (auto simp: gather_def dest!: lnet_families)
  from owned [OF this assms(2)] show ?thesis by (simp add: CLNet collector_name_def owner_def)
next
  case (CClient h)
  with assms(1) have "in_families [FLdlm, FStats, FRpc, FLliteFile, FClientFile] os"
    by (auto simp: gather_def dest!: client_families)
  from owned [OF this assms(2)] show ?thesis by (simp add: CClient collector_name_def owner_def)
next
  case (CLpcc h)
  with assms(1) have "in_families [FLpcc] os"
    by (auto simp: gather_def lpcc_gather_def lpcc_observations_def dest!: lpcc_family split: sum.splits)
  from owned [OF this assms(2)] show ?thesis by (simp add: CLpcc collector_name_def owner_def)
qed

text \<open>The observations that a run of a collector publishes.\<close>

definition published_obs ::
  "('d, 'm) environment \<Rightarrow> (collector \<Rightarrow> 'd cache) \<Rightarrow> collector \<Rightarrow> observation list" where
  "published_obs env cache c =
     (if is_ok (fst (Collect env c (cache c))) then or_empty (gather env c) else [])"

lemma published_obs_owned:
  "ob \<in> set (published_obs env cache c) \<Longrightarrow> map_option owner (family_of (MetricID ob)) = Some (collector_name c)"
  by (cases "gather env c") (auto simp: published_obs_def gather_owned split: if_splits)

lemma published_obs_conform: "all_conform (published_obs env cache c)"
  by (cases "gather env c") (auto simp: published_obs_def any_collector.gathers)

lemma published_distinct:
  "distinct (map series (concat (map (published_obs env cache) (collectors_of cfg mk)))) \<longleftrightarrow>
     list_all (\<lambda>c. distinct_series (published_obs env cache c)) (collectors_of cfg mk)"
proof -
  let ?os = "concat (map (published_obs env cache) (collectors_of cfg mk))"
  have "all_conform ?os" by (simp add: all_conform_concat published_obs_conform)
  then have "distinct (map series ?os) \<longleftrightarrow> distinct_series ?os" by (simp only: distinct_series_iff)
  also have "\<dots> \<longleftrightarrow> (\<forall>c \<in> set (collectors_of cfg mk). distinct_series (published_obs env cache c))"
    by (rule distinct_series_keyed [OF distinct_names, where g = "\<lambda>il. the (map_option owner (family_of (fst il)))"])
       (simp add: identity_def published_obs_owned)
  finally show ?thesis by (simp add: list_all_iff)
qed

section \<open>The registry's own series\<close>

lemma own_names: "Registry i = Some d \<Longrightarrow> Name d \<notin> fqName ` set Describe"
proof -
  have "list_all (\<lambda>(i, d). Name d \<notin> fqName ` set Describe) registry_entries"
    by (simp add: registry_defs metric_defs Describe_def scrapeSuccessDesc_def scrapeDurationDesc_def
        exporterScrapeDurationDesc_def)
  then show "Registry i = Some d \<Longrightarrow> Name d \<notin> fqName ` set Describe"
    by (auto simp: list_all_iff Registry_Some_iff)
qed

definition collected_part :: "('m \<Rightarrow> string \<times> (string \<rightharpoonup> string)) \<Rightarrow> 'm metric \<Rightarrow> (string \<times> (string \<rightharpoonup> string)) list" where
  "collected_part ms m = (case m of Collected x \<Rightarrow> [ms x] | _ \<Rightarrow> [])"

definition own_part :: "'m metric \<Rightarrow> (string \<times> (string \<rightharpoonup> string)) list" where
  "own_part m = (case own_call m of None \<Rightarrow> [] | Some (d, vs) \<Rightarrow> [(fqName d, map_of (zip (variableLabels d) vs))])"

lemma metric_series_parts: "metric_series ms m = collected_part ms m @ own_part m"
  by (cases m) (simp_all add: metric_series_def collected_part_def own_part_def)

lemmas own_descs = scrapeSuccessDesc_def scrapeDurationDesc_def exporterScrapeDurationDesc_def

text \<open>The label values of a series of the registry, read back in their order.\<close>

definition own_values :: "string \<times> (string \<rightharpoonup> string) \<Rightarrow> string \<times> string list" where
  "own_values nl =
     (case nl of (n, l) \<Rightarrow>
        (n, if n = fqName exporterScrapeDurationDesc then [the (l ''source''), the (l ''result'')]
            else [the (l ''collector'')]))"

lemma own_values_part: "map own_values (own_part m) = own_series m"
  by (cases m) (simp_all add: own_part_def own_values_def own_descs)

lemma own_part_name: "nl \<in> set (own_part m) \<Longrightarrow> fst nl \<in> fqName ` set Describe"
  by (cases m) (auto simp: own_part_def Describe_def)

lemma parts_distinct:
  assumes "mset xs = mset (concat (map f ys) @ concat (map g ys))"
  shows "distinct xs \<longleftrightarrow> distinct (concat (map f ys)) \<and> distinct (concat (map g ys)) \<and>
     set (concat (map f ys)) \<inter> set (concat (map g ys)) = {}"
  using mset_eq_imp_distinct_iff [OF assms] by auto

lemma mset_concat_parts:
  "mset (concat (map (\<lambda>m. f m @ g m) ys)) = mset (concat (map f ys) @ concat (map g ys))"
  by (induction ys) simp_all

lemma collected_sends:
  "concat (map (collected_part ms) (goroutine_sends st c)) = map ms (or_empty (outcome c))"
proof -
  have "concat (map (collected_part ms) (map Collected xs)) = map ms xs" for xs
    by (induction xs) (simp_all add: collected_part_def)
  then show ?thesis
    by (simp add: goroutine_sends_def collected_part_def split: sum.split del: map_map)
qed

lemma run_series:
  assumes "prometheus_ok (prom env)" "reads_series (prom env) ms" "cache_ok (NewDesc (prom env)) (cache c)"
  shows "map ms (or_empty (outcome (run_collector env (cache c) d c))) = map series (published_obs env cache c)"
proof -
  note unc = Collect_uncached [OF assms(1,3), of c]
  show ?thesis
  proof (cases "fst (Collect env c (cache c))")
    case (Inl err)
    then show ?thesis by (simp add: run_collector_def published_obs_def)
  next
    case (Inr xs)
    with unc have "metrics_of (prom env) (gather env c) = Inr xs" by simp
    from metrics_series [OF assms(2) this] any_collector.gathers [of env c] Inr
    show ?thesis by (simp add: run_collector_def published_obs_def)
  qed
qed

text \<open>
  C4: No two collectors ever yield the same series, and none yields a series of the registry itself, under any
  schedule: all series of a scrape are distinct, as a Prometheus registry demands, exactly when the
  observations of every single collector that succeeds are.
\<close>

theorem scrape_series_distinct:
  assumes "prometheus_ok (prom env)" "reads_series (prom env) ms"
    and "\<And>c. cache_ok (NewDesc (prom env)) (cache c)"
    and "cs = exporter_runs env cache dur (collectors_of cfg mk)"
    and "run_schedule cs sched (start st cs) = Some s" "all_done s"
  shows "distinct (scrape_series ms (fst (Registry_Collect s r))) \<longleftrightarrow>
     list_all (\<lambda>c. distinct_series (published_obs env cache c)) (collectors_of cfg mk)"
proof -
  let ?ch = "fst (Registry_Collect s r)" and ?cols = "collectors_of cfg mk"
  let ?a = "concat (map (collected_part ms) ?ch)" and ?b = "concat (map own_part ?ch)"
  note re = schedule_reachable [OF reach_start assms(5)]
  obtain sm r' where obs: "observeScrapeDurations (durations s) r = (sm, r')" by fastforce
  have "collected_part ms (summary_metric kt) = []" for kt
    by (cases kt) (simp add: summary_metric_def collected_part_def)
  then have "concat (map (collected_part ms) (map summary_metric sm)) = []" by (simp add: comp_def)
  then have "?a = concat (map (collected_part ms) (map snd (channel s)))"
    by (simp add: Registry_Collect_def obs del: map_map)
  also have "mset \<dots> = mset (concat (map (\<lambda>c. concat (map (collected_part ms) (goroutine_sends st c))) cs))"
    unfolding mset_concat_map_cong [OF done_messages [OF re assms(6)]] concat_map_concat by (simp add: comp_def)
  also have "(\<lambda>c. concat (map (collected_part ms) (goroutine_sends st c))) = (\<lambda>c. map ms (or_empty (outcome c)))"
    by (rule ext) (rule collected_sends)
  also have "map (\<lambda>c. map ms (or_empty (outcome c))) cs = map (\<lambda>c. map series (published_obs env cache c)) ?cols"
    unfolding assms(4) exporter_runs_def by (simp add: run_series [where cache = cache, OF assms(1,2,3)])
  also have "concat \<dots> = map series (concat (map (published_obs env cache) ?cols))"
    by (simp add: map_concat comp_def)
  finally have a: "mset ?a = mset (map series (concat (map (published_obs env cache) ?cols)))" .
  then have a_distinct: "distinct ?a \<longleftrightarrow> list_all (\<lambda>c. distinct_series (published_obs env cache c)) ?cols"
    using mset_eq_imp_distinct_iff published_distinct by metis
  have "map own_values ?b = concat (map own_series ?ch)"
    by (simp add: map_concat comp_def own_values_part)
  with own_series_distinct [OF assms(4,5,6), of r] have b: "distinct ?b" by (metis distinct_map)
  have names: "fst nl \<notin> fqName ` set Describe" if "nl \<in> set ?a" for nl
  proof -
    from that have "nl \<in> set (map series (concat (map (published_obs env cache) ?cols)))"
      using mset_eq_setD [OF a] by metis
    then obtain c ob where "ob \<in> set (published_obs env cache c)" "nl = series ob" by auto
    with published_obs_conform [of env cache c] own_names show ?thesis
      by (auto simp: all_conform_def conforms_def series_def split: option.splits)
  qed
  have "set ?a \<inter> set ?b = {}"
  proof (rule equals0I)
    fix nl
    assume "nl \<in> set ?a \<inter> set ?b"
    with names [of nl] own_part_name [of nl] show False by auto
  qed
  moreover have "mset (scrape_series ms ?ch) = mset (?a @ ?b)"
    unfolding scrape_series_def metric_series_parts [abs_def] by (rule mset_concat_parts)
  ultimately show ?thesis using parts_distinct a_distinct b by blast
qed

lemma demo_reads:
  "reads_series (prom demo_environment) (\<lambda>(d, vt, v, ls). (fst d, map_of (zip (snd (snd d)) ls)))"
  by (auto simp: reads_series_def demo_environment_def demo_desc_def demo_metric_def split: if_splits)

lemma scrape_series_distinct_witness:
  "distinct (scrape_series (\<lambda>(d, vt, v, ls). (fst d, map_of (zip (snd (snd d)) ls)))
     (fst (Registry_Collect
       \<lparr>goroutines = [\<lparr>to_send = [] :: ((string \<times> string \<times> string list) \<times> value_type \<times> float64 \<times> string list) metric list,
                      finished = True\<rparr>],
        channel = [(0, SuccessMetric ''lpcc'' (f_of_int 1)), (0, DurationMetric ''lpcc'' f_zero)],
        durations = [(Key ''lpcc'' ''success'', f_add f_zero f_zero)]\<rparr> Map.empty)))"
proof -
  have "published_obs demo_environment (\<lambda>c. Map.empty) c = []"
    if "c \<in> set (collectors_of demo_config (\<lambda>root. demo_files))" for c
    using that
    by (auto simp: published_obs_def collectors_of_def demo_config_def default_flags_def gather_def
        lpcc_gather_def demo_files_def Let_def)
  with scrape_series_distinct [OF demo_environment_ok demo_reads _ demo_exporter_def demo_exporter_scrape, of Map.empty]
  show ?thesis by (simp add: all_done_def cache_empty_ok list_all_iff)
qed

section \<open>The registry never panics\<close>

text \<open>
  What the client library accepts for a metric: as many label values as the descriptor has labels, all of
  them valid UTF-8, which ASCII is.
\<close>

definition acceptable :: "own_desc \<Rightarrow> string list \<Rightarrow> bool" where
  "acceptable d vs \<longleftrightarrow> length vs = length (variableLabels d) \<and> list_all (list_all is_ascii) vs"

lemma own_labels:
  assumes "c \<in> set (exporter_runs env cache dur (collectors_of cfg mk))"
  shows "list_all is_ascii (cname c) \<and> list_all is_ascii (final_source c)"
proof -
  from assms obtain x where c: "c = run_collector env (cache x) (dur x) x" by (auto simp: exporter_runs_def)
  have "list_all is_ascii (collector_name x)" by (simp add: collector_name_def is_ascii_def split: collector.split)
  moreover have "list_all is_ascii (final_source c)"
    unfolding c final_sources by (simp add: is_ascii_def split: collector.split LNetSource.split sum.split)
  ultimately show ?thesis by (simp add: c run_collector_def)
qed

text \<open>
  C30: No metric of the registry itself makes the exporter panic: every call of \<open>MustNewConstMetric\<close> and
  \<open>MustNewConstSummary\<close> in a scrape has a described descriptor and label values that it accepts, whatever the
  collectors do.
\<close>

theorem own_metrics_accepted:
  assumes "cs = exporter_runs env cache dur (collectors_of cfg mk)"
    and "run_schedule cs sched (start st cs) = Some s" "all_done s"
  shows "list_all (\<lambda>m. case own_call m of None \<Rightarrow> True | Some (d, vs) \<Rightarrow> d \<in> set Describe \<and> acceptable d vs)
     (fst (Registry_Collect s r))"
proof -
  let ?ok = "\<lambda>m. case own_call m of None \<Rightarrow> True | Some (d, vs) \<Rightarrow> d \<in> set Describe \<and> acceptable d vs"
  note re = schedule_reachable [OF reach_start assms(2)]
  obtain sm r' where obs: "observeScrapeDurations (durations s) r = (sm, r')" by fastforce
  have "?ok m" if m: "m \<in> set (map snd (channel s))" for m
  proof -
    obtain c where "c \<in> set cs" "m \<in> set (goroutine_sends st c)"
      using m mset_eq_setD [OF done_messages [OF re assms(3)]] by auto
    with own_labels [of c env cache dur cfg mk] assms(1) show ?thesis
      by (auto simp: goroutine_sends_def acceptable_def Describe_def own_descs split: sum.splits if_splits)
  qed
  moreover have "?ok (summary_metric kt)" if kt: "kt \<in> set sm" for kt
  proof -
    have "map fst sm = sort (map fst (durations s))"
      using observe_spec [of "durations s" r] done_keys [OF re assms(3)] obs by (simp add: comp_def)
    then have "fst kt \<in> set (map fst (durations s))" using kt by (metis in_set_zip list.set_map imageI set_sort)
    then obtain c where "c \<in> set cs" "fst kt = duration_key c" using done_keys [OF re assms(3)] by auto
    with own_labels [of c env cache dur cfg mk] assms(1) show ?thesis
      by (cases kt) (auto simp: summary_metric_def duration_key_def acceptable_def Describe_def own_descs is_ascii_def
          split: sum.split)
  qed
  ultimately show ?thesis by (auto simp: Registry_Collect_def obs list_all_iff)
qed

lemma own_metrics_accepted_witness:
  "list_all (\<lambda>m. case own_call m of None \<Rightarrow> True | Some (d, vs) \<Rightarrow> d \<in> set Describe \<and> acceptable d vs)
     (fst (Registry_Collect
       \<lparr>goroutines = [\<lparr>to_send = [] :: ((string \<times> string \<times> string list) \<times> value_type \<times> float64 \<times> string list) metric list,
                      finished = True\<rparr>],
        channel = [(0, SuccessMetric ''lpcc'' (f_of_int 1)), (0, DurationMetric ''lpcc'' f_zero)],
        durations = [(Key ''lpcc'' ''success'', f_add f_zero f_zero)]\<rparr> Map.empty))"
  by (rule own_metrics_accepted [OF demo_exporter_def demo_exporter_scrape]) (simp add: all_done_def)

end
