(* ===== verification/Overlap.thy ===== *)
theory Overlap
  imports Exporter
begin

text \<open>
  Scrapes that overlap: the HTTP server answers requests concurrently, so several calls of
  \<open>Registry.Collect\<close> can be under way.  They share the totals of the registry, which
  \<open>observeScrapeDurations\<close> updates under a lock.  A run of the server is a sequence of actions of the
  goroutines of any scrape and of observations of scrapes whose goroutines are done.
\<close>

section \<open>Overlapping scrapes\<close>

text \<open>\<open>served\<close> holds the scrapes that are observed, in the order in which they took the lock, with the
  summaries they sent.\<close>

record 'm server =
  scrapes :: "'m scrape_state list"
  served :: "(nat \<times> summaries) list"
  shared :: totals

datatype action = Goroutine nat nat | Observe nat

definition open_server :: "bool \<Rightarrow> 'm collector_run list list \<Rightarrow> totals \<Rightarrow> 'm server" where
  "open_server st css r = \<lparr>scrapes = map (start st) css, served = [], shared = r\<rparr>"

fun server_step :: "'m collector_run list list \<Rightarrow> action \<Rightarrow> 'm server \<Rightarrow> 'm server option" where
  "server_step css (Goroutine i j) S =
     (if i < length (scrapes S)
      then map_option (\<lambda>s. S\<lparr>scrapes := (scrapes S)[i := s]\<rparr>) (act (css ! i) j (scrapes S ! i))
      else None)"
| "server_step css (Observe i) S =
     (if i < length (scrapes S) \<and> i \<notin> fst ` set (served S) \<and> all_done (scrapes S ! i) then
        (case observeScrapeDurations (durations (scrapes S ! i)) (shared S) of
           (ms, r) \<Rightarrow> Some (S\<lparr>served := served S @ [(i, ms)], shared := r\<rparr>))
      else None)"

fun run_server :: "'m collector_run list list \<Rightarrow> action list \<Rightarrow> 'm server \<Rightarrow> 'm server option" where
  "run_server css [] S = Some S"
| "run_server css (a # as) S = (case server_step css a S of None \<Rightarrow> None | Some S' \<Rightarrow> run_server css as S')"

lemma run_server_append:
  "run_server css (as @ bs) S = (case run_server css as S of None \<Rightarrow> None | Some S' \<Rightarrow> run_server css bs S')"
  by (induction as arbitrary: S) (simp_all split: option.split)

text \<open>Scrapes that are observed one after the other.\<close>

fun observe_all :: "scrape_durations list \<Rightarrow> totals \<Rightarrow> summaries list \<times> totals" where
  "observe_all [] r = ([], r)"
| "observe_all (ds # dss) r =
     (case observeScrapeDurations ds r of
        (ms, r1) \<Rightarrow> (case observe_all dss r1 of (mss, r2) \<Rightarrow> (ms # mss, r2)))"

lemma observe_all_snoc:
  "observe_all (dss @ [ds]) r =
     (case observe_all dss r of
        (mss, r1) \<Rightarrow> (case observeScrapeDurations ds r1 of (ms, r2) \<Rightarrow> (mss @ [ms], r2)))"
  by (induction dss arbitrary: r) (simp_all split: prod.split)

lemma observe_all_series: "snd (observe_all dss r) = observe_series dss r"
proof (induction dss arbitrary: r)
  case (Cons ds dss)
  from Cons.IH [of "snd (observeScrapeDurations ds r)"] show ?case
    by (simp add: observe_series_def case_prod_beta)
qed (simp add: observe_series_def)

section \<open>The invariant\<close>

lemma done_stuck:
  assumes "reachable st cs s" "all_done s"
  shows "act cs j s = None"
proof (cases "j < length (goroutines s)")
  case True
  then have "finished (goroutines s ! j)" using assms(2) by (simp add: all_done_def list_all_length)
  moreover have "to_send (goroutines s ! j) = []"
    using reachable_inv [OF assms(1)] True calculation by (simp add: scrape_inv_def)
  ultimately show ?thesis by (simp add: act_def)
qed (simp add: act_def)

definition server_inv :: "bool \<Rightarrow> 'm collector_run list list \<Rightarrow> totals \<Rightarrow> 'm server \<Rightarrow> bool" where
  "server_inv st css r S \<longleftrightarrow>
     length (scrapes S) = length css \<and>
     (\<forall>i < length css. reachable st (css ! i) (scrapes S ! i)) \<and>
     distinct (map fst (served S)) \<and>
     (\<forall>i \<in> set (map fst (served S)). i < length css \<and> all_done (scrapes S ! i)) \<and>
     observe_all (map (\<lambda>x. durations (scrapes S ! fst x)) (served S)) r = (map snd (served S), shared S)"

lemma server_inv_open: "server_inv st css r (open_server st css r)"
  by (simp add: server_inv_def open_server_def reach_start)

lemma server_inv_step:
  assumes inv: "server_inv st css r S" and step: "server_step css a S = Some S'"
  shows "server_inv st css r S'"
proof (cases a)
  case (Goroutine i j)
  then obtain s where i: "i < length css" and s: "act (css ! i) j (scrapes S ! i) = Some s"
    and S': "S' = S\<lparr>scrapes := (scrapes S)[i := s]\<rparr>"
    using step inv by (auto simp: server_inv_def split: if_splits)
  have re: "reachable st (css ! i) (scrapes S ! i)" using inv i by (simp add: server_inv_def)
  then have "\<not> all_done (scrapes S ! i)" using done_stuck s by fastforce
  then have new: "k \<noteq> i" if "k \<in> set (map fst (served S))" for k using inv that by (auto simp: server_inv_def)
  then have "durations ((scrapes S)[i := s] ! fst x) = durations (scrapes S ! fst x)" if "x \<in> set (served S)" for x
    using new [of "fst x"] that by (metis imageI list.set_map nth_list_update_neq)
  then have same: "map (\<lambda>x. durations (scrapes S' ! fst x)) (served S) =
      map (\<lambda>x. durations (scrapes S ! fst x)) (served S)"
    by (auto simp: S')
  have "observe_all (map (\<lambda>x. durations (scrapes S' ! fst x)) (served S)) r = (map snd (served S), shared S)"
    unfolding same using inv by (simp add: server_inv_def)
  moreover have "reachable st (css ! k) (scrapes S' ! k)" if "k < length css" for k
    using inv that i re s by (cases "k = i") (auto simp: S' server_inv_def intro: reach_act)
  moreover have "all_done (scrapes S' ! k)" if "k \<in> set (map fst (served S))" for k
    using new [OF that] inv that by (auto simp: S' server_inv_def)
  ultimately show ?thesis using inv unfolding server_inv_def by (simp add: S')
next
  case (Observe i)
  obtain ms r1 where obs: "observeScrapeDurations (durations (scrapes S ! i)) (shared S) = (ms, r1)" by fastforce
  with Observe step have "i < length (scrapes S)" "i \<notin> fst ` set (served S)" "all_done (scrapes S ! i)"
    and S': "S' = S\<lparr>served := served S @ [(i, ms)], shared := r1\<rparr>"
    by (auto split: if_splits)
  with inv obs show ?thesis by (auto simp: server_inv_def observe_all_snoc)
qed

lemma server_inv_run:
  "run_server css as S = Some S' \<Longrightarrow> server_inv st css r S \<Longrightarrow> server_inv st css r S'"
  by (induction as arbitrary: S) (auto split: option.splits dest: server_inv_step)

section \<open>No update is lost\<close>

text \<open>How many of the scrapes had a collector that ended with a source and a result.\<close>

definition scrapes_with :: "scrapeDurationKey \<Rightarrow> 'm collector_run list list \<Rightarrow> nat" where
  "scrapes_with k css = length (filter (\<lambda>cs. k \<in> duration_key ` set cs) css)"

lemma observed_length:
  "length (observed dss k) = length (filter (\<lambda>ds. k \<in> set (map fst ds)) dss)"
  by (induction dss)
     (auto simp: observed_def map_of_eq_None_iff split: option.split dest: map_of_SomeD weak_map_of_SomeI)

text \<open>
  C5: Overlapping scrapes are serializable: once all are answered, the totals and the summaries that each sent
  are those of observing them one after the other in the order in which they took the lock, and the count of
  each source and result has grown by the number of scrapes that had it, modulo 2^64, in every interleaving.
\<close>

theorem overlapping_scrapes:
  assumes "run_server css acts (open_server st css r) = Some S" "length (served S) = length css"
  shows "distinct (map fst (served S)) \<and> set (map fst (served S)) = {..<length css} \<and>
     observe_all (map (\<lambda>x. durations (scrapes S ! fst x)) (served S)) r = (map snd (served S), shared S) \<and>
     count_of (shared S) k = count_of r k + of_nat (scrapes_with k css)"
proof -
  have inv: "server_inv st css r S" using server_inv_run [OF assms(1) server_inv_open] .
  let ?order = "map fst (served S)" and ?dss = "map (\<lambda>x. durations (scrapes S ! fst x)) (served S)"
  have dist: "distinct ?order" and sub: "set ?order \<subseteq> {..<length css}"
    and all: "observe_all ?dss r = (map snd (served S), shared S)"
    using inv by (auto simp: server_inv_def)
  have "card (set ?order) = length css" using distinct_card [OF dist] assms(2) by simp
  then have order: "set ?order = {..<length css}" using sub by (intro card_subset_eq) simp_all
  have keys: "distinct (map fst (durations (scrapes S ! i))) \<and>
      set (map fst (durations (scrapes S ! i))) = duration_key ` set (css ! i)" if "i \<in> set ?order" for i
    using inv that by (intro done_keys [of st]) (auto simp: server_inv_def)
  have "length (observed ?dss k) = length (filter (\<lambda>i. k \<in> set (map fst (durations (scrapes S ! i)))) ?order)"
    unfolding observed_length by (simp add: filter_map comp_def)
  also have "filter (\<lambda>i. k \<in> set (map fst (durations (scrapes S ! i)))) ?order =
      filter (\<lambda>i. k \<in> duration_key ` set (css ! i)) ?order"
    using keys by (intro filter_cong [OF refl]) blast
  also have "length \<dots> = length (filter (\<lambda>i. k \<in> duration_key ` set (css ! i)) [0..<length css])"
  proof -
    have "mset ?order = mset [0..<length css]" using dist order by (intro set_eq_iff_mset_eq_distinct [THEN iffD1]) auto
    then show ?thesis by (metis mset_filter size_mset)
  qed
  also have "\<dots> = scrapes_with k css"
  proof -
    have "css = map ((!) css) [0..<length css]" by (simp add: map_nth)
    then have "scrapes_with k css = length (filter (\<lambda>cs. k \<in> duration_key ` set cs) (map ((!) css) [0..<length css]))"
      unfolding scrapes_with_def by metis
    then show ?thesis by (simp add: filter_map comp_def)
  qed
  finally have len: "length (observed ?dss k) = scrapes_with k css" .
  have "list_all (\<lambda>ds. distinct (map fst ds)) ?dss" using keys by (auto simp: list_all_iff)
  from totals_of_series [OF this, of r k]
  have "count_of (observe_series ?dss r) k = count_of r k + of_nat (scrapes_with k css)" by (simp add: len)
  moreover have "observe_series ?dss r = shared S" using all observe_all_series [of ?dss r] by simp
  ultimately show ?thesis using dist order all by simp
qed

lemma observe_one:
  "observeScrapeDurations [(k, d)] r = ([(k, next_total r k d)], r(k \<mapsto> next_total r k d))"
  by (simp add: observeScrapeDurations_def next_total_def Let_def)

lemma run_goroutines:
  "i < length (scrapes S) \<Longrightarrow> run_schedule (css ! i) sched (scrapes S ! i) = Some s \<Longrightarrow>
     run_server css (map (Goroutine i) sched @ as) S = run_server css as (S\<lparr>scrapes := (scrapes S)[i := s]\<rparr>)"
proof (induction sched arbitrary: S)
  case (Cons j sched)
  from Cons.prems obtain s1 where s1: "act (css ! i) j (scrapes S ! i) = Some s1"
    "run_schedule (css ! i) sched s1 = Some s" by (auto split: option.splits)
  with Cons.IH [of "S\<lparr>scrapes := (scrapes S)[i := s1]\<rparr>"] Cons.prems(1) show ?case by simp
qed auto

text \<open>Two scrapes of the exporter above; the second one takes the lock first.\<close>

definition demo_total :: "64 word \<Rightarrow> float64 \<Rightarrow> totals" where
  "demo_total n d = [Key ''lpcc'' ''success'' \<mapsto> \<lparr>count = n, total_sum = d\<rparr>]"

lemma overlapping_scrapes_witness:
  "count_of (demo_total 2 (f_add (f_add f_zero (f_add f_zero f_zero)) (f_add f_zero f_zero)))
     (Key ''lpcc'' ''success'') = 2"
proof -
  let ?css = "[demo_exporter, demo_exporter]" and ?d = "f_add f_zero f_zero" and ?k = "Key ''lpcc'' ''success''"
  obtain D where D: "run_schedule demo_exporter [0, 0, 0] (start False demo_exporter) = Some D"
    "durations D = [(?k, ?d)]" "all_done D"
    using demo_exporter_scrape by (simp add: all_done_def)
  define S1 where "S1 = \<lparr>scrapes = [start False demo_exporter, D], served = [(1, [(?k, next_total Map.empty ?k ?d)])],
    shared = demo_total 1 (f_add f_zero ?d)\<rparr>"
  define S2 where "S2 = \<lparr>scrapes = [D, D], served = served S1 @ [(0, [(?k, next_total (shared S1) ?k ?d)])],
    shared = demo_total 2 (f_add (f_add f_zero ?d) ?d)\<rparr>"
  have "run_server ?css (map (Goroutine 1) [0, 0, 0] @ [Observe 1]) (open_server False ?css Map.empty) = Some S1"
    by (subst run_goroutines [where s = D])
       (simp_all add: open_server_def D observe_one S1_def next_total_def zero_total_def demo_total_def
          del: run_schedule.simps)
  moreover have "run_server ?css (map (Goroutine 0) [0, 0, 0] @ [Observe 0]) S1 = Some S2"
    by (subst run_goroutines [where s = D])
       (simp_all add: D observe_one S1_def S2_def next_total_def demo_total_def del: run_schedule.simps)
  ultimately have "run_server ?css ((map (Goroutine 1) [0, 0, 0] @ [Observe 1]) @ map (Goroutine 0) [0, 0, 0] @ [Observe 0])
      (open_server False ?css Map.empty) = Some S2"
    by (simp only: run_server_append option.case)
  from overlapping_scrapes [OF this] have "count_of (shared S2) ?k = count_of Map.empty ?k + of_nat (scrapes_with ?k ?css)"
    by (simp add: S1_def S2_def)
  moreover have "scrapes_with ?k ?css = 2"
    by (simp add: scrapes_with_def demo_exporter_runs duration_key_def final_source_def scrapeSourceName_def)
  ultimately show ?thesis by (simp add: S2_def count_of_def)
qed

end
