(* ===== verification/Json_Text.thy ===== *)
theory Json_Text
  imports Json
begin

text \<open>
  JSON texts: the tokens of a value and their printing with any white space between them, and that
  \<open>parse_json\<close> reads back every value that is not nested too deeply.
\<close>

section \<open>The tokens of a value\<close>

fun separate :: "'a \<Rightarrow> 'a list list \<Rightarrow> 'a list" where
  "separate c [] = []"
| "separate c [xs] = xs"
| "separate c (xs # ys # zss) = xs @ c # separate c (ys # zss)"

fun json_tokens :: "json \<Rightarrow> json_token list" where
  "json_tokens JNull = [TNull]"
| "json_tokens (JBool b) = [if b then TTrue else TFalse]"
| "json_tokens (JNumber w) = [TNumber w]"
| "json_tokens (JString w) = [TString w]"
| "json_tokens (JArray vs) = TOpenArray # separate TComma (map json_tokens vs) @ [TCloseArray]"
| "json_tokens (JObject kvs) =
     TOpenObject # separate TComma (map (\<lambda>(k, v). TString k # TColon # json_tokens v) kvs) @ [TCloseObject]"

fun json_depth :: "json \<Rightarrow> nat" where
  "json_depth (JArray vs) = Suc (foldr max (map json_depth vs) 0)"
| "json_depth (JObject kvs) = Suc (foldr max (map (\<lambda>(k, v). json_depth v) kvs) 0)"
| "json_depth _ = 0"

lemma foldr_max_le: "x \<in> set xs \<Longrightarrow> x \<le> foldr max xs (0::nat)"
  by (induction xs) (auto simp: le_max_iff_disj)

lemma json_tokens_hd: "\<exists>t ts. json_tokens j = t # ts \<and> t \<noteq> TCloseArray \<and> t \<noteq> TCloseObject"
  by (cases j) auto

section \<open>Reading the tokens of a value\<close>

text \<open>What it means that the tokens of a value are read where a value is expected.\<close>

definition reads :: "json \<Rightarrow> bool" where
  "reads j \<longleftrightarrow>
     (\<forall>fs ts. length fs + json_depth j \<le> max_depth \<longrightarrow>
        json_run (json_tokens j @ ts) (fs, WantValue) = json_run ts (complete_value j fs))"

lemma reads_first:
  assumes "reads j" "length fs + json_depth j \<le> max_depth"
  shows "json_run (json_tokens j @ ts) (fs, WantValue) = json_run ts (complete_value j fs)"
    "json_run (json_tokens j @ ts) (fs, WantValueOrClose) = json_run ts (complete_value j fs)"
proof -
  show v: "json_run (json_tokens j @ ts) (fs, WantValue) = json_run ts (complete_value j fs)"
    using assms by (simp add: reads_def)
  from json_tokens_hd obtain t us where "json_tokens j = t # us" "t \<noteq> TCloseArray" by blast
  with v show "json_run (json_tokens j @ ts) (fs, WantValueOrClose) = json_run ts (complete_value j fs)"
    by simp
qed

lemma run_elements:
  assumes "vs \<noteq> []" "\<forall>v \<in> set vs. reads v"
    and "\<forall>v \<in> set vs. Suc (length fs) + json_depth v \<le> max_depth"
  shows "json_run (separate TComma (map json_tokens vs) @ TCloseArray # ts) (InArray acc # fs, WantValue) =
           json_run ts (complete_value (JArray (rev acc @ vs)) fs)"
  using assms
proof (induction vs arbitrary: acc)
  case (Cons v vs)
  have v: "json_run (json_tokens v @ us) (InArray acc # fs, WantValue) =
      json_run us (InArray (v # acc) # fs, WantCommaOrClose)" for us
    using reads_first(1) [of v "InArray acc # fs" us] Cons.prems by simp
  show ?case
  proof (cases vs)
    case Nil
    with v show ?thesis by simp
  next
    case (Cons w ws)
    with Cons.prems Cons.IH [of "v # acc"] v show ?thesis by simp
  qed
qed simp

lemma run_members:
  assumes "kvs \<noteq> []" "\<forall>(k, v) \<in> set kvs. reads v"
    and "\<forall>(k, v) \<in> set kvs. Suc (length fs) + json_depth v \<le> max_depth"
  shows "json_run (separate TComma (map (\<lambda>(k, v). TString k # TColon # json_tokens v) kvs) @ TCloseObject # ts)
             (InObject acc k0 # fs, WantKey) =
           json_run ts (complete_value (JObject (rev acc @ kvs)) fs)"
  using assms
proof (induction kvs arbitrary: acc k0)
  case (Cons kv kvs)
  obtain k v where kv: "kv = (k, v)" by (cases kv)
  have v: "json_run (json_tokens v @ us) (InObject acc k # fs, WantValue) =
      json_run us (InObject ((k, v) # acc) k # fs, WantCommaOrClose)" for us
    using reads_first(1) [of v "InObject acc k # fs" us] Cons.prems kv by simp
  show ?case
  proof (cases kvs)
    case Nil
    with v kv show ?thesis by simp
  next
    case (Cons lw kws)
    then obtain l w where "lw = (l, w)" by (cases lw)
    with Cons Cons.prems Cons.IH [of "(k, v) # acc" k] v kv show ?thesis by simp
  qed
qed simp

lemma array_depth: "v \<in> set vs \<Longrightarrow> json_depth v < json_depth (JArray vs)"
  using foldr_max_le [of "json_depth v" "map json_depth vs"] by (simp add: less_Suc_eq_le)

lemma object_depth: "(k, v) \<in> set kvs \<Longrightarrow> json_depth v < json_depth (JObject kvs)"
  using foldr_max_le [of "json_depth v" "map (\<lambda>(k, v). json_depth v) kvs"]
  by (force simp: less_Suc_eq_le image_def)

lemma reads_json: "reads j"
proof (induction j rule: json.induct)
  case (JArray vs)
  show ?case unfolding reads_def
  proof (intro allI impI)
    fix fs :: "frame list" and ts
    assume d: "length fs + json_depth (JArray vs) \<le> max_depth"
    then have fs: "length fs < max_depth" by simp
    have ds: "\<forall>v \<in> set vs. Suc (length fs) + json_depth v \<le> max_depth"
      using d array_depth by fastforce
    show "json_run (json_tokens (JArray vs) @ ts) (fs, WantValue) = json_run ts (complete_value (JArray vs) fs)"
    proof (cases vs)
      case Nil
      with fs show ?thesis by (simp add: push_frame_def)
    next
      case (Cons v ws)
      from json_tokens_hd [of v] obtain t us where t: "json_tokens v = t # us" "t \<noteq> TCloseArray" by blast
      have "json_run (separate TComma (map json_tokens vs) @ TCloseArray # ts) (InArray [] # fs, WantValueOrClose) =
          json_run (separate TComma (map json_tokens vs) @ TCloseArray # ts) (InArray [] # fs, WantValue)"
        using t Cons by (cases ws) simp_all
      with run_elements [of vs fs ts "[]"] JArray ds Cons fs show ?thesis by (simp add: push_frame_def)
    qed
  qed
next
  case (JObject kvs)
  show ?case unfolding reads_def
  proof (intro allI impI)
    fix fs :: "frame list" and ts
    assume d: "length fs + json_depth (JObject kvs) \<le> max_depth"
    then have fs: "length fs < max_depth" by simp
    have ds: "\<forall>(k, v) \<in> set kvs. Suc (length fs) + json_depth v \<le> max_depth"
      using d object_depth by fastforce
    have rd: "\<forall>(k, v) \<in> set kvs. reads v" using JObject by (fastforce simp: snds.simps)
    show "json_run (json_tokens (JObject kvs) @ ts) (fs, WantValue) =
        json_run ts (complete_value (JObject kvs) fs)"
    proof (cases kvs)
      case Nil
      with fs show ?thesis by (simp add: push_frame_def)
    next
      case (Cons kv kws)
      have "json_run (separate TComma (map (\<lambda>(k, v). TString k # TColon # json_tokens v) kvs) @ TCloseObject # ts)
          (InObject [] [] # fs, WantKeyOrClose) =
          json_run (separate TComma (map (\<lambda>(k, v). TString k # TColon # json_tokens v) kvs) @ TCloseObject # ts)
          (InObject [] [] # fs, WantKey)"
        using Cons by (cases kws; cases kv) simp_all
      with run_members [of kvs fs ts "[]" "[]"] rd ds Cons fs show ?thesis by (simp add: push_frame_def)
    qed
  qed
qed (simp_all add: reads_def)

section \<open>Printing\<close>

definition hex_char :: "nat \<Rightarrow> char" where
  "hex_char n = (if n < 10 then char_of (48 + n) else char_of (87 + n))"

definition ascii :: "string \<Rightarrow> bool" where
  "ascii w \<longleftrightarrow> list_all (byte_in 0 0x7F) w"

definition escape_char :: "char \<Rightarrow> string" where
  "escape_char c =
     (if c = CHR 0x22 \<or> c = CHR 0x5C then [CHR 0x5C, c]
      else if byte_in 0 0x1F c then
        [CHR 0x5C, CHR ''u'', CHR ''0'', CHR ''0'', hex_char (of_char c div 16), hex_char (of_char c mod 16)]
      else [c])"

definition print_string :: "string \<Rightarrow> string" where
  "print_string w = CHR 0x22 # concat (map escape_char w) @ [CHR 0x22]"

fun print_token :: "json_token \<Rightarrow> string" where
  "print_token TOpenObject = ''{''"
| "print_token TCloseObject = ''}''"
| "print_token TOpenArray = ''[''"
| "print_token TCloseArray = '']''"
| "print_token TComma = '',''"
| "print_token TColon = '':''"
| "print_token (TString w) = print_string w"
| "print_token (TNumber w) = w"
| "print_token TTrue = ''true''"
| "print_token TFalse = ''false''"
| "print_token TNull = ''null''"

text \<open>\<open>pad n\<close> is the white space before the \<open>n\<close>th token, or at the end.\<close>

fun print_tokens :: "(nat \<Rightarrow> string) \<Rightarrow> nat \<Rightarrow> json_token list \<Rightarrow> string" where
  "print_tokens pad n [] = pad n"
| "print_tokens pad n (t # ts) = pad n @ print_token t @ print_tokens pad (Suc n) ts"

definition json_text :: "(nat \<Rightarrow> string) \<Rightarrow> json \<Rightarrow> string" where
  "json_text pad j = print_tokens pad 0 (json_tokens j)"

text \<open>The strings and the numbers that can be printed this way.\<close>

fun printable_token :: "json_token \<Rightarrow> bool" where
  "printable_token (TString w) = ascii w"
| "printable_token (TNumber w) = (scan_number w = Some w)"
| "printable_token _ = True"

definition printable :: "json \<Rightarrow> bool" where
  "printable j \<longleftrightarrow> list_all printable_token (json_tokens j)"

section \<open>Reading strings back\<close>

lemma hex_digit_char: "n < 16 \<Longrightarrow> hex_digit (hex_char n) = Some n"
  by (auto simp: hex_digit_def hex_char_def Let_def)

lemma escape_char_piece:
  assumes "byte_in 0 0x7F c"
  shows "next_piece (escape_char c @ s) = Some (Piece [c] (length (escape_char c)))"
proof -
  let ?n = "of_char c :: nat"
  consider (quote) "c = CHR 0x22 \<or> c = CHR 0x5C"
    | (control) "\<not> (c = CHR 0x22 \<or> c = CHR 0x5C)" "byte_in 0 0x1F c"
    | (plain) "\<not> (c = CHR 0x22 \<or> c = CHR 0x5C)" "\<not> byte_in 0 0x1F c" by blast
  then show ?thesis
  proof cases
    case quote
    then show ?thesis
      by (auto simp: escape_char_def next_piece_def escape_piece_def escapes_def)
  next
    case control
    then have n: "?n < 32" by (simp add: byte_in_def)
    have "hex_digit CHR ''0'' = Some 0" by (simp add: hex_digit_def)
    with n have "hex4 (CHR ''0'' # CHR ''0'' # hex_char (?n div 16) # hex_char (?n mod 16) # s) = Some ?n"
      by (simp add: hex_digit_char)
    with control n show ?thesis
      by (simp add: escape_char_def next_piece_def escape_piece_def encode_rune_def)
  next
    case plain
    with assms show ?thesis by (simp add: escape_char_def next_piece_def Let_def)
  qed
qed

lemma unquote_escaped:
  "ascii w \<Longrightarrow> unquote (concat (map escape_char w) @ CHR 0x22 # s) = Some (w, s)"
proof (induction w)
  case Nil
  show ?case by (subst unquote.simps) (simp add: next_piece_def)
next
  case (Cons c w)
  then show ?case
    by (subst unquote.simps) (simp add: escape_char_piece ascii_def)
qed

section \<open>Reading numbers back\<close>

text \<open>What may follow a number without being read as a part of it.\<close>

definition number_ends :: "string \<Rightarrow> bool" where
  "number_ends s \<longleftrightarrow> s = [] \<or> \<not> is_digit (hd s) \<and> hd s \<notin> set ''.eE+-''"

lemma digits_append: "number_ends s \<Longrightarrow> takeWhile is_digit (u @ s) = takeWhile is_digit u"
  by (cases s) (auto simp: number_ends_def takeWhile_append takeWhile_eq_all_conv [THEN iffD2])

lemma number_fraction_append: "number_ends s \<Longrightarrow> number_fraction (u @ s) = number_fraction u"
  using digits_append [of s "tl u"]
  by (cases u; cases s) (auto simp: number_fraction_def number_ends_def)

lemma number_exponent_append:
  assumes "number_ends s"
  shows "number_exponent (u @ s) = number_exponent u"
proof (cases u)
  case Nil
  with assms show ?thesis by (cases s) (auto simp: number_exponent_def number_ends_def)
next
  case (Cons e v)
  with assms digits_append [OF assms, of v] digits_append [OF assms, of "tl v"]
    digits_append [OF assms, of "[]"] show ?thesis
    by (cases v; cases s) (auto simp: number_exponent_def number_ends_def Let_def)
qed

lemma number_fraction_length: "number_fraction u = Some fp \<Longrightarrow> length fp \<le> length u"
  by (cases u) (auto simp: number_fraction_def Let_def length_takeWhile_le split: if_splits)

lemma is_digit_0: "is_digit CHR ''0''"
  by code_simp

lemma number_integer_append: "number_ends s \<Longrightarrow> number_integer (u @ s) = number_integer u"
  using digits_append [of s u] is_digit_0
  by (cases u; cases s) (auto simp: number_integer_def number_ends_def)

lemma number_integer_length: "length (number_integer u) \<le> length u"
  by (cases u) (auto simp: number_integer_def length_takeWhile_le le_SucI)

lemma scan_number_append:
  assumes s: "number_ends s" and "u \<noteq> []"
  shows "scan_number (u @ s) = scan_number u"
proof -
  have sg: "number_sign (u @ s) = number_sign u" "length (number_sign u) \<le> length u"
    using assms(2) by (cases u; auto simp: number_sign_def)+
  define v where "v = drop (length (number_sign u)) u"
  define ip where "ip = number_integer v"
  have v: "drop (length (number_sign u)) (u @ s) = v @ s"
    using sg(2) by (simp add: v_def)
  have ip: "number_integer (v @ s) = ip" "length ip \<le> length v"
    using number_integer_append [OF s] number_integer_length by (simp_all add: ip_def)
  have fp: "number_fraction (drop (length ip) (v @ s)) = number_fraction (drop (length ip) v)"
    using ip(2) by (simp add: number_fraction_append [OF s])
  have ep: "number_exponent (drop (length ip + length fp) (v @ s)) =
      number_exponent (drop (length ip + length fp) v)"
    if "number_fraction (drop (length ip) v) = Some fp" for fp
    using number_fraction_length [OF that] ip(2) by (simp add: number_exponent_append [OF s])
  show ?thesis
    unfolding scan_number_def Let_def sg(1) v
    unfolding v_def [symmetric] ip(1)
    unfolding ip_def [symmetric] fp
    by (cases "number_fraction (drop (length ip) v)") (simp_all add: ep del: drop_append)
qed

lemma scan_number_hd: "scan_number w = Some v \<Longrightarrow> w \<noteq> [] \<and> (hd w = CHR ''-'' \<or> is_digit (hd w))"
  by (cases w)
     (auto simp: scan_number_def number_sign_def number_integer_def is_digit_0 Let_def split: if_splits)

section \<open>Reading a text back\<close>

lemma punctuation_plain:
  assumes "c = CHR ''-'' \<or> is_digit c"
  shows "map_of punctuation c = None" "map_of literals c = None" "c \<noteq> CHR 0x22" "\<not> json_space c"
proof -
  have ok: "list_all (\<lambda>c. map_of punctuation c = None \<and> map_of literals c = None \<and>
      c \<noteq> CHR 0x22 \<and> \<not> json_space c) ''-0123456789''" by code_simp
  have "c \<in> insert CHR ''-'' (set ''0123456789'')" using assms is_digit_cases [of c] by blast
  then have "c \<in> set ''-0123456789''" by (simp only: list.set)
  with ok have "map_of punctuation c = None \<and> map_of literals c = None \<and> c \<noteq> CHR 0x22 \<and> \<not> json_space c"
    unfolding list_all_iff by (rule bspec)
  then show "map_of punctuation c = None" "map_of literals c = None" "c \<noteq> CHR 0x22" "\<not> json_space c"
    by simp_all
qed

lemma next_token_print:
  assumes "printable_token t" "\<And>w. t = TNumber w \<Longrightarrow> number_ends s"
  shows "next_token (print_token t @ s) = Some (t, s)"
proof (cases t)
  case (TString w)
  with assms show ?thesis
    by (simp add: next_token_def punctuation_def print_string_def unquote_escaped)
next
  case (TNumber w)
  with assms have w: "scan_number w = Some w" and e: "number_ends s" by simp_all
  note hd = scan_number_hd [OF w]
  then obtain c v where c: "w = c # v" by (cases w) auto
  with hd have "c = CHR ''-'' \<or> is_digit c" by simp
  with TNumber c show ?thesis
    using scan_number_append [OF e, of w] w by (simp add: next_token_def punctuation_plain)
qed (simp_all add: next_token_def punctuation_def literals_def)

lemma print_token_first:
  assumes "printable_token t"
  shows "\<exists>c r. print_token t = c # r \<and> \<not> json_space c"
proof (cases t)
  case (TNumber w)
  with assms scan_number_hd [of w w] have "w \<noteq> []" "hd w = CHR ''-'' \<or> is_digit (hd w)" by simp_all
  with TNumber punctuation_plain(4) [of "hd w"] show ?thesis by (cases w) auto
qed (simp_all add: print_string_def json_space_def)

lemma tokens_space: "list_all json_space u \<Longrightarrow> tokens (u @ s) = tokens s"
  by (subst (1 2) tokens.simps) (simp add: list_all_iff dropWhile_append2)

lemma tokens_print:
  assumes "printable_token t" "\<And>w. t = TNumber w \<Longrightarrow> number_ends s"
  shows "tokens (print_token t @ s) = map_option ((#) t) (tokens s)"
proof -
  from print_token_first [OF assms(1)] obtain c r where "print_token t = c # r" "\<not> json_space c" by blast
  with next_token_print [of t s, OF assms] show ?thesis by (subst tokens.simps) simp
qed

lemma not_digits: "\<not> is_digit CHR '',''" "\<not> is_digit CHR '']''" "\<not> is_digit CHR ''}''"
    "\<not> is_digit CHR '' ''" "\<not> is_digit CHR 0x09" "\<not> is_digit CHR 0x0A" "\<not> is_digit CHR 0x0D"
  by code_simp+

text \<open>What stands after a number is a comma, a closing bracket or the end of the text.\<close>

definition after_number :: "json_token list \<Rightarrow> bool" where
  "after_number ts \<longleftrightarrow> ts = [] \<or> hd ts \<in> set [TComma, TCloseArray, TCloseObject]"

lemma after_number_simps [simp]:
  "after_number []" "after_number (TComma # ts)" "after_number (TCloseArray # ts)"
  "after_number (TCloseObject # ts)"
  by (simp_all add: after_number_def)

fun spaced :: "json_token list \<Rightarrow> bool" where
  "spaced [] = True"
| "spaced (t # ts) = ((\<forall>w. t = TNumber w \<longrightarrow> after_number ts) \<and> spaced ts)"

lemma space_ends: "json_space c \<Longrightarrow> \<not> is_digit c \<and> c \<notin> set ''.eE+-''"
  by (auto simp: json_space_def not_digits)

lemma print_after_number:
  assumes "after_number ts" "\<forall>n. list_all json_space (pad n)"
  shows "number_ends (print_tokens pad n ts)"
proof (cases "pad n")
  case Nil
  with assms(1) show ?thesis
    by (cases ts) (auto simp: after_number_def number_ends_def not_digits)
next
  case (Cons c u)
  with assms(2) [rule_format, of n] have "json_space c" by simp
  with Cons space_ends show ?thesis by (cases ts) (auto simp: number_ends_def)
qed

lemma tokens_print_tokens:
  assumes "list_all printable_token ts" "spaced ts" "\<forall>n. list_all json_space (pad n)"
  shows "tokens (print_tokens pad n ts) = Some ts"
  using assms
proof (induction ts arbitrary: n)
  case Nil
  then show ?case using tokens_space [of "pad n" "[]"] by (simp add: tokens.simps [of "[]"])
next
  case (Cons t ts)
  then show ?case by (simp add: tokens_space tokens_print print_after_number)
qed

lemma spaced_separate:
  assumes "\<And>xs us. xs \<in> set xss \<Longrightarrow> after_number us \<Longrightarrow> spaced us \<Longrightarrow> spaced (xs @ us)"
    and "after_number ts" "spaced ts"
  shows "spaced (separate TComma xss @ ts)"
  using assms by (induction TComma xss rule: separate.induct) auto

lemma spaced_json: "after_number ts \<Longrightarrow> spaced ts \<Longrightarrow> spaced (json_tokens j @ ts)"
proof (induction j arbitrary: ts rule: json.induct)
  case (JArray vs)
  then show ?case by (auto intro!: spaced_separate)
next
  case (JObject kvs)
  then show ?case by (fastforce intro!: spaced_separate simp: snds.simps)
qed simp_all

text \<open>Any white space, any value of moderate depth: the text of a value is read as that value.\<close>

lemma parse_json_text:
  assumes "printable j" "json_depth j \<le> max_depth" "\<forall>n. list_all json_space (pad n)"
  shows "parse_json (json_text pad j) = Some j"
proof -
  have "tokens (json_text pad j) = Some (json_tokens j)"
    using assms tokens_print_tokens [of "json_tokens j" pad 0] spaced_json [of "[]" j]
    by (simp add: json_text_def printable_def)
  moreover have "json_run (json_tokens j) ([], WantValue) = Some ([], Finished j)"
    using reads_first(1) [OF reads_json, of "[]" j "[]"] assms(2) by simp
  ultimately show ?thesis by (simp add: parse_json_def)
qed

section \<open>Printable values\<close>

text \<open>\<open>num\<close> prints a number as a JSON number that \<open>strconv.ParseFloat\<close> reads as the same number.\<close>

definition prints :: "(float64 \<Rightarrow> string) \<Rightarrow> float64 \<Rightarrow> bool" where
  "prints num x \<longleftrightarrow> scan_number (num x) = Some (num x) \<and> ParseFloat (num x) = Inr x"

lemma list_all_separate:
  "list_all P (separate c xss) \<longleftrightarrow> list_all (list_all P) xss \<and> (2 \<le> length xss \<longrightarrow> P c)"
  by (induction c xss rule: separate.induct) auto

lemma printable_simps [simp]:
  "printable (JString w) = ascii w"
  "printable (JNumber w) = (scan_number w = Some w)"
  "printable (JArray js) = list_all printable js"
  "printable (JObject kvs) = list_all (\<lambda>(k, j). ascii k \<and> printable j) kvs"
  by (simp_all add: printable_def [abs_def] list_all_separate list.pred_map comp_def split_def)

lemma ascii_tag: "list_all (byte_in 0 0x7F) w \<Longrightarrow> ascii w"
  by (simp add: ascii_def)

section \<open>Decoding what was printed\<close>

lemma decode_printed: "prints num x \<Longrightarrow> decode_float (JNumber (num x)) old = (None, x)"
  by (simp add: prints_def decode_float_def)

lemmas struct_decoding =
  decode_struct_def struct_field_def find_field_def first_error_def decode_string_def decode_printed

lemma decode_elements_map:
  "(\<And>x old. x \<in> set xs \<Longrightarrow> d (f x) old = (None, x)) \<Longrightarrow> decode_elements zero d (map f xs) old = (None, xs)"
  by (induction xs arbitrary: old) (simp_all add: first_error_def)

lemma decode_entries_map:
  assumes "\<forall>(k, x) \<in> set m. d (f x) zero = (None, x)" "distinct (map fst (old @ m))"
  shows "decode_entries zero d (map (\<lambda>(k, x). (k, f x)) m) old = (None, old @ m)"
  using assms
proof (induction m arbitrary: old)
  case (Cons e m)
  obtain k x where e: "e = (k, x)" by (cases e)
  with Cons.prems have d: "d (f x) zero = (None, x)" and "set_entry k x old = old @ [e]"
    by (auto simp: set_entry_def filter_id_conv)
  with Cons e show ?case by (simp add: first_error_def)
qed simp

lemma foldr_max_bound: "(\<forall>x \<in> set xs. x \<le> b) \<Longrightarrow> foldr max xs 0 \<le> (b::nat)"
  by (induction xs) simp_all

lemma depth_array: "(\<forall>j \<in> set js. json_depth j \<le> b) \<Longrightarrow> json_depth (JArray js) \<le> Suc b"
  by (simp add: foldr_max_bound)

lemma depth_object: "(\<forall>(k, j) \<in> set kvs. json_depth j \<le> b) \<Longrightarrow> json_depth (JObject kvs) \<le> Suc b"
  by (auto intro!: foldr_max_bound)

end
