(* ===== verification/LPCC_Text.thy ===== *)
theory LPCC_Text
  imports Parser_LPCC Json_Text
begin

text \<open>
  The text that \<open>lpcc status\<close> prints for a status, and that \<open>ParseLpccStatus\<close> of
  \<^verbatim>\<open>internal/parser/lpcc.go\<close> reads back every value of it.  How numbers are printed is a parameter;
  the properties ask that each number of the status is printed as a JSON number that denotes it.
\<close>

section \<open>The JSON of a status\<close>

definition purge_config_json :: "(float64 \<Rightarrow> string) \<Rightarrow> lpccPurgeConfig \<Rightarrow> json" where
  "purge_config_json num c = JObject
     [(''high_usage'', JNumber (num (HighUsage c))), (''low_usage'', JNumber (num (LowUsage c))),
      (''interval'', JNumber (num (Interval c))), (''scan_threads'', JNumber (num (ScanThreads c))),
      (''candidate_num'', JNumber (num (CandidateNum c)))]"

definition purge_inner_json :: "(float64 \<Rightarrow> string) \<Rightarrow> lpccPurgeStatsInner \<Rightarrow> json" where
  "purge_inner_json num s = JObject
     [(''scan_times'', JNumber (num (ScanTimes s))), (''total_purged_objs'', JNumber (num (TotalPurgedObjs s))),
      (''total_failed_objs'', JNumber (num (TotalFailedObjs s))),
      (''start_usage_pct'', JNumber (num (StartUsagePct s))), (''scanned_objs'', JNumber (num (ScannedObjs s))),
      (''purged_objs'', JNumber (num (PurgedObjs s)))]"

definition cache_stats_json :: "(float64 \<Rightarrow> string) \<Rightarrow> lpccCacheStats \<Rightarrow> json" where
  "cache_stats_json num s = JObject
     [(''cached_files'', JNumber (num (CachedFiles s))), (''cached_bytes'', JNumber (num (CachedBytes s))),
      (''min_cached_file_size'', JNumber (num (MinCachedFileSize s))),
      (''max_cached_file_size'', JNumber (num (MaxCachedFileSize s))),
      (''average_age_secs'', JNumber (num (AverageAgeSecs s)))]"

definition purge_stats_json :: "(float64 \<Rightarrow> string) \<Rightarrow> lpccPurgeStats \<Rightarrow> json" where
  "purge_stats_json num s = JObject
     [(''version'', JString (PVersion s)), (''fsname'', JString (FSName s)),
      (''cache_usage_pct'', JNumber (num (CacheUsagePct s))), (''config'', purge_config_json num (Config s)),
      (''stats'', purge_inner_json num (Stats s)), (''cache_stats'', cache_stats_json num (CacheStats s))]"

definition cache_entry_json :: "(float64 \<Rightarrow> string) \<Rightarrow> lpccCacheEntry \<Rightarrow> json" where
  "cache_entry_json num e = JObject
     [(''mount'', JString (Mount e)), (''cache'', JString (Cache e)), (''status'', JString (CStatus e)),
      (''roid'', JNumber (num (ROID e))), (''autocache'', JString (Autocache e)), (''purge'', JString (Purge e)),
      (''purge_stats'', purge_stats_json num (PurgeStats e))]"

definition fs_stats_json :: "(float64 \<Rightarrow> string) \<Rightarrow> lpccFSStats \<Rightarrow> json" where
  "fs_stats_json num s = JObject
     [(''open_count'', JNumber (num (OpenCount s))), (''pcc_real_hit'', JNumber (num (PCCRealHit s))),
      (''pcc_open_hit_pct'', JNumber (num (PCCOpenHitPct s))),
      (''pcc_real_hit_bytes'', JNumber (num (PCCRealHitBytes s))),
      (''total_read_bytes'', JNumber (num (TotalReadBytes s))),
      (''pcc_read_hit_bytes_pct'', JNumber (num (PCCReadHitBytesPct s)))]"

definition mount_entry_json :: "(float64 \<Rightarrow> string) \<Rightarrow> lpccMountEntry \<Rightarrow> json" where
  "mount_entry_json num e = JObject
     [(''pcc'', JArray (map (cache_entry_json num) (PCC e))), (''fs_stats'', fs_stats_json num (FSStats e))]"

definition status_json :: "(float64 \<Rightarrow> string) \<Rightarrow> lpccStatusOutput \<Rightarrow> json" where
  "status_json num st = JObject (map (\<lambda>(k, e). (k, mount_entry_json num e)) st)"

section \<open>What can be printed\<close>

definition prints_config :: "(float64 \<Rightarrow> string) \<Rightarrow> lpccPurgeConfig \<Rightarrow> bool" where
  "prints_config num c \<longleftrightarrow>
     list_all (prints num) [HighUsage c, LowUsage c, Interval c, ScanThreads c, CandidateNum c]"

definition prints_inner :: "(float64 \<Rightarrow> string) \<Rightarrow> lpccPurgeStatsInner \<Rightarrow> bool" where
  "prints_inner num s \<longleftrightarrow>
     list_all (prints num)
       [ScanTimes s, TotalPurgedObjs s, TotalFailedObjs s, StartUsagePct s, ScannedObjs s, PurgedObjs s]"

definition prints_cache_stats :: "(float64 \<Rightarrow> string) \<Rightarrow> lpccCacheStats \<Rightarrow> bool" where
  "prints_cache_stats num s \<longleftrightarrow>
     list_all (prints num)
       [CachedFiles s, CachedBytes s, MinCachedFileSize s, MaxCachedFileSize s, AverageAgeSecs s]"

definition prints_purge_stats :: "(float64 \<Rightarrow> string) \<Rightarrow> lpccPurgeStats \<Rightarrow> bool" where
  "prints_purge_stats num s \<longleftrightarrow>
     ascii (PVersion s) \<and> ascii (FSName s) \<and> prints num (CacheUsagePct s) \<and> prints_config num (Config s) \<and>
     prints_inner num (Stats s) \<and> prints_cache_stats num (CacheStats s)"

definition prints_cache_entry :: "(float64 \<Rightarrow> string) \<Rightarrow> lpccCacheEntry \<Rightarrow> bool" where
  "prints_cache_entry num e \<longleftrightarrow>
     ascii (Mount e) \<and> ascii (Cache e) \<and> ascii (CStatus e) \<and> prints num (ROID e) \<and> ascii (Autocache e) \<and>
     ascii (Purge e) \<and> prints_purge_stats num (PurgeStats e)"

definition prints_fs_stats :: "(float64 \<Rightarrow> string) \<Rightarrow> lpccFSStats \<Rightarrow> bool" where
  "prints_fs_stats num s \<longleftrightarrow>
     list_all (prints num)
       [OpenCount s, PCCRealHit s, PCCOpenHitPct s, PCCRealHitBytes s, TotalReadBytes s, PCCReadHitBytesPct s]"

definition prints_mount :: "(float64 \<Rightarrow> string) \<Rightarrow> string \<times> lpccMountEntry \<Rightarrow> bool" where
  "prints_mount num me \<longleftrightarrow>
     ascii (fst me) \<and> list_all (prints_cache_entry num) (PCC (snd me)) \<and> prints_fs_stats num (FSStats (snd me))"

section \<open>The text can be read\<close>

lemma purge_stats_printable: "prints_purge_stats num s \<Longrightarrow> printable (purge_stats_json num s)"
  by (simp add: purge_stats_json_def purge_config_json_def purge_inner_json_def cache_stats_json_def
      prints_purge_stats_def prints_config_def prints_inner_def prints_cache_stats_def prints_def
      ascii_tag byte_in_def)

lemma cache_entry_printable: "prints_cache_entry num e \<Longrightarrow> printable (cache_entry_json num e)"
  by (simp add: cache_entry_json_def prints_cache_entry_def purge_stats_printable prints_def ascii_tag byte_in_def)

lemma mount_entry_printable: "prints_mount num (k, e) \<Longrightarrow> printable (mount_entry_json num e)"
  by (simp add: mount_entry_json_def fs_stats_json_def prints_mount_def prints_fs_stats_def prints_def
      cache_entry_printable list_all_iff ascii_tag byte_in_def)

lemma status_printable: "list_all (prints_mount num) st \<Longrightarrow> printable (status_json num st)"
  by (auto simp: status_json_def list_all_iff mount_entry_printable) (auto simp: prints_mount_def)

section \<open>Decoding what was printed\<close>

lemma decode_purge_config_json:
  "prints_config num c \<Longrightarrow> decode_purge_config (purge_config_json num c) old = (None, c)"
  by (simp add: purge_config_json_def decode_purge_config_def prints_config_def struct_decoding)

lemma decode_purge_inner_json:
  "prints_inner num s \<Longrightarrow> decode_purge_inner (purge_inner_json num s) old = (None, s)"
  by (simp add: purge_inner_json_def decode_purge_inner_def prints_inner_def struct_decoding)

lemma decode_cache_stats_json:
  "prints_cache_stats num s \<Longrightarrow> decode_cache_stats (cache_stats_json num s) old = (None, s)"
  by (simp add: cache_stats_json_def decode_cache_stats_def prints_cache_stats_def struct_decoding)

lemma decode_purge_stats_json:
  "prints_purge_stats num s \<Longrightarrow> decode_purge_stats (purge_stats_json num s) old = (None, s)"
  by (simp add: purge_stats_json_def decode_purge_stats_def prints_purge_stats_def struct_decoding
      decode_purge_config_json decode_purge_inner_json decode_cache_stats_json)

lemma decode_cache_entry_json:
  "prints_cache_entry num e \<Longrightarrow> decode_cache_entry (cache_entry_json num e) old = (None, e)"
  by (simp add: cache_entry_json_def decode_cache_entry_def prints_cache_entry_def struct_decoding
      decode_purge_stats_json)

lemma decode_fs_stats_json:
  "prints_fs_stats num s \<Longrightarrow> decode_fs_stats (fs_stats_json num s) old = (None, s)"
  by (simp add: fs_stats_json_def decode_fs_stats_def prints_fs_stats_def struct_decoding)

lemma decode_mount_entry_json:
  assumes "prints_mount num (k, e)"
  shows "decode_mount_entry (mount_entry_json num e) old = (None, e)"
proof -
  have "decode_slice zero_cache_entry decode_cache_entry (JArray (map (cache_entry_json num) (PCC e))) es =
      (None, PCC e)" for es
    using assms by (simp add: decode_slice_def prints_mount_def list_all_iff decode_elements_map
        decode_cache_entry_json)
  with assms show ?thesis
    by (simp add: mount_entry_json_def decode_mount_entry_def prints_mount_def struct_decoding
        decode_fs_stats_json)
qed

lemma decode_status_json:
  assumes "list_all (prints_mount num) st" "distinct (map fst st)"
  shows "decode_status (status_json num st) [] = (None, st)"
proof -
  have "\<forall>(k, e) \<in> set st. decode_mount_entry (mount_entry_json num e) zero_mount_entry = (None, e)"
    using assms(1) decode_mount_entry_json by (fastforce simp: list_all_iff)
  with assms(2) decode_entries_map [of st decode_mount_entry "mount_entry_json num" zero_mount_entry "[]"]
  show ?thesis by (simp add: decode_status_def decode_map_def status_json_def)
qed

section \<open>The round trip\<close>

lemma depths:
  "json_depth (purge_stats_json num s) = 2" "json_depth (fs_stats_json num fs) = 1"
  by (simp_all add: purge_stats_json_def purge_config_json_def purge_inner_json_def cache_stats_json_def
      fs_stats_json_def)

lemma status_depth: "json_depth (status_json num st) \<le> 6"
proof -
  have e: "json_depth (cache_entry_json num e) = 3" for e
    by (simp add: cache_entry_json_def depths)
  have "json_depth (JArray (map (cache_entry_json num) es)) \<le> Suc 3" for es
    by (rule depth_array) (auto simp: e)
  then have "json_depth (mount_entry_json num e) \<le> Suc 4" for e
    unfolding mount_entry_json_def by (intro depth_object) (simp add: depths)
  then have "json_depth (status_json num st) \<le> Suc (Suc 4)"
    unfolding status_json_def by (intro depth_object) auto
  then show ?thesis by simp
qed

text \<open>
  C22: Whatever white space the text has, and whatever strings of ASCII characters and numbers the status
  holds, the parser reads a printed status back in full: its observations are exactly the ones of every
  cache and mount printed, in an order of the mounts that Go chooses.
\<close>

theorem lpcc_roundtrip:
  assumes "list_all (prints_mount num) st" "distinct (map fst st)" "\<forall>n. list_all json_space (pad n)"
  shows "ParseLpccStatus order (json_text pad (status_json num st)) source =
     Inr (concat (map (mount_observations source) (order st)))"
proof -
  have "parse_json (json_text pad (status_json num st)) = Some (status_json num st)"
    using status_depth [of num st] assms
    by (intro parse_json_text status_printable) (simp_all add: max_depth_def)
  with assms show ?thesis
    by (simp add: ParseLpccStatus_def json_unmarshal_def decode_status_json)
qed

definition demo_num :: "float64 \<Rightarrow> string" where
  "demo_num x = (if x = f_zero then ''0'' else ''85.5e0'')"

definition demo_cache :: lpccCacheEntry where
  "demo_cache = zero_cache_entry
     \<lparr>Cache := ''/cache'', CStatus := ''running'', PurgeStats := zero_purge_stats
       \<lparr>CacheUsagePct := f_div (f_of_int 171) (f_of_int 2)\<rparr>\<rparr>"

definition demo_mounts :: lpccStatusOutput where
  "demo_mounts =
     [([CHR ''/'', CHR 0x22, CHR ''a'', CHR 0x0A], \<lparr>PCC = [demo_cache, zero_cache_entry], FSStats = zero_fs_stats\<rparr>),
      (''/b'', zero_mount_entry)]"

definition demo_pad :: "nat \<Rightarrow> string" where
  "demo_pad n = (if even n then [CHR 0x0A, CHR 0x20] else [])"

lemma demo_prints: "list_all (prints_mount demo_num) demo_mounts"
  by code_simp

lemma lpcc_roundtrip_witness:
  "ParseLpccStatus rev (json_text demo_pad (status_json demo_num demo_mounts)) ''lpcc status'' =
     Inr (concat (map (mount_observations ''lpcc status'') (rev demo_mounts)))"
proof (rule lpcc_roundtrip [OF demo_prints])
  show "distinct (map fst demo_mounts)" by (simp add: demo_mounts_def)
  show "\<forall>n. list_all json_space (demo_pad n)" by (simp add: demo_pad_def json_space_def)
qed

end
