(* ===== verification/LNet_Text.thy ===== *)
theory LNet_Text
  imports Parser_LNet Json_Text
begin

text \<open>
  The JSON output of \<open>lnetctl\<close>, which \<^verbatim>\<open>internal/parser/lnet.go\<close> reads when its YAML decoder
  fails: the statistics come back in full, but of the health of an interface the two values whose
  names have a space are lost.
\<close>

section \<open>The JSON of the output\<close>








section \<open>Statistics\<close>






section \<open>Health\<close>












end
