(* ===== verification/Utf8.thy ===== *)
theory Utf8
  imports Json
begin

text \<open>
  Whatever bytes a JSON text has, the strings that \<^verbatim>\<open>encoding/json\<close> reads from it are valid UTF-8:
  \<open>utf8_valid\<close> is \<^verbatim>\<open>utf8.ValidString\<close>, and every string of a parsed text satisfies it.
\<close>

section \<open>Valid strings\<close>

function utf8_valid :: "string \<Rightarrow> bool" where
  "utf8_valid s \<longleftrightarrow> s = [] \<or> (case utf8_len s of None \<Rightarrow> False | Some n \<Rightarrow> utf8_valid (drop n s))"
  by pat_completeness auto

termination
proof (relation "measure length", goal_cases)
  case (2 s n)
  then show ?case using utf8_len_pos [of s n] by (cases s) auto
qed simp

declare utf8_valid.simps [simp del]

lemma utf8_valid_Nil [simp]: "utf8_valid []"
  by (simp add: utf8_valid.simps)

text \<open>The four forms of a character; the second byte is restricted after some first bytes.\<close>

definition second3 :: "char \<Rightarrow> char \<Rightarrow> bool" where
  "second3 c a \<longleftrightarrow>
     byte_in 0x80 0xBF a \<and>
     (if c = CHR 0xE0 then byte_in 0xA0 0xBF a else if c = CHR 0xED then byte_in 0x80 0x9F a else True)"

definition second4 :: "char \<Rightarrow> char \<Rightarrow> bool" where
  "second4 c a \<longleftrightarrow>
     byte_in 0x80 0xBF a \<and>
     (if c = CHR 0xF0 then byte_in 0x90 0xBF a else if c = CHR 0xF4 then byte_in 0x80 0x8F a else True)"

lemma take_conts:
  "(2 \<le> length r \<and> list_all P (take 2 r)) \<longleftrightarrow> (\<exists>a b u. r = a # b # u \<and> P a \<and> P b)"
  "(3 \<le> length r \<and> list_all P (take 3 r)) \<longleftrightarrow> (\<exists>a b d u. r = a # b # d # u \<and> P a \<and> P b \<and> P d)"
  "(1 \<le> length r \<and> list_all P (take 1 r)) \<longleftrightarrow> (\<exists>a u. r = a # u \<and> P a)"
  by (cases r; cases "tl r"; cases "tl (tl r)"; auto simp: numeral_eq_Suc)+

lemma utf8_len_intros:
  "byte_in 0 0x7F c \<Longrightarrow> utf8_len (c # r) = Some 1"
  "byte_in 0xC2 0xDF c \<Longrightarrow> byte_in 0x80 0xBF a \<Longrightarrow> utf8_len (c # a # r) = Some 2"
  "byte_in 0xE0 0xEF c \<Longrightarrow> second3 c a \<Longrightarrow> byte_in 0x80 0xBF b \<Longrightarrow> utf8_len (c # a # b # r) = Some 3"
  "byte_in 0xF0 0xF4 c \<Longrightarrow> second4 c a \<Longrightarrow> byte_in 0x80 0xBF b \<Longrightarrow> byte_in 0x80 0xBF d \<Longrightarrow>
     utf8_len (c # a # b # d # r) = Some 4"
  by (auto simp: byte_in_def Let_def second3_def second4_def)

lemma four_ways:
  "(if p then Some 1 else if q then Some 2 else if r then Some 3 else if s then Some 4 else None) = Some (n :: nat) \<Longrightarrow>
     p \<and> n = 1 \<or> q \<and> n = 2 \<or> r \<and> n = 3 \<or> s \<and> n = 4"
  by (simp split: if_split_asm)

lemma utf8_len_cases:
  assumes "utf8_len s = Some n"
  obtains (one) c r where "s = c # r" "n = 1" "byte_in 0 0x7F c"
    | (two) c a r where "s = c # a # r" "n = 2" "byte_in 0xC2 0xDF c" "byte_in 0x80 0xBF a"
    | (three) c a b r where "s = c # a # b # r" "n = 3" "byte_in 0xE0 0xEF c" "second3 c a" "byte_in 0x80 0xBF b"
    | (four) c a b d r where "s = c # a # b # d # r" "n = 4" "byte_in 0xF0 0xF4 c" "second4 c a"
        "byte_in 0x80 0xBF b" "byte_in 0x80 0xBF d"
proof -
  from assms obtain c r where s: "s = c # r" by (cases s) auto
  let ?c = "\<lambda>n. n \<le> length r \<and> list_all (byte_in 0x80 0xBF) (take n r)"
  consider "byte_in 0 0x7F c" "n = 1"
    | "byte_in 0xC2 0xDF c" "?c 1" "n = 2"
    | "byte_in 0xE0 0xEF c" "?c 2"
      "if c = CHR 0xE0 then byte_in 0xA0 0xBF (hd r) else if c = CHR 0xED then byte_in 0x80 0x9F (hd r) else True" "n = 3"
    | "byte_in 0xF0 0xF4 c" "?c 3"
      "if c = CHR 0xF0 then byte_in 0x90 0xBF (hd r) else if c = CHR 0xF4 then byte_in 0x80 0x8F (hd r) else True" "n = 4"
    using four_ways [OF assms [unfolded s utf8_len.simps Let_def]] by blast
  then show ?thesis
  proof cases
    case 1
    then show ?thesis using one s by blast
  next
    case 2
    then obtain a u where "r = a # u" "byte_in 0x80 0xBF a" unfolding take_conts by blast
    with 2 two s show ?thesis by blast
  next
    case 3
    then obtain a b u where "r = a # b # u" "byte_in 0x80 0xBF a" "byte_in 0x80 0xBF b" unfolding take_conts by blast
    moreover from this 3(3) have "second3 c a" by (simp add: second3_def split: if_splits)
    ultimately show ?thesis using three 3(1,4) s by blast
  next
    case 4
    then obtain a b d u where "r = a # b # d # u" "byte_in 0x80 0xBF a" "byte_in 0x80 0xBF b" "byte_in 0x80 0xBF d"
      unfolding take_conts by blast
    moreover from this 4(3) have "second4 c a" by (simp add: second4_def split: if_splits)
    ultimately show ?thesis using four 4(1,4) s by blast
  qed
qed

text \<open>The first character does not depend on what follows it.\<close>

lemma utf8_len_append: "utf8_len s = Some n \<Longrightarrow> utf8_len (s @ t) = Some n"
  by (erule utf8_len_cases) (simp_all only: append_Cons utf8_len_intros)

lemma utf8_len_le: "utf8_len s = Some n \<Longrightarrow> n \<le> length s"
  by (erule utf8_len_cases) simp_all

lemma utf8_len_take: "utf8_len s = Some n \<Longrightarrow> utf8_len (take n s) = Some n"
  by (erule utf8_len_cases) (simp_all add: numeral_eq_Suc utf8_len_intros [unfolded numeral_eq_Suc] del: utf8_len.simps)

declare utf8_len.simps(2) [simp del]

lemma utf8_valid_char: "utf8_len s = Some n \<Longrightarrow> utf8_valid (take n s)"
  using utf8_len_take [of s n] by (subst utf8_valid.simps) simp

lemma utf8_valid_append: "utf8_valid s \<Longrightarrow> utf8_valid t \<Longrightarrow> utf8_valid (s @ t)"
proof (induction s rule: utf8_valid.induct)
  case (1 s)
  show ?case
  proof (cases "s = []")
    case False
    with "1.prems"(1) obtain n where n: "utf8_len s = Some n" "utf8_valid (drop n s)"
      by (subst (asm) utf8_valid.simps) (auto split: option.splits)
    with "1.IH" [OF n "1.prems"(2)] utf8_len_append [OF n(1), of t] utf8_len_le [OF n(1)] show ?thesis
      by (subst utf8_valid.simps) simp
  qed (simp add: "1.prems"(2))
qed

lemma utf8_valid_ascii: "list_all (byte_in 0 0x7F) s \<Longrightarrow> utf8_valid s"
proof (induction s)
  case (Cons c s)
  then have "utf8_len (c # s) = Some 1" by (simp add: utf8_len_intros)
  with Cons show ?case by (subst utf8_valid.simps) simp
qed simp

section \<open>Encoded runes\<close>

lemma byte_in_char: "byte_in lo hi (char_of n) \<longleftrightarrow> lo \<le> n mod 256 \<and> n mod 256 \<le> hi"
  by (simp add: byte_in_def)

lemma char_of_code: "char_of (n :: nat) = c \<longleftrightarrow> n mod 256 = of_char c"
  by (simp add: char_of_eq_iff take_bit_eq_mod)

lemma rune2: "0x80 \<le> r \<Longrightarrow> r < 0x800 \<Longrightarrow>
    2 \<le> r div 64 \<and> r div 64 < 32 \<and> r mod 64 < (64 :: nat)"
  by auto

lemma rune3:
  assumes "0x800 \<le> r" "r < 0x10000" "\<not> (0xD800 \<le> r \<and> r \<le> (0xDFFF :: nat))"
  shows "r div 4096 < 16" "r div 64 mod 64 < 64" "r div 4096 = 0 \<longrightarrow> 32 \<le> r div 64 mod 64"
    "r div 4096 = 13 \<longrightarrow> r div 64 mod 64 < 32"
proof -
  have r: "r div 4096 = r div 64 div 64" by (simp flip: div_mult2_eq)
  have q: "r div 64 = 64 * (r div 4096) + r div 64 mod 64" unfolding r by simp
  show "r div 4096 < 16" "r div 64 mod 64 < 64" using assms(2) by auto
  show "r div 4096 = 0 \<longrightarrow> 32 \<le> r div 64 mod 64" using q assms(1) by auto
  show "r div 4096 = 13 \<longrightarrow> r div 64 mod 64 < 32"
  proof
    assume "r div 4096 = 13"
    with q have "r div 64 = 832 + r div 64 mod 64" by simp
    moreover have "r < 0xD800 \<or> 0xE000 \<le> r" using assms(3) by linarith
    moreover have "r div 64 mod 64 < 64" by simp
    ultimately show "r div 64 mod 64 < 32" by (auto simp: less_eq_div_iff_mult_less_eq div_less_iff_less_mult)
  qed
qed

lemma rune4:
  assumes "0x10000 \<le> r" "r < (0x110000 :: nat)"
  shows "r div 262144 \<le> 4" "r div 4096 mod 64 < 64" "r div 262144 = 0 \<longrightarrow> 16 \<le> r div 4096 mod 64"
    "r div 262144 = 4 \<longrightarrow> r div 4096 mod 64 < 16"
proof -
  have r: "r div 262144 = r div 4096 div 64" by (simp flip: div_mult2_eq)
  have q: "r div 4096 = 64 * (r div 262144) + r div 4096 mod 64" unfolding r by simp
  show "r div 262144 \<le> 4" "r div 4096 mod 64 < 64" using assms(2) by auto
  show "r div 262144 = 0 \<longrightarrow> 16 \<le> r div 4096 mod 64" using q assms(1) by auto
  show "r div 262144 = 4 \<longrightarrow> r div 4096 mod 64 < 16" using q assms(2) by auto
qed

lemma utf8_rune:
  assumes "r < 0x110000" "\<not> (0xD800 \<le> r \<and> r \<le> 0xDFFF)"
  shows "utf8_valid (encode_rune r)"
proof -
  have "utf8_len (encode_rune r) = Some (length (encode_rune r))"
  proof -
    consider "r < 0x80" | "0x80 \<le> r" "r < 0x800" | "0x800 \<le> r" "r < 0x10000" | "0x10000 \<le> r" by linarith
    then show ?thesis
    proof cases
      case 1
      then show ?thesis by (simp add: encode_rune_def byte_in_char utf8_len_intros)
    next
      case 2
      with rune2 [OF 2] show ?thesis
        by (simp add: encode_rune_def byte_in_char utf8_len_intros(2))
    next
      case 3
      note b = rune3 [OF 3 assms(2)]
      have "second3 (char_of (0xE0 + r div 4096)) (char_of (0x80 + r div 64 mod 64))"
        using b by (auto simp: second3_def byte_in_char char_of_code)
      moreover have "byte_in 0xE0 0xEF (char_of (0xE0 + r div 4096))" "byte_in 0x80 0xBF (char_of (0x80 + r mod 64))"
        using b(1) by (simp_all add: byte_in_char)
      ultimately show ?thesis using 3 by (simp add: encode_rune_def utf8_len_intros(3))
    next
      case 4
      note b = rune4 [OF 4 assms(1)]
      have "second4 (char_of (0xF0 + r div 262144)) (char_of (0x80 + r div 4096 mod 64))"
        using b by (auto simp: second4_def byte_in_char char_of_code)
      moreover have "byte_in 0xF0 0xF4 (char_of (0xF0 + r div 262144))"
        "byte_in 0x80 0xBF (char_of (0x80 + r div 64 mod 64))" "byte_in 0x80 0xBF (char_of (0x80 + r mod 64))"
        using b(1) by (simp_all add: byte_in_char)
      ultimately show ?thesis using 4 by (simp add: encode_rune_def utf8_len_intros(4))
    qed
  qed
  from utf8_valid_char [OF this] show ?thesis by simp
qed

lemma hex_digit_less: "hex_digit c = Some n \<Longrightarrow> n < 16"
  by (auto simp: hex_digit_def Let_def split: if_splits)

lemma hex4_less: "hex4 s = Some r \<Longrightarrow> r < 0x10000"
proof (induction s rule: hex4.induct)
  case (1 a b c d s)
  then obtain w x y z where "hex_digit a = Some w" "hex_digit b = Some x" "hex_digit c = Some y" "hex_digit d = Some z"
    "r = ((w * 16 + x) * 16 + y) * 16 + z" by (auto split: option.splits)
  with hex_digit_less [of a w] hex_digit_less [of b x] hex_digit_less [of c y] hex_digit_less [of d z]
  show ?case by simp
qed simp_all

lemma utf8_replacement: "utf8_valid replacement"
  by code_simp

section \<open>Strings of a JSON text\<close>

lemma escapes_ascii: "map_of escapes e = Some c \<Longrightarrow> utf8_valid [c]"
proof -
  have "list_all (\<lambda>(e, c). byte_in 0 0x7F c) escapes" by (simp add: escapes_def byte_in_def)
  moreover assume "map_of escapes e = Some c"
  ultimately show ?thesis by (intro utf8_valid_ascii) (auto simp: list_all_iff dest!: map_of_SomeD)
qed

lemma escape_valid: "escape_piece s = Some (Piece w n) \<Longrightarrow> utf8_valid w"
proof -
  assume piece: "escape_piece s = Some (Piece w n)"
  then obtain e s' where s: "s = e # s'" by (cases s) (simp_all add: escape_piece_def)
  show ?thesis
  proof (cases "e = CHR ''u''")
    case False
    with piece show ?thesis by (auto simp: escape_piece_def s escapes_ascii)
  next
    case True
    with piece obtain r where r: "hex4 s' = Some r" by (auto simp: escape_piece_def s split: option.splits)
    show ?thesis
    proof (cases "0xD800 \<le> r \<and> r \<le> 0xDFFF")
      case sur: True
      have pair: "utf8_valid (encode_rune ((r - 0xD800) * 1024 + (r' - 0xDC00) + 0x10000))"
        if "low_surrogate t = Some r'" "r \<le> 0xDBFF" for t r'
      proof -
        have "0xDC00 \<le> r' \<and> r' \<le> 0xDFFF"
          using that(1) by (auto simp: low_surrogate_def split: if_splits option.splits)
        then have "(r - 0xD800) * 1024 + (r' - 0xDC00) + 0x10000 < 0x110000" using sur that(2) by linarith
        then show ?thesis by (rule utf8_rune) linarith
      qed
      with piece True r sur show ?thesis
        by (auto simp: escape_piece_def s utf8_replacement split: option.splits if_splits)
    next
      case False
      with piece True r have "w = encode_rune r" by (auto simp: escape_piece_def s)
      moreover have "r < 0x110000" using hex4_less [OF r] by linarith
      ultimately show ?thesis using False utf8_rune by blast
    qed
  qed
qed

lemma piece_valid: "next_piece s = Some (Piece w n) \<Longrightarrow> utf8_valid w"
  by (auto simp: next_piece_def escape_valid utf8_valid_char utf8_replacement split: list.splits if_splits option.splits)

lemma unquote_valid: "unquote s = Some (w, r) \<Longrightarrow> utf8_valid w"
proof (induction s arbitrary: w r rule: unquote.induct)
  case (1 s)
  from "1.prems" obtain p where p: "next_piece s = Some p"
    by (subst (asm) unquote.simps) (auto split: option.splits)
  show ?case
  proof (cases p)
    case StringEnd
    with "1.prems" p show ?thesis by (subst (asm) unquote.simps) auto
  next
    case (Piece v n)
    with "1.prems" p obtain w' r' where w: "unquote (drop n s) = Some (w', r')" "w = v @ w'"
      by (subst (asm) unquote.simps) (auto split: option.splits)
    from "1.IH" [OF p Piece w(1)] piece_valid [of s v n] p Piece show ?thesis
      by (simp add: w(2) utf8_valid_append)
  qed
qed

definition token_valid :: "json_token \<Rightarrow> bool" where
  "token_valid t = (case t of TString w \<Rightarrow> utf8_valid w | _ \<Rightarrow> True)"

lemma next_token_valid: "next_token s = Some (t, r) \<Longrightarrow> token_valid t"
  by (auto simp: next_token_def token_valid_def punctuation_def literals_def unquote_valid
      split: list.splits option.splits if_splits)

lemma tokens_valid: "tokens s = Some ts \<Longrightarrow> list_all token_valid ts"
proof (induction s arbitrary: ts rule: tokens.induct)
  case (1 s)
  let ?s = "dropWhile json_space s"
  show ?case
  proof (cases "?s = []")
    case True
    with "1.prems" show ?thesis by (subst (asm) tokens.simps) simp
  next
    case False
    have "tokens s = (case next_token ?s of None \<Rightarrow> None | Some (t, r) \<Rightarrow> map_option ((#) t) (tokens r))"
      by (subst tokens.simps) (simp only: Let_def False if_False)
    with "1.prems" obtain t r ts' where t: "next_token ?s = Some (t, r)" "tokens r = Some ts'" "ts = t # ts'"
      by (auto split: option.splits)
    with "1.IH" [OF refl False t(1) refl t(2)] next_token_valid [OF t(1)] show ?thesis by simp
  qed
qed

primrec json_valid :: "json \<Rightarrow> bool" where
  "json_valid JNull = True"
| "json_valid (JBool b) = True"
| "json_valid (JNumber w) = True"
| "json_valid (JString w) = utf8_valid w"
| "json_valid (JArray vs) = list_all id (map json_valid vs)"
| "json_valid (JObject kvs) = list_all (\<lambda>(k, b). utf8_valid k \<and> b) (map (map_prod id json_valid) kvs)"

definition entries_valid :: "(string \<times> json) list \<Rightarrow> bool" where
  "entries_valid kvs \<longleftrightarrow> list_all (\<lambda>(k, v). utf8_valid k \<and> json_valid v) kvs"

lemma json_valid_object: "json_valid (JObject kvs) \<longleftrightarrow> entries_valid kvs"
  by (induction kvs) (auto simp: entries_valid_def)

lemma json_valid_array: "json_valid (JArray vs) \<longleftrightarrow> list_all json_valid vs"
  by (induction vs) simp_all

fun frame_valid :: "frame \<Rightarrow> bool" where
  "frame_valid (InArray vs) = list_all json_valid vs"
| "frame_valid (InObject kvs k) = (entries_valid kvs \<and> utf8_valid k)"

definition state_valid :: "parser_state \<Rightarrow> bool" where
  "state_valid st \<longleftrightarrow>
     list_all frame_valid (fst st) \<and> (case snd st of Finished v \<Rightarrow> json_valid v | _ \<Rightarrow> True)"

lemma entries_valid_simps [simp]:
  "entries_valid []" "entries_valid ((k, v) # kvs) \<longleftrightarrow> utf8_valid k \<and> json_valid v \<and> entries_valid kvs"
  "entries_valid (rev kvs) = entries_valid kvs"
  by (auto simp: entries_valid_def)

lemma state_valid_simps [simp]:
  "state_valid (fs, Finished v) \<longleftrightarrow> list_all frame_valid fs \<and> json_valid v"
  "state_valid (fs, WantValue) \<longleftrightarrow> list_all frame_valid fs"
  "state_valid (fs, WantValueOrClose) \<longleftrightarrow> list_all frame_valid fs"
  "state_valid (fs, WantKey) \<longleftrightarrow> list_all frame_valid fs"
  "state_valid (fs, WantKeyOrClose) \<longleftrightarrow> list_all frame_valid fs"
  "state_valid (fs, WantColon) \<longleftrightarrow> list_all frame_valid fs"
  "state_valid (fs, WantCommaOrClose) \<longleftrightarrow> list_all frame_valid fs"
  by (simp_all add: state_valid_def)

lemma complete_valid [simp]:
  "json_valid v \<Longrightarrow> list_all frame_valid fs \<Longrightarrow> state_valid (complete_value v fs)"
  by (cases "(v, fs)" rule: complete_value.cases) auto

lemma begin_valid:
  "begin_value t fs = Some st \<Longrightarrow> token_valid t \<Longrightarrow> list_all frame_valid fs \<Longrightarrow> state_valid st"
  by (cases t) (auto simp: push_frame_def token_valid_def split: if_splits)

lemma close_valid: "close_frame t fs = Some st \<Longrightarrow> list_all frame_valid fs \<Longrightarrow> state_valid st"
proof (induction t fs rule: close_frame.induct)
  case (1 vs fs)
  then have "json_valid (JArray (rev vs))" by (simp only: json_valid_array) simp
  from complete_valid [OF this, of fs] 1 show ?case by (auto simp del: json_valid.simps complete_valid)
next
  case (2 kvs k fs)
  then have "json_valid (JObject (rev kvs))" by (simp only: json_valid_object) simp
  from complete_valid [OF this, of fs] 2 show ?case by (auto simp del: json_valid.simps complete_valid)
qed simp_all

lemma key_valid: "read_key t fs = Some st \<Longrightarrow> token_valid t \<Longrightarrow> list_all frame_valid fs \<Longrightarrow> state_valid st"
  by (cases "(t, fs)" rule: read_key.cases) (auto simp: token_valid_def)

lemma after_valid: "after_value t fs = Some st \<Longrightarrow> list_all frame_valid fs \<Longrightarrow> state_valid st"
  by (cases "(t, fs)" rule: after_value.cases) (auto simp del: close_frame.simps intro: close_valid)

lemma step_valid: "json_step t st = Some st' \<Longrightarrow> token_valid t \<Longrightarrow> state_valid st \<Longrightarrow> state_valid st'"
  by (cases "(t, st)" rule: json_step.cases)
     (auto intro: begin_valid close_valid key_valid after_valid split: if_splits)

lemma run_valid: "json_run ts st = Some st' \<Longrightarrow> list_all token_valid ts \<Longrightarrow> state_valid st \<Longrightarrow> state_valid st'"
  by (induction ts arbitrary: st) (auto split: option.splits dest: step_valid)

lemma parse_json_valid: "parse_json data = Some j \<Longrightarrow> json_valid j"
proof -
  assume "parse_json data = Some j"
  then obtain ts fs where "tokens data = Some ts" "json_run ts ([], WantValue) = Some (fs, Finished j)"
    by (auto simp: parse_json_def split: option.splits mode.splits)
  with run_valid [of ts "([], WantValue)" "(fs, Finished j)"] tokens_valid [of data ts] show ?thesis by simp
qed

end
