(* ===== verification/LPCC_Labels.thy ===== *)
theory LPCC_Labels
  imports Utf8 Exporter
begin

text \<open>
  The label values of the LPCC collector (\<^verbatim>\<open>collector/lpcc.go\<close>, \<^verbatim>\<open>internal/parser/lpcc.go\<close>) come out of a
  JSON text, so they are valid UTF-8 whatever the command prints; the collector fails only when the text
  cannot be decoded.
\<close>

section \<open>Decoders that keep a property\<close>

definition keeps :: "'a decoder \<Rightarrow> ('a \<Rightarrow> bool) \<Rightarrow> bool" where
  "keeps d I \<longleftrightarrow> (\<forall>j x. json_valid j \<longrightarrow> I x \<longrightarrow> I (snd (d j x)))"

lemma keepsI: "(\<And>j x. json_valid j \<Longrightarrow> I x \<Longrightarrow> I (snd (d j x))) \<Longrightarrow> keeps d I"
  by (simp add: keeps_def)

lemma keepsD: "keeps d I \<Longrightarrow> json_valid j \<Longrightarrow> I x \<Longrightarrow> I (snd (d j x))"
  by (simp add: keeps_def)

lemma keeps_string: "keeps decode_string utf8_valid"
  by (rule keepsI) (auto simp: decode_string_def split: json.split)

text \<open>A field that the property does not look at, and one that has a property of its own.\<close>

lemma keeps_other_field: "(\<And>v x. I x \<Longrightarrow> I (upd (\<lambda>_. v) x)) \<Longrightarrow> keeps (struct_field d get upd) I"
  by (rule keepsI) (simp add: struct_field_def split: prod.split)

lemma keeps_field:
  assumes "keeps d J" "\<And>x. I x \<Longrightarrow> J (get x)" "\<And>v x. I x \<Longrightarrow> J v \<Longrightarrow> I (upd (\<lambda>_. v) x)"
  shows "keeps (struct_field d get upd) I"
  by (rule keepsI) (simp add: struct_field_def case_prod_beta assms keepsD [OF assms(1)])

lemma find_field_in: "find_field fds k = Some d \<Longrightarrow> d \<in> snd ` set fds"
  by (force simp: find_field_def dest: map_of_SomeD split: option.splits)

lemma members_keep:
  assumes "\<And>d. d \<in> snd ` set fds \<Longrightarrow> keeps d I"
  shows "entries_valid kvs \<Longrightarrow> I x \<Longrightarrow> I (snd (decode_members fds kvs x))"
proof (induction kvs arbitrary: x)
  case (Cons kv kvs)
  obtain k j where kv: "kv = (k, j)" by (cases kv)
  show ?case
  proof (cases "find_field fds k")
    case None
    with Cons kv show ?thesis by simp
  next
    case (Some d)
    then have "I (snd (d j x))"
      using Cons.prems kv by (auto intro!: keepsD [OF assms] dest: find_field_in)
    with Cons Some kv show ?thesis by (simp add: case_prod_beta)
  qed
qed simp

lemma keeps_struct:
  assumes "list_all (\<lambda>fd. keeps (snd fd) I) fds"
  shows "keeps (decode_struct fds) I"
proof (rule keepsI)
  fix j x
  assume "json_valid j" "I x"
  moreover have "keeps d I" if "d \<in> snd ` set fds" for d using assms that by (auto simp: list_all_iff)
  ultimately show "I (snd (decode_struct fds j x))"
    by (cases j) (simp_all add: decode_struct_def members_keep json_valid_object del: json_valid.simps(6))
qed

lemma elements_keep:
  assumes "keeps d I" "I zero"
  shows "list_all json_valid js \<Longrightarrow> list_all I old \<Longrightarrow> list_all I (snd (decode_elements zero d js old))"
proof (induction js arbitrary: old)
  case (Cons j js)
  then have "I (case old of [] \<Rightarrow> zero | x # _ \<Rightarrow> x)" "list_all I (tl old)"
    using assms(2) by (cases old; simp)+
  with Cons show ?case by (simp add: case_prod_beta keepsD [OF assms(1)])
qed simp

lemma keeps_slice:
  assumes "keeps d I" "I zero"
  shows "keeps (decode_slice zero d) (list_all I)"
proof (rule keepsI)
  fix j x
  assume "json_valid j" "list_all I x"
  with elements_keep [OF assms] show "list_all I (snd (decode_slice zero d j x))"
    by (cases j) (simp_all add: decode_slice_def json_valid_array del: json_valid.simps(5))
qed

definition entries_keep_to :: "('a \<Rightarrow> bool) \<Rightarrow> (string \<times> 'a) list \<Rightarrow> bool" where
  "entries_keep_to I m \<longleftrightarrow> list_all (\<lambda>(k, v). utf8_valid k \<and> I v) m"

lemma set_entry_keeps: "entries_keep_to I m \<Longrightarrow> utf8_valid k \<Longrightarrow> I v \<Longrightarrow> entries_keep_to I (set_entry k v m)"
  by (auto simp: entries_keep_to_def set_entry_def list_all_iff)

lemma entries_keep:
  assumes "keeps d I" "I zero"
  shows "entries_valid kvs \<Longrightarrow> entries_keep_to I m \<Longrightarrow> entries_keep_to I (snd (decode_entries zero d kvs m))"
proof (induction kvs arbitrary: m)
  case (Cons kv kvs)
  obtain k j where kv: "kv = (k, j)" by (cases kv)
  have "I (snd (d j zero))" using Cons.prems assms(2) kv by (simp add: keepsD [OF assms(1)])
  with Cons kv show ?case by (simp add: case_prod_beta set_entry_keeps)
qed simp

lemma keeps_map:
  assumes "keeps d I" "I zero"
  shows "keeps (decode_map zero d) (entries_keep_to I)"
proof (rule keepsI)
  fix j x
  assume "json_valid j" "entries_keep_to I x"
  with entries_keep [OF assms] show "entries_keep_to I (snd (decode_map zero d j x))"
    by (cases j) (simp_all add: decode_map_def json_valid_object entries_keep_to_def [of I "[]"] del: json_valid.simps(6))
qed

section \<open>The status\<close>

definition mount_valid :: "lpccMountEntry \<Rightarrow> bool" where
  "mount_valid e = list_all (\<lambda>c. utf8_valid (Cache c)) (PCC e)"

definition status_valid :: "lpccStatusOutput \<Rightarrow> bool" where
  "status_valid = entries_keep_to mount_valid"

lemma keeps_cache_entry: "keeps decode_cache_entry (\<lambda>c. utf8_valid (Cache c))"
  unfolding decode_cache_entry_def
  by (rule keeps_struct) (simp add: keeps_other_field keeps_field [OF keeps_string])

lemma keeps_mount_entry: "keeps decode_mount_entry mount_valid"
proof -
  have "keeps (struct_field (decode_slice zero_cache_entry decode_cache_entry) PCC PCC_update) mount_valid"
    by (rule keeps_field [OF keeps_slice [OF keeps_cache_entry]]) (simp_all add: mount_valid_def zero_cache_entry_def)
  moreover have "keeps (struct_field decode_fs_stats FSStats FSStats_update) mount_valid"
    by (rule keeps_other_field) (simp add: mount_valid_def)
  ultimately show ?thesis unfolding decode_mount_entry_def by (intro keeps_struct) simp
qed

lemma keeps_status: "keeps decode_status status_valid"
  unfolding decode_status_def status_valid_def
  by (rule keeps_map [OF keeps_mount_entry]) (simp add: mount_valid_def zero_mount_entry_def)

lemma decoded_status_valid: "status_valid (snd (json_unmarshal decode_status data []))"
proof (cases "parse_json data")
  case None
  then show ?thesis by (simp add: json_unmarshal_def status_valid_def entries_keep_to_def)
next
  case (Some j)
  from keepsD [OF keeps_status parse_json_valid [OF this], of "[]"] Some show ?thesis
    by (simp add: json_unmarshal_def status_valid_def entries_keep_to_def)
qed

lemma table_valid:
  "(\<And>v. v \<in> ran labels \<Longrightarrow> valid v) \<Longrightarrow> list_all (valid_labels valid) (table_observations source labels table)"
  by (auto simp: table_observations_def valid_labels_def obs_def list_all_iff)

lemma mount_labels_valid:
  assumes "utf8_valid k" "mount_valid e"
  shows "list_all (valid_labels utf8_valid) (mount_observations source (k, e))"
proof -
  have "list_all (valid_labels utf8_valid)
      (table_observations source [''mount'' \<mapsto> k, ''cache'' \<mapsto> Cache c] (cache_table c))" if "c \<in> set (PCC e)" for c
    by (rule table_valid) (use assms that in \<open>auto simp: ran_def mount_valid_def list_all_iff split: if_splits\<close>)
  moreover have "list_all (valid_labels utf8_valid) (table_observations source [''mount'' \<mapsto> k] (fs_table (FSStats e)))"
    by (rule table_valid) (use assms in \<open>auto simp: ran_def split: if_splits\<close>)
  ultimately show ?thesis by (auto simp: mount_observations_def list_all_iff)
qed

lemma lpcc_labels_valid:
  assumes "\<And>m. mset (order m) = mset m" "ParseLpccStatus order data source = Inr os"
  shows "list_all (valid_labels utf8_valid) os"
proof -
  obtain st where st: "json_unmarshal decode_status data [] = (None, st)"
    and os: "os = concat (map (mount_observations source) (order st))"
    using assms(2) by (auto simp: ParseLpccStatus_def split: prod.splits option.splits)
  have "utf8_valid k \<and> mount_valid e" if "(k, e) \<in> set (order st)" for k e
    using that mset_eq_setD [OF assms(1), of st] decoded_status_valid [of data]
    by (auto simp: st status_valid_def entries_keep_to_def list_all_iff)
  then show ?thesis using mount_labels_valid by (fastforce simp: os list_all_iff)
qed

section \<open>The collector\<close>

text \<open>
  C23: With a client library that rejects exactly the metrics with too few or too many label values or with one that
  is not UTF-8, the LPCC collector succeeds unless its command returns a text that is not a status: no mount or
  cache name can make it fail, whatever bytes the command prints, and neither can a command that cannot be run.
\<close>

theorem lpcc_success:
  assumes "prometheus_ok (prom env)" "cache_ok (NewDesc (prom env)) cache"
    "rejects_only_invalid (prom env) utf8_valid" "\<And>m. mset (lpcc_order env m) = mset m"
  shows "is_ok (fst (Collect env (CLpcc c) cache)) \<longleftrightarrow>
     (case RunCommand (lreader c) (lpccBin c) [''status''] of
        Inl err \<Rightarrow> True
      | Inr data \<Rightarrow> fst (json_unmarshal decode_status data []) = None)"
proof (cases "RunCommand (lreader c) (lpccBin c) [''status'']")
  case (Inl err)
  then show ?thesis
    unfolding Collect_ok [OF assms(1-3)] by (simp add: gather_def lpcc_gather_def)
next
  case (Inr data)
  then show ?thesis
    using lpcc_labels_valid [of "lpcc_order env", OF assms(4), of data "''lpcc status''"]
    unfolding Collect_ok [OF assms(1-3)]
    by (auto simp: gather_def lpcc_gather_def lpcc_observations_def ParseLpccStatus_def split: prod.splits option.splits)
qed

text \<open>A client library that checks the label values, and a status with names that are not UTF-8.\<close>

definition checked_metric ::
  "string \<times> string \<times> string list \<Rightarrow> value_type \<Rightarrow> float64 \<Rightarrow> string list \<Rightarrow>
     ((string \<times> string \<times> string list) \<times> value_type \<times> float64 \<times> string list) result" where
  "checked_metric d vt v ls =
     (if list_all utf8_valid ls then demo_metric d vt v ls else Inl (SourceError ''label value is not valid UTF-8''))"

definition checked_environment ::
  "(string \<times> string \<times> string list, (string \<times> string \<times> string list) \<times> value_type \<times> float64 \<times> string list) environment" where
  "checked_environment = demo_environment\<lparr>prom := (prom demo_environment)\<lparr>NewConstMetric := checked_metric\<rparr>\<rparr>"

definition raw_status :: string where
  "raw_status =
     (let q = [CHR 0x22] in
      ''{'' @ q @ [CHR 0xFF] @ q @ '':{'' @ q @ ''pcc'' @ q @ '':[{'' @ q @ ''cache'' @ q @ '':'' @ q @ [CHR 0xC3, CHR 0x28] @
      q @ ''}]}}'')"

lemma raw_status_not_utf8: "\<not> utf8_valid raw_status"
  by code_simp

lemma raw_status_decoded: "fst (json_unmarshal decode_status raw_status []) = None"
  by code_simp

lemma checked_environment_ok:
  "prometheus_ok (prom checked_environment)" "rejects_only_invalid (prom checked_environment) utf8_valid"
  using demo_environment_ok
  by (simp_all add: prometheus_ok_def rejects_only_invalid_def checked_environment_def checked_metric_def
      demo_environment_def demo_metric_def desc_of_def demo_desc_def)

lemma lpcc_success_witness:
  "\<not> utf8_valid raw_status \<and>
   is_ok (fst (Collect checked_environment
     (CLpcc \<lparr>lreader = demo_files\<lparr>RunCommand := \<lambda>name args. Inr raw_status\<rparr>, lpccBin = ''lpcc''\<rparr>) Map.empty))"
proof -
  have "mset (lpcc_order checked_environment m) = mset m" for m
    by (simp add: checked_environment_def demo_environment_def)
  from lpcc_success [OF checked_environment_ok(1) cache_empty_ok checked_environment_ok(2) this,
      of "\<lparr>lreader = demo_files\<lparr>RunCommand := \<lambda>name args. Inr raw_status\<rparr>, lpccBin = ''lpcc''\<rparr>"]
  show ?thesis by (simp add: raw_status_decoded raw_status_not_utf8)
qed

end
