(* ===== verification/Spec2Isabelle.thy ===== *)
theory Spec2Isabelle
  imports Timed_Scrape Web Series_Scrape Overlap LPCC_Text LNet_Text LPCC_Labels
begin

text \<open>
  Verification development of the Lustre client exporter, a Prometheus exporter in Go.

  \<^bold>\<open>The program.\<close>  \<^verbatim>\<open>cmd/lustre_client_exporter\<close> reads the command line, chooses up to five collectors and
  serves their metrics.  For each scrape \<^verbatim>\<open>collector/collector.go\<close> runs every collector in a goroutine under a
  deadline.  A collector (\<^verbatim>\<open>collector/*.go\<close>) finds its sources with \<^verbatim>\<open>internal/discovery\<close>, reads them through
  \<^verbatim>\<open>internal/reader\<close>, parses them into observations with \<^verbatim>\<open>internal/parser\<close>, translates these by the public
  contract of \<^verbatim>\<open>internal/mapper\<close> and builds metrics with \<^verbatim>\<open>internal/emitter\<close>.

  \<^bold>\<open>The theories\<close>, from the library up; the names of definitions are those of the code where Isabelle allows it.

    \<^item> \<open>Prelude\<close>: errors as a datatype, results \<open>go_error + 'a\<close>, loops that return on the first error
      (\<open>collect_all\<close>) and the lemmas that all theories share.
    \<^item> \<open>Go_Strings\<close>, \<open>Paths\<close>, \<open>Float64\<close>, \<open>Parse_Float\<close>, \<open>Json\<close>, \<open>Go_Flags\<close>, \<open>Http_Mux\<close>: what the program
      uses of Go's \<^verbatim>\<open>strings\<close>, \<^verbatim>\<open>path/filepath\<close>, \<open>float64\<close>, \<^verbatim>\<open>strconv.ParseFloat\<close>, \<^verbatim>\<open>encoding/json\<close>,
      \<^verbatim>\<open>flag\<close>, \<^verbatim>\<open>time.ParseDuration\<close> and the patterns of \<^verbatim>\<open>http.ServeMux\<close>.  Strings are lists of bytes.
      A float is a sign, a mantissa and an exponent, or an infinity or NaN; every operation rounds to nearest even once, and the accuracy lemmas are about these
      definitions.
    \<^item> \<open>Observation\<close>, \<open>Contract\<close>, \<open>Mapper\<close>: \<^verbatim>\<open>internal/parser/observation.go\<close>, the registry of
      \<^verbatim>\<open>internal/mapper/contract.go\<close> with all its metrics, and \<open>Map\<close>.  The locale \<open>observation_source\<close> is the
      interface of everything that yields observations: they are in the contract with exactly its labels.  Every
      parser and every collector interprets it.
    \<^item> \<open>Parser_Basic\<close>, \<open>Parser_Client\<close>, \<open>Parser_RPC\<close>, \<open>Parser_LNet\<close>, \<open>Parser_LPCC\<close>: \<^verbatim>\<open>internal/parser/*.go\<close>.
      For each format a printer is defined and reading it back is proved; the stateful parser of
      \<open>rpc_stats\<close> equals a specification without state.  \<open>Json_Text\<close>, \<open>LPCC_Text\<close> and \<open>LNet_Text\<close> do this
      for JSON with any white space between the tokens.
    \<^item> \<open>Utf8\<close>, \<open>LPCC_Labels\<close>: the strings that come out of a JSON text are valid UTF-8 whatever its bytes, so no
      name in an LPCC status can make the collector fail.
    \<^item> \<open>Reader\<close>, \<open>Deadline\<close>: \<^verbatim>\<open>internal/reader\<close>, without and with a clock.  The locales \<open>bounded_reader\<close> and
      \<open>bounded_commands\<close> are what holds once a context is done.  \<open>Deadline\<close> has programs over the three
      methods of the Go interface \<open>Reader\<close> and runs them against a clock.
    \<^item> \<open>Discovery\<close>: \<^verbatim>\<open>internal/discovery/discovery.go\<close>: the index of client targets, its invariant, and what
      \<open>DiscoverClients\<close> finds.
    \<^item> \<open>Emitter\<close>: \<^verbatim>\<open>internal/emitter/emitter.go\<close>: the descriptor cache shared by the goroutines, refined by an
      \<open>Emit\<close> without a cache.
    \<^item> \<open>Collector_Simple\<close>, \<open>Collector_LNet\<close>, \<open>Collector_Client\<close>, \<open>Client_Targets\<close>: the collectors of
      \<^verbatim>\<open>collector/health.go\<close>, \<^verbatim>\<open>sptlrpc.go\<close>, \<^verbatim>\<open>lpcc.go\<close>, \<^verbatim>\<open>lnet.go\<close> and \<^verbatim>\<open>client.go\<close>; strict mode, the fallback
      from the stats file to \<open>lnetctl\<close>, and which series a target can produce.
    \<^item> \<open>Scrape\<close>: \<^verbatim>\<open>collector/collector.go\<close>: a scrape as a step relation in which any goroutine may move, its
      invariant, its end, and the duration totals over a series of scrapes with their 64-bit counts.
    \<^item> \<open>Overlap\<close>: scrapes that run at the same time and share those totals; they are serializable.
    \<^item> \<open>Exporter_Main\<close>, \<open>Flags\<close>, \<open>Web\<close>, \<open>Exporter\<close>: \<^verbatim>\<open>cmd/lustre_client_exporter/main.go\<close>: the configuration,
      the command line, and which of the two HTTP handlers answers a request.  The locale
      \<open>metric_collector\<close> is the interface of the five collectors; \<open>Exporter\<close> proves what a scrape of the
      configured collectors sends, and when strict mode fails it.
    \<^item> \<open>Families\<close>, \<open>Series_Client\<close>, \<open>Series_Scrape\<close>: which series the sources can yield.  Every metric of the contract
      belongs to one family, and every parser to some; so series of different collectors never collide, and a
      scrape that a Prometheus registry would reject for a duplicate has it from a single file or command.
    \<^item> \<open>Timed_Scrape\<close>: the collectors as programs, equal to the models without time, and the deadlines of
      \<open>Registry.Collect\<close>: every collector returns, and in time it behaves as without a clock.

  \<^bold>\<open>Nondeterminism.\<close>  Goroutines are interleaved by a schedule, and the properties hold for each.  What other
  goroutines do to the descriptor cache between two steps of one, in which order Go iterates over a map, and
  which branch a \<open>select\<close> takes are parameters.

  \<^bold>\<open>Termination.\<close>  No definition uses fuel: loops over lines, fields and tokens are recursion on lists or on a
  shrinking string.  The JSON decoder has the nesting limit of the package, 10000, as \<open>max_depth\<close>.  A call that
  may never return is \<open>None\<close> in \<open>Deadline\<close>; a collector computes without taking time there.

  \<^bold>\<open>Parameters\<close> are what is not in the repository: the operating system, \<^verbatim>\<open>gopkg.in/yaml.v3\<close>, which takes the bytes and
  the destination and may fail after filling a part of it, and the Prometheus client library, of which
  some properties assume that it rejects only wrong numbers of label values and label values that are
  not UTF-8 (\<open>rejects_only_invalid\<close>) and that a descriptor depends on its arguments alone.

  \<^bold>\<open>Not modelled.\<close>  Log output; \<^verbatim>\<open>ListenAndServe\<close>, of which only the outcome counts, and the text that \<^verbatim>\<open>promhttp\<close>
  writes; \<open>CONNECT\<close> requests and wildcard names beyond ASCII in telemetry paths; goroutines that keep
  reading after their caller has given up; the capacity of slices when one JSON text has an array twice; the
  texts of errors of the standard library, where only the kind of the error is kept.  What is left of the
  Go code are imports, comments, the version string, a timeout of the HTTP server and the unused type \<open>Target\<close>.
\<close>

end
